theory Spec2Isabelle
  imports Main "HOL-Library.Sublist"
begin

section \<open>The caib command-line client (cmd/caib/main.go)\<close>

text \<open>
  A shallow embedding of the build client: the manifest walk that finds local file
  references, the upload readiness wait, the upload retry loop, the wait for the build to
  finish and the artifact download. Go strings are byte strings and are modelled as
  \<open>string\<close>. Everything outside the process (the YAML parser, the build API, the clock,
  the file store) is explicit: a record \<open>world\<close> answers every call as a function of
  the time at which it is made, time is a natural number of seconds, and every function of
  the client returns the events it caused together with its result.
\<close>

subsection \<open>The strings package, as far as the client uses it\<close>

definition HasPrefix :: "string \<Rightarrow> string \<Rightarrow> bool" where
  "HasPrefix s p = prefix p s"

definition HasSuffix :: "string \<Rightarrow> string \<Rightarrow> bool" where
  "HasSuffix s p = suffix p s"

definition Contains :: "string \<Rightarrow> string \<Rightarrow> bool" where
  "Contains s substr = sublist substr s"

text \<open>
  White space and letter case. On ASCII bytes the functions of package \<open>strings\<close> take
  the fast paths written out here, with the table \<open>asciiSpace\<close> and the letters A to Z.
  As soon as they meet a byte from \<open>utf8.RuneSelf\<close> on, they hand over to the functions
  driven by the tables of package \<open>unicode\<close>. Those tables are not part of the client, so
  what these functions return is a parameter: \<open>strings.Map(unicode.ToLower, s)\<close>,
  \<open>strings.TrimFunc(s, unicode.IsSpace)\<close>, \<open>strings.TrimRightFunc(s, unicode.IsSpace)\<close>
  and \<open>strings.FieldsFunc(s, unicode.IsSpace)\<close>.
\<close>

record unicode_tables =
  MapToLower :: "string \<Rightarrow> string"
  TrimFuncIsSpace :: "string \<Rightarrow> string"
  TrimRightFuncIsSpace :: "string \<Rightarrow> string"
  FieldsFuncIsSpace :: "string \<Rightarrow> string list"

text \<open>A byte that is at least \<open>utf8.RuneSelf\<close>, that is 0x80: its top bit is set.\<close>

definition nonASCII :: "char \<Rightarrow> bool" where
  "nonASCII c = digit7 c"

definition isSpace :: "char \<Rightarrow> bool" where
  "isSpace c = (c \<in> set [CHR '' '', CHR 0x09, CHR 0x0A, CHR 0x0B, CHR 0x0C, CHR 0x0D])"

text \<open>
  \<open>strings.TrimSpace\<close> skips ASCII white space from the front; at a byte that is not
  ASCII it returns \<open>TrimFunc\<close> of what is left. Then it skips ASCII white space from the
  back; at a byte that is not ASCII it returns \<open>TrimRightFunc\<close> of what is left.
\<close>

definition TrimSpace :: "unicode_tables \<Rightarrow> string \<Rightarrow> string" where
  "TrimSpace u s =
     (case dropWhile isSpace s of
        [] \<Rightarrow> []
      | c # cs \<Rightarrow>
          if nonASCII c then TrimFuncIsSpace u (c # cs)
          else
            (let t = rev (dropWhile isSpace (rev (c # cs)))
             in if nonASCII (last t) then TrimRightFuncIsSpace u t else t))"

definition Trim :: "string \<Rightarrow> string \<Rightarrow> string" where
  "Trim s cutset =
     rev (dropWhile (\<lambda>c. c \<in> set cutset) (rev (dropWhile (\<lambda>c. c \<in> set cutset) s)))"

definition lowerChar :: "char \<Rightarrow> char" where
  "lowerChar c =
     (case map_of (zip ''ABCDEFGHIJKLMNOPQRSTUVWXYZ'' ''abcdefghijklmnopqrstuvwxyz'') c of
        None \<Rightarrow> c
      | Some l \<Rightarrow> l)"

text \<open>\<open>strings.ToLower\<close> lowers the letters A to Z of a string that is all ASCII.\<close>

definition ToLower :: "unicode_tables \<Rightarrow> string \<Rightarrow> string" where
  "ToLower u s = (if list_ex nonASCII s then MapToLower u s else map lowerChar s)"

definition TrimSuffix :: "string \<Rightarrow> string \<Rightarrow> string" where
  "TrimSuffix s suf = (if HasSuffix s suf then take (length s - length suf) s else s)"

text \<open>
  \<open>cutAfter s sep\<close> is \<open>s[i+len(sep):]\<close> for the first index \<open>i\<close> of \<open>sep\<close> in \<open>s\<close>,
  and \<open>None\<close> when \<open>strings.Index\<close> is negative.
\<close>

fun cutAfter :: "string \<Rightarrow> string \<Rightarrow> string option" where
  "cutAfter [] sep = (if sep = [] then Some [] else None)"
| "cutAfter (c # s) sep =
     (if prefix sep (c # s) then Some (drop (length sep) (c # s)) else cutAfter s sep)"

text \<open>\<open>filepath.IsAbs\<close> on a Unix system.\<close>

definition IsAbs :: "string \<Rightarrow> bool" where
  "IsAbs path = HasPrefix path ''/''"

subsection \<open>Manifest documents\<close>

text \<open>
  What \<open>yaml.Unmarshal\<close> leaves in a value of type \<open>any\<close>: nil, a scalar, a sequence
  or a mapping with string keys. \<open>YOther\<close> stands for every other dynamic type (floats,
  timestamps, mappings with keys that are not strings); no type assertion of the client
  succeeds on it.
\<close>

datatype yaml =
    YNull
  | YBool bool
  | YInt int
  | YStr string
  | YSeq "yaml list"
  | YMap "(string \<times> yaml) list"
  | YOther

text \<open>Indexing a \<open>map[string]any\<close>: a missing key yields nil.\<close>

definition idx :: "(string \<times> yaml) list \<Rightarrow> string \<Rightarrow> yaml" where
  "idx m k = (case map_of m k of None \<Rightarrow> YNull | Some v \<Rightarrow> v)"

text \<open>The type assertions \<open>v.(map[string]any)\<close>, \<open>v.([]any)\<close> and \<open>v.(string)\<close>.\<close>

fun asMap :: "yaml \<Rightarrow> (string \<times> yaml) list option" where
  "asMap (YMap m) = Some m"
| "asMap _ = None"

fun asSeq :: "yaml \<Rightarrow> yaml list option" where
  "asSeq (YSeq xs) = Some xs"
| "asSeq _ = None"

fun asString :: "yaml \<Rightarrow> string option" where
  "asString (YStr s) = Some s"
| "asString _ = None"

subsection \<open>Errors\<close>

datatype err =
    ManifestRequired
  | NameRequired
  | ArchRequired
  | ServerRequired
  | ClientError string
  | ReadManifestError string
  | EnumError string
  | CreateBuildError string
  | YAMLParseError string
  | EmptyOrRootPath
  | DirectoryTraversal string
  | AbsoluteOutsideSafeDirs string
  | ManifestFileReferenceError err
  | ReferencedFileMissing string
  | UploadServerTimeout
  | FailedWaitingForUpload string
  | UploadFilesFailed string
  | BuildTimeout
  | BuildFailed string
  | CreateOutputDirError string
  | ArtifactTimeout
  | HTTPError nat string
  | OSError string
  | CopyError string
  | CreateExtractDirError string
  | ExtractTarError string
  | GetBuildFailed string
  | BuildNotCompleted string
  | DownloadFailed err

subsection \<open>findLocalFileReferences\<close>

text \<open>The allow-list of \<open>isPathSafe\<close>: the source sets it to the empty slice.\<close>

definition safeDirectories :: "string list" where
  "safeDirectories = []"

definition isPathSafe :: "string \<Rightarrow> err option" where
  "isPathSafe path =
     (if path = '''' \<or> path = ''/'' then Some EmptyOrRootPath
      else if Contains path ''..'' then Some (DirectoryTraversal path)
      else if IsAbs path then
        (if list_ex (\<lambda>dir. HasPrefix path (dir @ ''/'')) safeDirectories then None
         else Some (AbsoluteOutsideSafeDirs path))
      else None)"

text \<open>
  A local file reference is a \<open>map[string]string\<close> with the keys \<open>path\<close> and
  \<open>source_path\<close>; indexing it with a missing key yields the empty string.
\<close>

type_synonym local_ref = "(string \<times> string) list"

definition ref :: "local_ref \<Rightarrow> string \<Rightarrow> string" where
  "ref r k = (case map_of r k of None \<Rightarrow> '''' | Some v \<Rightarrow> v)"

text \<open>
  \<open>processAddFiles\<close> appends to the captured slice \<open>localFiles\<close>, which is the first
  argument here, and stops at the first unsafe path.
\<close>

fun processAddFiles :: "local_ref list \<Rightarrow> yaml list \<Rightarrow> err + local_ref list" where
  "processAddFiles localFiles [] = Inr localFiles"
| "processAddFiles localFiles (file # addFiles) =
     (case asMap file of
        None \<Rightarrow> processAddFiles localFiles addFiles
      | Some fileMap \<Rightarrow>
          (case asString (idx fileMap ''path'') of
             None \<Rightarrow> processAddFiles localFiles addFiles
           | Some path \<Rightarrow>
               (case asString (idx fileMap ''source_path'') of
                  None \<Rightarrow> processAddFiles localFiles addFiles
                | Some sourcePath \<Rightarrow>
                    (case isPathSafe sourcePath of
                       Some e \<Rightarrow> Inl e
                     | None \<Rightarrow>
                         processAddFiles
                           (localFiles @ [[(''path'', path), (''source_path'', sourcePath)]])
                           addFiles))))"

text \<open>The two places of a manifest that hold add-file entries.\<close>

definition contentAddFiles :: "(string \<times> yaml) list \<Rightarrow> yaml list option" where
  "contentAddFiles manifestData =
     (case asMap (idx manifestData ''content'') of
        None \<Rightarrow> None
      | Some content \<Rightarrow> asSeq (idx content ''add_files''))"

definition qmAddFiles :: "(string \<times> yaml) list \<Rightarrow> yaml list option" where
  "qmAddFiles manifestData =
     (case asMap (idx manifestData ''qm'') of
        None \<Rightarrow> None
      | Some qm \<Rightarrow>
          (case asMap (idx qm ''content'') of
             None \<Rightarrow> None
           | Some qmContent \<Rightarrow> asSeq (idx qmContent ''add_files'')))"

text \<open>
  \<open>yaml.Unmarshal\<close> into a \<open>map[string]any\<close> is a parameter: it fails with a message or
  yields the top-level mapping (empty for an empty document).
\<close>

type_synonym unmarshal = "string \<Rightarrow> string + (string \<times> yaml) list"

definition findLocalFileReferences :: "unmarshal \<Rightarrow> string \<Rightarrow> err + local_ref list" where
  "findLocalFileReferences unm manifestContent =
     (case unm manifestContent of
        Inl e \<Rightarrow> Inl (YAMLParseError e)
      | Inr manifestData \<Rightarrow>
          (case (case contentAddFiles manifestData of
                   None \<Rightarrow> Inr []
                 | Some addFiles \<Rightarrow> processAddFiles [] addFiles) of
             Inl e \<Rightarrow> Inl e
           | Inr localFiles \<Rightarrow>
               (case qmAddFiles manifestData of
                  None \<Rightarrow> Inr localFiles
                | Some addFiles \<Rightarrow> processAddFiles localFiles addFiles)))"

subsection \<open>The path/filepath package, as far as the client uses it\<close>

fun splitSlash :: "string \<Rightarrow> string \<Rightarrow> string list" where
  "splitSlash cur [] = [cur]"
| "splitSlash cur (c # s) =
     (if c = CHR ''/'' then cur # splitSlash [] s else splitSlash (cur @ [c]) s)"

fun joinSlash :: "string list \<Rightarrow> string" where
  "joinSlash [] = []"
| "joinSlash [x] = x"
| "joinSlash (x # y # ys) = x @ ''/'' @ joinSlash (y # ys)"

definition cleanStep :: "bool \<Rightarrow> string list \<Rightarrow> string \<Rightarrow> string list" where
  "cleanStep rooted out seg =
     (if seg = '''' \<or> seg = ''.'' then out
      else if seg = ''..'' then
        (if out \<noteq> [] \<and> last out \<noteq> ''..'' then butlast out
         else if rooted then out
         else out @ [''..''])
      else out @ [seg])"

definition Clean :: "string \<Rightarrow> string" where
  "Clean path =
     (if path = [] then ''.''
      else
        (let rooted = HasPrefix path ''/'';
             body = joinSlash (foldl (cleanStep rooted) [] (splitSlash [] path))
         in if rooted then ''/'' @ body else if body = [] then ''.'' else body))"

definition Join :: "string \<Rightarrow> string \<Rightarrow> string" where
  "Join a b =
     (if a = [] \<and> b = [] then []
      else if a = [] then Clean b
      else if b = [] then Clean a
      else Clean (a @ ''/'' @ b))"

definition Base :: "string \<Rightarrow> string" where
  "Base path =
     (if path = [] then ''.''
      else
        (let p = rev (dropWhile (\<lambda>c. c = CHR ''/'') (rev path))
         in if p = [] then ''/'' else rev (takeWhile (\<lambda>c. c \<noteq> CHR ''/'') (rev p))))"

fun fieldsFrom :: "string \<Rightarrow> string \<Rightarrow> string list" where
  "fieldsFrom cur [] = (if cur = [] then [] else [cur])"
| "fieldsFrom cur (c # s) =
     (if isSpace c then (if cur = [] then fieldsFrom [] s else cur # fieldsFrom [] s)
      else fieldsFrom (cur @ [c]) s)"

text \<open>\<open>strings.Fields\<close> splits a string that is all ASCII at ASCII white space.\<close>

definition Fields :: "unicode_tables \<Rightarrow> string \<Rightarrow> string list" where
  "Fields u s = (if list_ex nonASCII s then FieldsFuncIsSpace u s else fieldsFrom [] s)"

subsection \<open>The local file store\<close>

text \<open>
  The store maps a cleaned path, relative to the working directory or absolute, to what
  is there; the working directory and the root are directories of every store. There are
  no symbolic links, every node may be read and written, and the disk is never full. The
  operations of package \<open>os\<close> clean the path they are given, and they fail where the
  kind of a node forbids them: a file cannot be made in or moved into a directory that
  does not exist, a directory cannot be opened for writing, nothing can be renamed onto a
  directory, no directory can be made below a file, and a directory that is not empty
  cannot be removed.
\<close>

datatype node = File string | Dir

type_synonym fs = "string \<Rightarrow> node option"

text \<open>\<open>filepath.Dir\<close>: the path up to its last separator, cleaned.\<close>

definition filepathDir :: "string \<Rightarrow> string" where
  "filepathDir path = Clean (rev (dropWhile (\<lambda>c. c \<noteq> CHR ''/'') (rev path)))"

definition nodeAt :: "fs \<Rightarrow> string \<Rightarrow> node option" where
  "nodeAt fs p = (let q = Clean p in if q = ''.'' \<or> q = ''/'' then Some Dir else fs q)"

definition isFile :: "node option \<Rightarrow> bool" where
  "isFile n = (case n of Some (File c) \<Rightarrow> True | _ \<Rightarrow> False)"

text \<open>The path itself and the directories above it, from the top down.\<close>

fun ancestorsFrom :: "string list \<Rightarrow> string list \<Rightarrow> string list" where
  "ancestorsFrom up [] = []"
| "ancestorsFrom up (seg # segs) =
     joinSlash (up @ [seg]) # ancestorsFrom (up @ [seg]) segs"

definition ancestors :: "string \<Rightarrow> string list" where
  "ancestors p = filter (\<lambda>a. a \<noteq> []) (ancestorsFrom [] (splitSlash [] (Clean p)))"

definition ReadFile :: "fs \<Rightarrow> string \<Rightarrow> string + string" where
  "ReadFile fs p =
     (case nodeAt fs p of
        None \<Rightarrow> Inl ''no such file or directory''
      | Some Dir \<Rightarrow> Inl ''is a directory''
      | Some (File c) \<Rightarrow> Inr c)"

definition Stat :: "fs \<Rightarrow> string \<Rightarrow> string option" where
  "Stat fs p =
     (case nodeAt fs p of None \<Rightarrow> Some ''no such file or directory'' | Some _ \<Rightarrow> None)"

text \<open>
  \<open>os.MkdirAll\<close> makes the directory and every directory above it that is missing, and
  makes nothing when one of them is a file.
\<close>

definition MkdirAll :: "string \<Rightarrow> fs \<Rightarrow> string option \<times> fs" where
  "MkdirAll p fs =
     (if list_ex (\<lambda>a. isFile (nodeAt fs a)) (ancestors p) then (Some ''not a directory'', fs)
      else (None, foldl (\<lambda>f a. f(a \<mapsto> Dir)) fs (ancestors p)))"

definition Create :: "string \<Rightarrow> fs \<Rightarrow> string option \<times> fs" where
  "Create p fs =
     (case nodeAt fs p of
        Some Dir \<Rightarrow> (Some ''is a directory'', fs)
      | _ \<Rightarrow>
          (case nodeAt fs (filepathDir (Clean p)) of
             None \<Rightarrow> (Some ''no such file or directory'', fs)
           | Some (File c) \<Rightarrow> (Some ''not a directory'', fs)
           | Some Dir \<Rightarrow> (None, fs(Clean p \<mapsto> File ''''))))"

text \<open>What \<open>io.Copy\<close> leaves in the file opened at \<open>p\<close>.\<close>

definition copyTo :: "string \<Rightarrow> string \<Rightarrow> fs \<Rightarrow> fs" where
  "copyTo p bytes fs = fs(Clean p \<mapsto> File bytes)"

text \<open>
  \<open>os.Remove\<close> removes a file or an empty directory; the client ignores its error, so
  only the store is returned.
\<close>

definition hasEntries :: "fs \<Rightarrow> string \<Rightarrow> bool" where
  "hasEntries fs dir = (\<exists>p. prefix (dir @ ''/'') p \<and> fs p \<noteq> None)"

definition Remove :: "string \<Rightarrow> fs \<Rightarrow> fs" where
  "Remove p fs =
     (case nodeAt fs p of
        None \<Rightarrow> fs
      | Some (File c) \<Rightarrow> fs(Clean p := None)
      | Some Dir \<Rightarrow>
          if Clean p = ''.'' \<or> Clean p = ''/'' \<or> hasEntries fs (Clean p) then fs
          else fs(Clean p := None))"

text \<open>
  \<open>os.Rename\<close> first refuses a new path that is a directory. Otherwise the node at the
  old path, with all that is below it, moves to the new path and replaces a file there.
\<close>

definition moveTree :: "string \<Rightarrow> string \<Rightarrow> fs \<Rightarrow> fs" where
  "moveTree old new fs =
     (\<lambda>p. if p = new then fs old
          else if prefix (new @ ''/'') p then fs (old @ drop (length new) p)
          else if p = old \<or> prefix (old @ ''/'') p then None
          else fs p)"

definition Rename :: "string \<Rightarrow> string \<Rightarrow> fs \<Rightarrow> string option \<times> fs" where
  "Rename old new fs =
     (case nodeAt fs new of
        Some Dir \<Rightarrow> (Some ''file exists'', fs)
      | newNode \<Rightarrow>
          (case nodeAt fs old of
             None \<Rightarrow> (Some ''no such file or directory'', fs)
           | Some oldNode \<Rightarrow>
               if Clean old = Clean new then (None, fs)
               else if oldNode = Dir \<and> newNode \<noteq> None then (Some ''not a directory'', fs)
               else if oldNode = Dir \<and> prefix (Clean old @ ''/'') (Clean new) then
                 (Some ''invalid argument'', fs)
               else
                 (case nodeAt fs (filepathDir (Clean new)) of
                    None \<Rightarrow> (Some ''no such file or directory'', fs)
                  | Some (File c) \<Rightarrow> (Some ''not a directory'', fs)
                  | Some Dir \<Rightarrow> (None, moveTree (Clean old) (Clean new) fs))))"

subsection \<open>Flags, requests and the world\<close>

text \<open>The package-level flag variables of the client.\<close>

record config =
  serverURL :: string
  manifest :: string
  buildName :: string
  distro :: string
  target :: string
  architecture :: string
  exportFormat :: string
  mode :: string
  automotiveImageBuilder :: string
  storageClass :: string
  outputDir :: string
  timeout :: int
  waitForBuild :: bool
  download :: bool
  customDefs :: "string list"
  followLogs :: bool
  aibExtraArgs :: string
  aibOverrideArgs :: string
  compressArtifacts :: bool
  compressionAlgo :: string

record BuildRequest =
  Name :: string
  Manifest :: string
  ManifestFileName :: string
  Distro :: string
  Target :: string
  Architecture :: string
  ExportFormat :: string
  Mode :: string
  AutomotiveImageBuilder :: string
  StorageClass :: string
  CustomDefs :: "string list"
  AIBExtraArgs :: "string list"
  AIBOverrideArgs :: "string list"
  ServeArtifact :: bool
  Compression :: string

text \<open>What \<open>CreateBuild\<close> and \<open>GetBuild\<close> answer.\<close>

record BuildResponse =
  RespName :: string
  Phase :: string
  Message :: string

record Upload =
  SourcePath :: string
  DestPath :: string

record http_response =
  StatusCode :: nat
  Header :: "(string \<times> string) list"
  Body :: string
  BodyError :: "string option"

definition Get :: "(string \<times> string) list \<Rightarrow> string \<Rightarrow> string" where
  "Get h k = (case map_of h k of None \<Rightarrow> '''' | Some v \<Rightarrow> v)"

text \<open>The answer of the log endpoint: no response at all, or a response with its status.\<close>

datatype log_reply = LogError | LogStatus nat

text \<open>
  The world. Each remote call answers with the seconds it took and its result, as a
  function of the time of the call; a call cut short by its own request timeout answers
  with an error. The parsers of package \<open>buildapi\<close>, the client constructor, the YAML
  parser, the tables of package \<open>unicode\<close> and \<open>extractTar\<close> are parameters too. \<open>selectPicks\<close> resolves the \<open>select\<close>
  of the wait loop whenever both of its channels are ready (\<open>True\<close> takes the timeout);
  once the list is used up the timeout is taken.
\<close>

record world =
  unicode :: unicode_tables
  yamlUnmarshal :: unmarshal
  newClient :: "string \<Rightarrow> string option"
  ParseDistro :: "string \<Rightarrow> string + string"
  ParseTarget :: "string \<Rightarrow> string + string"
  ParseArchitecture :: "string \<Rightarrow> string + string"
  ParseExportFormat :: "string \<Rightarrow> string + string"
  ParseMode :: "string \<Rightarrow> string + string"
  CreateBuild :: "BuildRequest \<Rightarrow> nat \<Rightarrow> nat \<times> (string + BuildResponse)"
  GetBuild :: "string \<Rightarrow> nat \<Rightarrow> nat \<times> (string + BuildResponse)"
  UploadFiles :: "string \<Rightarrow> Upload list \<Rightarrow> nat \<Rightarrow> nat \<times> string option"
  GetLogs :: "string \<Rightarrow> nat \<Rightarrow> nat \<times> log_reply"
  GetArtifact :: "string \<Rightarrow> nat \<Rightarrow> nat \<times> http_response option"
  selectPicks :: "bool list"
  extractTar :: "string \<Rightarrow> string \<Rightarrow> fs \<Rightarrow> string option \<times> fs"

datatype event =
    EvCreateBuild BuildRequest
  | EvGetBuild string "string + BuildResponse"
  | EvUploadFiles string "Upload list" "string option"
  | EvGetLogs string log_reply
  | EvGetArtifact string "http_response option"

datatype exit = Exit0 | Exit1 err

text \<open>Put an event in front of the events of what follows.\<close>

definition emit :: "event \<Rightarrow> 'a \<times> nat \<times> event list \<Rightarrow> 'a \<times> nat \<times> event list" where
  "emit ev r = (fst r, fst (snd r), ev # snd (snd r))"

subsection \<open>Waiting for the upload server and uploading (runBuild, lines 205 to 260)\<close>

text \<open>
  The readiness loop. \<open>readyCtx\<close> expires at \<open>deadline\<close>; each round polls the build once
  and sleeps three seconds unless it leaves the loop. The result is the error handed to
  \<open>handleError\<close>, if any, with the time and the events.
\<close>

function readyLoop :: "world \<Rightarrow> string \<Rightarrow> nat \<Rightarrow> nat \<Rightarrow> err option \<times> nat \<times> event list" where
  "readyLoop w name deadline now =
     (if deadline \<le> now then (Some UploadServerTimeout, now, [])
      else
        (case GetBuild w name now of
           (d, Inl e) \<Rightarrow>
             emit (EvGetBuild name (Inl e)) (readyLoop w name deadline (now + d + 3))
         | (d, Inr st) \<Rightarrow>
             if Phase st = ''Uploading'' then (None, now + d, [EvGetBuild name (Inr st)])
             else if Phase st = ''Failed'' then
               (Some (FailedWaitingForUpload (Message st)), now + d, [EvGetBuild name (Inr st)])
             else emit (EvGetBuild name (Inr st)) (readyLoop w name deadline (now + d + 3))))"
  by pat_completeness auto
termination
  by (relation "measure (\<lambda>(w, name, deadline, now). deadline - now)") auto

text \<open>The test on the text of an upload error that makes the client try again.\<close>

definition uploadNotReady :: "world \<Rightarrow> string \<Rightarrow> bool" where
  "uploadNotReady w e =
     (let lower = ToLower (unicode w) e
      in Contains lower ''503'' \<or> Contains lower ''service unavailable''
         \<or> Contains lower ''upload pod not ready'')"

text \<open>
  The upload loop. The deadline is looked at only after a failed call, and before the
  text of the error is.
\<close>

function uploadLoop ::
  "world \<Rightarrow> string \<Rightarrow> Upload list \<Rightarrow> nat \<Rightarrow> nat \<Rightarrow> err option \<times> nat \<times> event list" where
  "uploadLoop w name uploads uploadDeadline now =
     (case UploadFiles w name uploads now of
        (d, None) \<Rightarrow> (None, now + d, [EvUploadFiles name uploads None])
      | (d, Some e) \<Rightarrow>
          if uploadDeadline < now + d then
            (Some (UploadFilesFailed e), now + d, [EvUploadFiles name uploads (Some e)])
          else if uploadNotReady w e then
            emit (EvUploadFiles name uploads (Some e))
              (uploadLoop w name uploads uploadDeadline (now + d + 5))
          else (Some (UploadFilesFailed e), now + d, [EvUploadFiles name uploads (Some e)]))"
  by pat_completeness auto
termination
  by (relation "measure (\<lambda>(w, name, uploads, uploadDeadline, now). uploadDeadline + 1 - now)")
    auto

definition makeUploads :: "local_ref list \<Rightarrow> Upload list" where
  "makeUploads localRefs =
     map (\<lambda>r. \<lparr>SourcePath = ref r ''source_path'', DestPath = ref r ''source_path''\<rparr>) localRefs"

definition uploadLocalFiles ::
  "world \<Rightarrow> string \<Rightarrow> string \<Rightarrow> nat \<Rightarrow> fs \<Rightarrow> err option \<times> nat \<times> event list" where
  "uploadLocalFiles w name manifestBytes now fs =
     (case findLocalFileReferences (yamlUnmarshal w) manifestBytes of
        Inl e \<Rightarrow> (Some (ManifestFileReferenceError e), now, [])
      | Inr localRefs \<Rightarrow>
          if length localRefs > 0 then
            (case find (\<lambda>r. Stat fs (ref r ''source_path'') \<noteq> None) localRefs of
               Some r \<Rightarrow> (Some (ReferencedFileMissing (ref r ''source_path'')), now, [])
             | None \<Rightarrow>
                 (case readyLoop w name (now + 600) now of
                    (Some e, t, evs) \<Rightarrow> (Some e, t, evs)
                  | (None, t, evs) \<Rightarrow>
                      (case uploadLoop w name (makeUploads localRefs) (t + 600) t of
                         (r, t', evs') \<Rightarrow> (r, t', evs @ evs'))))
          else (None, now, []))"

subsection \<open>downloadArtifactViaAPI\<close>

definition artifactFileName :: "string \<Rightarrow> http_response \<Rightarrow> string" where
  "artifactFileName name resp =
     (let cd = Get (Header resp) ''Content-Disposition''
      in if cd \<noteq> '''' then
           (case cutAfter cd ''filename='' of
              None \<Rightarrow> name @ ''.artifact''
            | Some rest \<Rightarrow>
                (let f = Trim rest [CHR 0x22, CHR '' ''] in if f \<noteq> '''' then f else name @ ''.artifact''))
         else name @ ''.artifact'')"

definition isArchive :: "world \<Rightarrow> string \<Rightarrow> string \<Rightarrow> bool" where
  "isArchive w contentType outPath =
     (HasPrefix contentType ''application/x-tar'' \<or> HasPrefix contentType ''application/gzip''
      \<or> HasSuffix (ToLower (unicode w) outPath) ''.tar''
      \<or> HasSuffix (ToLower (unicode w) outPath) ''.tar.gz'')"

text \<open>
  The branch for status 200. The two branches on \<open>Content-Length\<close> differ in the progress
  bar only, so there is one copy here: the bytes of the body that arrive are written to
  the temporary file, and a body that breaks off makes the copy fail.
\<close>

definition saveArtifact ::
  "world \<Rightarrow> config \<Rightarrow> string \<Rightarrow> string \<Rightarrow> http_response \<Rightarrow> fs \<Rightarrow> err option \<times> fs" where
  "saveArtifact w cfg name outDir resp fs =
     (let filename = artifactFileName name resp;
          contentType = Get (Header resp) ''Content-Type'';
          outPath = Join outDir filename;
          tmp = outPath @ ''.partial''
      in case Create tmp fs of
           (Some e, fs1) \<Rightarrow> (Some (OSError e), fs1)
         | (None, fs1) \<Rightarrow>
             (let fs2 = copyTo tmp (Body resp) fs1
              in case BodyError resp of
                   Some copyErr \<Rightarrow> (Some (CopyError copyErr), Remove tmp fs2)
                 | None \<Rightarrow>
                     (case Rename tmp outPath fs2 of
                        (Some e, fs3) \<Rightarrow> (Some (OSError e), fs3)
                      | (None, fs3) \<Rightarrow>
                          if isArchive w contentType outPath \<and> \<not> compressArtifacts cfg then
                            (let destDir = TrimSuffix (TrimSuffix outPath ''.tar'') ''.gz''
                             in case MkdirAll destDir fs3 of
                                  (Some e, fs4) \<Rightarrow> (Some (CreateExtractDirError e), fs4)
                                | (None, fs4) \<Rightarrow>
                                    (case extractTar w outPath destDir fs4 of
                                       (Some e, fs5) \<Rightarrow> (Some (ExtractTarError e), fs5)
                                     | (None, fs5) \<Rightarrow> (None, fs5)))
                          else (None, fs3))))"

definition artifactNotReady :: "world \<Rightarrow> http_response \<Rightarrow> bool" where
  "artifactNotReady w resp =
     (let msg = ToLower (unicode w) (TrimSpace (unicode w) (Body resp))
      in StatusCode resp = 503 \<or> StatusCode resp = 409 \<or> Contains msg ''not ready'')"

definition emit4 ::
  "event \<Rightarrow> 'a \<times> nat \<times> event list \<times> fs \<Rightarrow> 'a \<times> nat \<times> event list \<times> fs" where
  "emit4 ev r = (fst r, fst (snd r), ev # fst (snd (snd r)), snd (snd (snd r)))"

text \<open>
  The fetch loop. \<open>ctxDone\<close> tells when the context passed in is over; both callers pass
  the background context, which never is.
\<close>

function downloadLoop ::
  "world \<Rightarrow> config \<Rightarrow> (nat \<Rightarrow> bool) \<Rightarrow> string \<Rightarrow> string \<Rightarrow> nat \<Rightarrow> nat \<Rightarrow> fs
     \<Rightarrow> err option \<times> nat \<times> event list \<times> fs" where
  "downloadLoop w cfg ctxDone name outDir deadline now fs =
     (if ctxDone now \<or> deadline < now then (Some ArtifactTimeout, now, [], fs)
      else
        (case GetArtifact w name now of
           (d, None) \<Rightarrow>
             emit4 (EvGetArtifact name None)
               (downloadLoop w cfg ctxDone name outDir deadline (now + d + 3) fs)
         | (d, Some resp) \<Rightarrow>
             if StatusCode resp = 200 then
               (case saveArtifact w cfg name outDir resp fs of
                  (r, fs') \<Rightarrow> (r, now + d, [EvGetArtifact name (Some resp)], fs'))
             else if artifactNotReady w resp then
               emit4 (EvGetArtifact name (Some resp))
                 (downloadLoop w cfg ctxDone name outDir deadline (now + d + 3) fs)
             else
               (Some (HTTPError (StatusCode resp) (TrimSpace (unicode w) (Body resp))), now + d,
                [EvGetArtifact name (Some resp)], fs)))"
  by pat_completeness auto
termination
  by (relation "measure (\<lambda>(w, cfg, ctxDone, name, outDir, deadline, now, fs). deadline + 1 - now)")
    auto

definition background :: "nat \<Rightarrow> bool" where
  "background t = False"

definition downloadArtifactViaAPI ::
  "world \<Rightarrow> config \<Rightarrow> (nat \<Rightarrow> bool) \<Rightarrow> string \<Rightarrow> string \<Rightarrow> nat \<Rightarrow> fs
     \<Rightarrow> err option \<times> nat \<times> event list \<times> fs" where
  "downloadArtifactViaAPI w cfg ctxDone name outDir0 now fs =
     (let outDir = (if TrimSpace (unicode w) outDir0 = '''' then ''./output'' else outDir0)
      in case MkdirAll outDir fs of
           (Some e, fs1) \<Rightarrow> (Some (CreateOutputDirError e), now, [], fs1)
         | (None, fs1) \<Rightarrow> downloadLoop w cfg ctxDone name outDir (now + 1800) now fs1)"

subsection \<open>Waiting for the build (runBuild, lines 262 to 345)\<close>

text \<open>
  One attempt to follow the logs, made on a tick while \<open>followLogs\<close> is set. It yields the
  new value of \<open>followLogs\<close>; the time a stream takes to end is part of the answer's time.
\<close>

definition followStep ::
  "world \<Rightarrow> string \<Rightarrow> bool \<Rightarrow> bool \<Rightarrow> nat \<Rightarrow> bool \<times> nat \<times> event list" where
  "followStep w name userFollowRequested follow now =
     (if follow then
        (case GetLogs w name now of
           (d, LogError) \<Rightarrow> (follow, now + d, [EvGetLogs name LogError])
         | (d, LogStatus code) \<Rightarrow>
             if code = 200 then (userFollowRequested, now + d, [EvGetLogs name (LogStatus code)])
             else if code = 503 \<or> code = 504 then
               (follow, now + d, [EvGetLogs name (LogStatus code)])
             else (False, now + d, [EvGetLogs name (LogStatus code)]))
      else (follow, now, []))"

text \<open>
  The ticker fires every five seconds and keeps at most one tick for a slow receiver:
  after a tick is taken at time \<open>now\<close>, the next one is the first firing after \<open>now\<close>.
\<close>

definition nextFire :: "nat \<Rightarrow> nat \<Rightarrow> nat" where
  "nextFire nextTick now = nextTick + 5 * ((now - nextTick) div 5 + 1)"

definition usePick :: "nat \<Rightarrow> nat \<Rightarrow> bool list \<Rightarrow> bool list" where
  "usePick deadline now picks = (if deadline \<le> now then tl picks else picks)"

definition pre :: "event list \<Rightarrow> exit \<times> event list \<times> fs \<Rightarrow> exit \<times> event list \<times> fs" where
  "pre evs r = (fst r, evs @ fst (snd r), snd (snd r))"

text \<open>
  The wait loop. \<open>timeoutCtx\<close> is over from \<open>deadline\<close> on and a tick is ready from
  \<open>nextTick\<close> on. While neither is ready the \<open>select\<close> blocks until the earlier of the
  two; when only one is ready it is taken; when both are, the next element of \<open>picks\<close>
  decides. The outcome of the download is printed and does not reach the exit status.
\<close>

function waitLoop ::
  "world \<Rightarrow> config \<Rightarrow> string \<Rightarrow> bool \<Rightarrow> nat \<Rightarrow> bool list \<Rightarrow> nat \<Rightarrow> bool \<Rightarrow> nat \<Rightarrow> fs
     \<Rightarrow> exit \<times> event list \<times> fs" where
  "waitLoop w cfg name userFollowRequested deadline picks nextTick follow now fs =
     (if now < deadline \<and> now < nextTick then
        waitLoop w cfg name userFollowRequested deadline picks nextTick follow
          (min deadline nextTick) fs
      else if deadline \<le> now \<and> (now < nextTick \<or> picks = [] \<or> hd picks) then
        (Exit1 BuildTimeout, [], fs)
      else
        (case followStep w name userFollowRequested follow now of
           (follow', t1, evs1) \<Rightarrow>
             (case GetBuild w name t1 of
                (d, Inl e) \<Rightarrow>
                  pre (evs1 @ [EvGetBuild name (Inl e)])
                    (waitLoop w cfg name userFollowRequested deadline (usePick deadline now picks)
                       (nextFire nextTick now) follow' (t1 + d) fs)
              | (d, Inr st) \<Rightarrow>
                  if Phase st = ''Completed'' then
                    (if download cfg then
                       (case downloadArtifactViaAPI w cfg background name (outputDir cfg)
                               (t1 + d) fs of
                          (r, t2, evs2, fs') \<Rightarrow>
                            (Exit0, evs1 @ EvGetBuild name (Inr st) # evs2, fs'))
                     else (Exit0, evs1 @ [EvGetBuild name (Inr st)], fs))
                  else if Phase st = ''Failed'' then
                    (Exit1 (BuildFailed (Message st)), evs1 @ [EvGetBuild name (Inr st)], fs)
                  else
                    pre (evs1 @ [EvGetBuild name (Inr st)])
                      (waitLoop w cfg name userFollowRequested deadline
                         (usePick deadline now picks) (nextFire nextTick now) follow'
                         (t1 + d) fs))))"
  by pat_completeness auto
termination
  by (relation "measures
        [\<lambda>(w, cfg, name, u, deadline, picks, nextTick, follow, now, fs). length picks,
         \<lambda>(w, cfg, name, u, deadline, picks, nextTick, follow, now, fs). deadline - nextTick,
         \<lambda>(w, cfg, name, u, deadline, picks, nextTick, follow, now, fs).
            if now < deadline \<and> now < nextTick then 1 else 0]")
    (auto simp: nextFire_def usePick_def)

text \<open>
  The flag \<open>timeout\<close> is a Go \<open>int\<close> of 64 bits, and
  \<open>time.Duration(timeout) * time.Minute\<close> is a product of 64-bit numbers of nanoseconds
  that wraps around. \<open>context.WithTimeout\<close> with a duration that is not positive gives a
  context that is over at once; otherwise the context is over from the first whole second
  that is not before its deadline.
\<close>

definition wrap64 :: "int \<Rightarrow> int" where
  "wrap64 x = (x + 2 ^ 63) mod 2 ^ 64 - 2 ^ 63"

definition timeoutSeconds :: "int \<Rightarrow> nat" where
  "timeoutSeconds minutes =
     (let ns = wrap64 (wrap64 minutes * 60000000000)
      in if ns \<le> 0 then 0 else nat ((ns + 999999999) div 1000000000))"

definition waitForCompletion ::
  "world \<Rightarrow> config \<Rightarrow> string \<Rightarrow> nat \<Rightarrow> fs \<Rightarrow> exit \<times> event list \<times> fs" where
  "waitForCompletion w cfg name now fs =
     (if waitForBuild cfg \<or> followLogs cfg \<or> download cfg then
        waitLoop w cfg name (followLogs cfg) (now + timeoutSeconds (timeout cfg))
          (selectPicks w) (now + 5) (followLogs cfg) now fs
      else (Exit0, [], fs))"

subsection \<open>runBuild and runDownload\<close>

definition validateBuildRequirements :: "world \<Rightarrow> config \<Rightarrow> err option" where
  "validateBuildRequirements w cfg =
     (if manifest cfg = '''' then Some ManifestRequired
      else if buildName cfg = '''' then Some NameRequired
      else if TrimSpace (unicode w) (architecture cfg) = '''' then Some ArchRequired
      else None)"

definition makeRequest ::
  "world \<Rightarrow> config \<Rightarrow> string \<Rightarrow> string \<Rightarrow> string \<Rightarrow> string \<Rightarrow> string \<Rightarrow> string
     \<Rightarrow> BuildRequest" where
  "makeRequest w cfg manifestBytes parsedDistro parsedTarget parsedArch parsedExportFormat
     parsedMode =
     \<lparr>Name = buildName cfg,
      Manifest = manifestBytes,
      ManifestFileName = Base (manifest cfg),
      Distro = parsedDistro,
      Target = parsedTarget,
      Architecture = parsedArch,
      ExportFormat = parsedExportFormat,
      Mode = parsedMode,
      AutomotiveImageBuilder = automotiveImageBuilder cfg,
      StorageClass = storageClass cfg,
      CustomDefs = customDefs cfg,
      AIBExtraArgs =
        (if TrimSpace (unicode w) (aibExtraArgs cfg) \<noteq> ''''
         then Fields (unicode w) (aibExtraArgs cfg) else []),
      AIBOverrideArgs =
        (if TrimSpace (unicode w) (aibOverrideArgs cfg) \<noteq> ''''
         then Fields (unicode w) (aibOverrideArgs cfg) else []),
      ServeArtifact = download cfg,
      Compression = compressionAlgo cfg\<rparr>"

text \<open>
  What follows the acceptance of the build: the upload of the local files and the wait.
\<close>

definition afterCreate ::
  "world \<Rightarrow> config \<Rightarrow> string \<Rightarrow> string \<Rightarrow> nat \<Rightarrow> fs \<Rightarrow> exit \<times> event list \<times> fs" where
  "afterCreate w cfg name manifestBytes now fs =
     (case uploadLocalFiles w name manifestBytes now fs of
        (Some e, t, evs) \<Rightarrow> (Exit1 e, evs, fs)
      | (None, t, evs) \<Rightarrow> pre evs (waitForCompletion w cfg name t fs))"

text \<open>
  The credential (flag, environment or kubeconfig) only adds a header to the requests and
  is left out. An invocation starts at time \<open>now\<close> with the store \<open>fs\<close> and yields its exit
  status, the calls it made and the store it leaves.
\<close>

definition runBuild :: "world \<Rightarrow> config \<Rightarrow> nat \<Rightarrow> fs \<Rightarrow> exit \<times> event list \<times> fs" where
  "runBuild w cfg now fs =
     (case validateBuildRequirements w cfg of
        Some e \<Rightarrow> (Exit1 e, [], fs)
      | None \<Rightarrow>
     if serverURL cfg = '''' then (Exit1 ServerRequired, [], fs)
     else
     (case newClient w (serverURL cfg) of
        Some e \<Rightarrow> (Exit1 (ClientError e), [], fs)
      | None \<Rightarrow>
     (case ReadFile fs (manifest cfg) of
        Inl e \<Rightarrow> (Exit1 (ReadManifestError e), [], fs)
      | Inr manifestBytes \<Rightarrow>
     (case ParseDistro w (distro cfg) of
        Inl e \<Rightarrow> (Exit1 (EnumError e), [], fs)
      | Inr parsedDistro \<Rightarrow>
     (case ParseTarget w (target cfg) of
        Inl e \<Rightarrow> (Exit1 (EnumError e), [], fs)
      | Inr parsedTarget \<Rightarrow>
     (case ParseArchitecture w (architecture cfg) of
        Inl e \<Rightarrow> (Exit1 (EnumError e), [], fs)
      | Inr parsedArch \<Rightarrow>
     (case ParseExportFormat w (exportFormat cfg) of
        Inl e \<Rightarrow> (Exit1 (EnumError e), [], fs)
      | Inr parsedExportFormat \<Rightarrow>
     (case ParseMode w (mode cfg) of
        Inl e \<Rightarrow> (Exit1 (EnumError e), [], fs)
      | Inr parsedMode \<Rightarrow>
     (let req = makeRequest w cfg manifestBytes parsedDistro parsedTarget parsedArch
                  parsedExportFormat parsedMode
      in case CreateBuild w req now of
           (d, Inl e) \<Rightarrow> (Exit1 (CreateBuildError e), [EvCreateBuild req], fs)
         | (d, Inr resp) \<Rightarrow>
             pre [EvCreateBuild req]
               (afterCreate w cfg (RespName resp) manifestBytes (now + d) fs))))))))))"

definition runDownload :: "world \<Rightarrow> config \<Rightarrow> nat \<Rightarrow> fs \<Rightarrow> exit \<times> event list \<times> fs" where
  "runDownload w cfg now fs =
     (if TrimSpace (unicode w) (serverURL cfg) = '''' then (Exit1 ServerRequired, [], fs)
      else
        (case newClient w (serverURL cfg) of
           Some e \<Rightarrow> (Exit1 (ClientError e), [], fs)
         | None \<Rightarrow>
             (case GetBuild w (buildName cfg) now of
                (d, Inl e) \<Rightarrow> (Exit1 (GetBuildFailed e), [EvGetBuild (buildName cfg) (Inl e)], fs)
              | (d, Inr st) \<Rightarrow>
                  if Phase st \<noteq> ''Completed'' then
                    (Exit1 (BuildNotCompleted (Phase st)), [EvGetBuild (buildName cfg) (Inr st)], fs)
                  else
                    (case downloadArtifactViaAPI w cfg background (buildName cfg) (outputDir cfg)
                            (now + d) fs of
                       (Some e, t, evs, fs') \<Rightarrow>
                         (Exit1 (DownloadFailed e), EvGetBuild (buildName cfg) (Inr st) # evs, fs')
                     | (None, t, evs, fs') \<Rightarrow>
                         (Exit0, EvGetBuild (buildName cfg) (Inr st) # evs, fs')))))"

definition exitStatus :: "exit \<times> event list \<times> fs \<Rightarrow> exit" where
  "exitStatus r = fst r"

definition events :: "exit \<times> event list \<times> fs \<Rightarrow> event list" where
  "events r = fst (snd r)"

definition store :: "exit \<times> event list \<times> fs \<Rightarrow> fs" where
  "store r = snd (snd r)"

text \<open>
  Three kinds of events: an upload call, a submission, and a poll that saw the Uploading
  phase.
\<close>

fun isUploadFiles :: "event \<Rightarrow> bool" where
  "isUploadFiles (EvUploadFiles name uploads r) = True"
| "isUploadFiles ev = False"

fun isCreateBuild :: "event \<Rightarrow> bool" where
  "isCreateBuild (EvCreateBuild req) = True"
| "isCreateBuild ev = False"

fun sawUploading :: "event \<Rightarrow> bool" where
  "sawUploading (EvGetBuild name (Inr st)) = (Phase st = ''Uploading'')"
| "sawUploading ev = False"

subsection \<open>Add-file entries and example runs\<close>

text \<open>All add-file entries of a manifest, in the order in which they are processed.\<close>

definition addFileEntries :: "(string \<times> yaml) list \<Rightarrow> yaml list" where
  "addFileEntries manifestData =
     (case contentAddFiles manifestData of None \<Rightarrow> [] | Some addFiles \<Rightarrow> addFiles)
     @ (case qmAddFiles manifestData of None \<Rightarrow> [] | Some addFiles \<Rightarrow> addFiles)"

text \<open>
  Five manifests and what the YAML parser makes of them. The first is the example of the
  operator guide, with a file next to the manifest; the second points outside the
  directory of the manifest, the third names an absolute path and the fourth uses the key
  \<open>source\<close>. The fifth has three entries naming \<open>/srv/../etc/shadow\<close>, an absolute path
  with two dots in it: one under the key \<open>source\<close>, one without \<open>path\<close>, and one with
  a key that is a number, which \<open>yaml.Unmarshal\<close> decodes to a \<open>map[interface{}]interface{}\<close>.
\<close>

definition radioManifest :: string where
  "radioManifest =
     ''content: {add_files: [{path: /etc/containers/systemd/radio.container, source_path: radio.container}]}''"

definition radioTree :: "(string \<times> yaml) list" where
  "radioTree =
     [(''content'', YMap [(''add_files'', YSeq [YMap
        [(''path'', YStr ''/etc/containers/systemd/radio.container''),
         (''source_path'', YStr ''radio.container'')]])])]"

definition escapeManifest :: string where
  "escapeManifest =
     ''content: {add_files: [{path: /etc/shadow.copy, source_path: ../../etc/shadow}]}''"

definition escapeTree :: "(string \<times> yaml) list" where
  "escapeTree =
     [(''content'', YMap [(''add_files'', YSeq [YMap
        [(''path'', YStr ''/etc/shadow.copy''),
         (''source_path'', YStr ''../../etc/shadow'')]])])]"

definition homeManifest :: string where
  "homeManifest =
     ''qm: {content: {add_files: [{path: /etc/motd, source_path: /home/user/motd}]}}''"

definition homeTree :: "(string \<times> yaml) list" where
  "homeTree =
     [(''qm'', YMap [(''content'', YMap [(''add_files'', YSeq [YMap
        [(''path'', YStr ''/etc/motd''), (''source_path'', YStr ''/home/user/motd'')]])])])]"

definition sourceKeyEntry :: yaml where
  "sourceKeyEntry =
     YMap [(''path'', YStr ''/etc/passwd.copy''), (''source'', YStr ''../../etc/passwd'')]"

definition sourceKeyManifest :: string where
  "sourceKeyManifest =
     ''content: {add_files: [{path: /etc/passwd.copy, source: ../../etc/passwd}]}''"

definition sourceKeyTree :: "(string \<times> yaml) list" where
  "sourceKeyTree = [(''content'', YMap [(''add_files'', YSeq [sourceKeyEntry])])]"

definition skippedManifest :: string where
  "skippedManifest =
     ''content: {add_files: [{path: /etc/shadow.copy, source: /srv/../etc/shadow}, {source_path: /srv/../etc/shadow}, {path: /etc/shadow.copy, source_path: /srv/../etc/shadow, 7: note}]}''"

definition skippedTree :: "(string \<times> yaml) list" where
  "skippedTree =
     [(''content'', YMap [(''add_files'', YSeq
        [YMap [(''path'', YStr ''/etc/shadow.copy''), (''source'', YStr ''/srv/../etc/shadow'')],
         YMap [(''source_path'', YStr ''/srv/../etc/shadow'')],
         YOther])])]"

definition exampleUnmarshal :: unmarshal where
  "exampleUnmarshal s =
     (if s = radioManifest then Inr radioTree
      else if s = escapeManifest then Inr escapeTree
      else if s = homeManifest then Inr homeTree
      else if s = sourceKeyManifest then Inr sourceKeyTree
      else if s = skippedManifest then Inr skippedTree
      else Inl ''cannot unmarshal'')"

text \<open>
  Tables of package \<open>unicode\<close> for text whose runes beyond ASCII are neither white space
  nor upper case: there the table-driven functions do what the fast paths do. The example
  runs meet ASCII text only.
\<close>

definition plainTables :: unicode_tables where
  "plainTables =
     \<lparr>MapToLower = map lowerChar,
      TrimFuncIsSpace = (\<lambda>s. rev (dropWhile isSpace (rev (dropWhile isSpace s)))),
      TrimRightFuncIsSpace = (\<lambda>s. rev (dropWhile isSpace (rev s))),
      FieldsFuncIsSpace = fieldsFrom []\<rparr>"

text \<open>
  A build that is accepted, reaches Uploading after six seconds, Building after 25 and
  Completed after 40. The upload server answers 503 until second 20, and the artifact
  endpoint answers 500.
\<close>

definition examplePhase :: "nat \<Rightarrow> string" where
  "examplePhase t =
     (if t < 6 then ''Accepted'' else if t < 25 then ''Uploading''
      else if t < 40 then ''Building'' else ''Completed'')"

definition exampleWorld :: world where
  "exampleWorld =
     \<lparr>unicode = plainTables,
      yamlUnmarshal = exampleUnmarshal,
      newClient = (\<lambda>url. None),
      ParseDistro = Inr, ParseTarget = Inr, ParseArchitecture = Inr,
      ParseExportFormat = Inr, ParseMode = Inr,
      CreateBuild = (\<lambda>req t. (0, Inr \<lparr>RespName = Name req, Phase = ''Accepted'', Message = ''''\<rparr>)),
      GetBuild = (\<lambda>name t. (0, Inr \<lparr>RespName = name, Phase = examplePhase t, Message = ''''\<rparr>)),
      UploadFiles = (\<lambda>name uploads t. (0, if t < 20 then Some ''503 Service Unavailable'' else None)),
      GetLogs = (\<lambda>name t. (0, LogStatus 503)),
      GetArtifact = (\<lambda>name t.
        (0, Some \<lparr>StatusCode = 500, Header = [], Body = ''boom'', BodyError = None\<rparr>)),
      selectPicks = [],
      extractTar = (\<lambda>tarPath destDir fs. (None, fs))\<rparr>"

definition exampleConfig :: config where
  "exampleConfig =
     \<lparr>serverURL = ''https://api.example'', manifest = ''simple.aib.yml'',
      buildName = ''my-build'', distro = ''autosd'', target = ''qemu'',
      architecture = ''arm64'', exportFormat = ''image'', mode = ''image'',
      automotiveImageBuilder = ''aib:1.0.0'', storageClass = '''', outputDir = ''./output'',
      timeout = 60, waitForBuild = False, download = True, customDefs = [],
      followLogs = False, aibExtraArgs = '''', aibOverrideArgs = '''',
      compressArtifacts = True, compressionAlgo = ''gzip''\<rparr>"

definition exampleRequest :: "string \<Rightarrow> BuildRequest" where
  "exampleRequest text =
     \<lparr>Name = ''my-build'', Manifest = text, ManifestFileName = ''simple.aib.yml'',
      Distro = ''autosd'', Target = ''qemu'', Architecture = ''arm64'',
      ExportFormat = ''image'', Mode = ''image'', AutomotiveImageBuilder = ''aib:1.0.0'',
      StorageClass = '''', CustomDefs = [], AIBExtraArgs = [], AIBOverrideArgs = [],
      ServeArtifact = True, Compression = ''gzip''\<rparr>"

definition exampleStore :: fs where
  "exampleStore =
     [''simple.aib.yml'' \<mapsto> File radioManifest, ''radio.container'' \<mapsto> File ''[Container]'']"

definition escapeStore :: fs where
  "escapeStore = [''simple.aib.yml'' \<mapsto> File escapeManifest]"

definition examplePoll :: "nat \<Rightarrow> event" where
  "examplePoll t =
     EvGetBuild ''my-build'' (Inr \<lparr>RespName = ''my-build'', Phase = examplePhase t, Message = ''''\<rparr>)"

definition exampleUploads :: "Upload list" where
  "exampleUploads = [\<lparr>SourcePath = ''radio.container'', DestPath = ''radio.container''\<rparr>]"

text \<open>A build that fails before the upload server is up.\<close>

definition failedWorld :: world where
  "failedWorld =
     exampleWorld\<lparr>GetBuild := (\<lambda>name t.
       (0, Inr \<lparr>RespName = name, Phase = ''Failed'', Message = ''no capacity''\<rparr>))\<rparr>"

text \<open>An upload server that is never ready, and one that refuses the upload.\<close>

definition busyWorld :: world where
  "busyWorld =
     exampleWorld\<lparr>UploadFiles := (\<lambda>name uploads t. (0, Some ''503 Service Unavailable''))\<rparr>"

definition deniedWorld :: world where
  "deniedWorld = exampleWorld\<lparr>UploadFiles := (\<lambda>name uploads t. (0, Some ''403 Forbidden''))\<rparr>"

text \<open>An artifact that never becomes ready.\<close>

definition notReadyResponse :: http_response where
  "notReadyResponse =
     \<lparr>StatusCode = 503, Header = [], Body = ''artifact not ready'', BodyError = None\<rparr>"

definition notReadyWorld :: world where
  "notReadyWorld = exampleWorld\<lparr>GetArtifact := (\<lambda>name t. (0, Some notReadyResponse))\<rparr>"

text \<open>
  An artifact named \<open>disk.tar\<close> by the server, fetched into a directory where an earlier
  extraction has left a directory of that name.
\<close>

definition tarResponse :: http_response where
  "tarResponse =
     \<lparr>StatusCode = 200,
      Header = [(''Content-Disposition'', ''attachment; filename=disk.tar''),
                (''Content-Type'', ''application/x-tar'')],
      Body = ''TARDATA'', BodyError = None\<rparr>"

definition tarWorld :: world where
  "tarWorld = exampleWorld\<lparr>GetArtifact := (\<lambda>name t. (2, Some tarResponse))\<rparr>"

definition tarStore :: fs where
  "tarStore = [''out'' \<mapsto> Dir, ''out/disk.tar'' \<mapsto> Dir]"

text \<open>The error and the store that a download returns.\<close>

definition failure :: "err option \<times> nat \<times> event list \<times> fs \<Rightarrow> err option" where
  "failure r = fst r"

definition storeAfter :: "err option \<times> nat \<times> event list \<times> fs \<Rightarrow> fs" where
  "storeAfter r = snd (snd (snd r))"

declare readyLoop.simps [simp del]
declare uploadLoop.simps [simp del]
declare downloadLoop.simps [simp del]
declare waitLoop.simps [simp del]

section \<open>Properties\<close>

subsection \<open>Path safety and the manifest walk\<close>

lemma Contains_code:
  "Contains s [] = True"
  "Contains [] (x # xs) = False"
  "Contains (y # ys) (x # xs) = (prefix (x # xs) (y # ys) \<or> Contains ys (x # xs))"
  by (simp_all add: Contains_def sublist_code)

lemma Contains_infix: "Contains (a @ s @ b) s"
  by (auto simp: Contains_def sublist_def)

lemma isPathSafe_abs: "IsAbs p \<Longrightarrow> isPathSafe p \<noteq> None"
  by (simp add: isPathSafe_def safeDirectories_def)

lemma isPathSafe_abs_plain:
  "IsAbs p \<Longrightarrow> p \<noteq> ''/'' \<Longrightarrow> \<not> Contains p ''..'' \<Longrightarrow>
   isPathSafe p = Some (AbsoluteOutsideSafeDirs p)"
  by (auto simp: isPathSafe_def safeDirectories_def IsAbs_def HasPrefix_def)

lemma isPathSafe_traversal: "isPathSafe (a @ ''..'' @ b) \<noteq> None"
  using Contains_infix [of a "''..''" b] by (simp add: isPathSafe_def)

lemma processAddFiles_Inl:
  "processAddFiles acc fs = Inl e \<Longrightarrow>
   \<exists>m p sp. YMap m \<in> set fs \<and> asString (idx m ''path'') = Some p
       \<and> asString (idx m ''source_path'') = Some sp \<and> isPathSafe sp = Some e"
proof (induction fs arbitrary: acc)
  case Nil
  then show ?case by simp
next
  case (Cons f fs)
  then show ?case
    by (cases f) (fastforce split: option.splits)+
qed

lemma processAddFiles_unsafe:
  "YMap m \<in> set fs \<Longrightarrow> asString (idx m ''path'') = Some p \<Longrightarrow>
   asString (idx m ''source_path'') = Some sp \<Longrightarrow> isPathSafe sp \<noteq> None \<Longrightarrow>
   \<exists>e. processAddFiles acc fs = Inl e"
proof (induction fs arbitrary: acc)
  case Nil
  then show ?case by simp
next
  case (Cons f fs)
  then show ?case
    by (cases f) (auto split: option.splits)
qed

subsection \<open>The readiness loop and the upload loop\<close>

lemma readyLoop_timeout:
  "deadline \<le> now \<Longrightarrow> readyLoop w name deadline now = (Some UploadServerTimeout, now, [])"
  by (simp add: readyLoop.simps)

lemma readyLoop_uploading:
  "now < deadline \<Longrightarrow> GetBuild w name now = (d, Inr st) \<Longrightarrow> Phase st = ''Uploading'' \<Longrightarrow>
   readyLoop w name deadline now = (None, now + d, [EvGetBuild name (Inr st)])"
  by (simp add: readyLoop.simps)

lemma readyLoop_failed:
  "now < deadline \<Longrightarrow> GetBuild w name now = (d, Inr st) \<Longrightarrow> Phase st = ''Failed'' \<Longrightarrow>
   readyLoop w name deadline now =
     (Some (FailedWaitingForUpload (Message st)), now + d, [EvGetBuild name (Inr st)])"
  by (simp add: readyLoop.simps)

lemma readyLoop_other:
  "now < deadline \<Longrightarrow> GetBuild w name now = (d, Inr st) \<Longrightarrow> Phase st \<noteq> ''Uploading'' \<Longrightarrow>
   Phase st \<noteq> ''Failed'' \<Longrightarrow>
   readyLoop w name deadline now =
     emit (EvGetBuild name (Inr st)) (readyLoop w name deadline (now + d + 3))"
  by (simp add: readyLoop.simps)

lemma readyLoop_error:
  "now < deadline \<Longrightarrow> GetBuild w name now = (d, Inl e) \<Longrightarrow>
   readyLoop w name deadline now =
     emit (EvGetBuild name (Inl e)) (readyLoop w name deadline (now + d + 3))"
  by (simp add: readyLoop.simps)

lemma readyLoop_events:
  "readyLoop w name deadline now = (r, t, evs) \<Longrightarrow>
   (\<forall>e \<in> set evs. \<not> isUploadFiles e) \<and> (r = None \<longrightarrow> (\<exists>e \<in> set evs. sawUploading e))"
proof (induction w name deadline now arbitrary: r t evs rule: readyLoop.induct)
  case (1 w name deadline now)
  show ?case
  proof (cases "deadline \<le> now")
    case True
    with "1.prems" show ?thesis by (auto simp: readyLoop.simps)
  next
    case False
    obtain d res where g: "GetBuild w name now = (d, res)" by (cases "GetBuild w name now")
    show ?thesis
    proof (cases res)
      case (Inl e)
      obtain r' t' evs' where rec: "readyLoop w name deadline (now + d + 3) = (r', t', evs')"
        by (cases "readyLoop w name deadline (now + d + 3)")
      from "1.IH"(1) [OF False g [symmetric] Inl rec] 
      have ih: "(\<forall>e \<in> set evs'. \<not> isUploadFiles e) \<and> (r' = None \<longrightarrow> (\<exists>e \<in> set evs'. sawUploading e))"
        by simp
      from "1.prems" False g Inl rec have "r = r'" "evs = EvGetBuild name (Inl e) # evs'"
        by (simp_all add: readyLoop.simps emit_def)
      with ih show ?thesis by auto
    next
      case (Inr st)
      show ?thesis
      proof (cases "Phase st = ''Uploading'' \<or> Phase st = ''Failed''")
        case True
        with "1.prems" False g Inr show ?thesis by (auto simp: readyLoop.simps)
      next
        case other: False
        obtain r' t' evs' where rec: "readyLoop w name deadline (now + d + 3) = (r', t', evs')"
          by (cases "readyLoop w name deadline (now + d + 3)")
        from other have o1: "Phase st \<noteq> ''Uploading''" and o2: "Phase st \<noteq> ''Failed''" by auto
        from "1.IH"(2) [OF False g [symmetric] Inr o1 o2 rec]
        have ih: "(\<forall>e \<in> set evs'. \<not> isUploadFiles e) \<and> (r' = None \<longrightarrow> (\<exists>e \<in> set evs'. sawUploading e))"
          by simp
        from "1.prems" False g Inr other rec have "r = r'" "evs = EvGetBuild name (Inr st) # evs'"
          by (simp_all add: readyLoop.simps emit_def)
        with ih show ?thesis by auto
      qed
    qed
  qed
qed


lemma readyLoop_never:
  "(\<forall>t d st. GetBuild w name t = (d, Inr st) \<longrightarrow> Phase st \<noteq> ''Uploading'' \<and> Phase st \<noteq> ''Failed'') \<Longrightarrow>
   fst (readyLoop w name deadline now) = Some UploadServerTimeout"
proof (induction w name deadline now rule: readyLoop.induct)
  case (1 w name deadline now)
  show ?case
  proof (cases "deadline \<le> now")
    case True
    then show ?thesis by (simp add: readyLoop_timeout)
  next
    case False
    then have lt: "now < deadline" by simp
    obtain d res where g: "GetBuild w name now = (d, res)" by (cases "GetBuild w name now")
    show ?thesis
    proof (cases res)
      case (Inl e)
      from "1.IH"(1) [OF False g [symmetric] Inl "1.prems"] lt g Inl
      show ?thesis by (simp add: readyLoop_error emit_def)
    next
      case (Inr st)
      from "1.prems" g Inr have o: "Phase st \<noteq> ''Uploading''" "Phase st \<noteq> ''Failed''" by auto
      from "1.IH"(2) [OF False g [symmetric] Inr o "1.prems"] lt g Inr o
      show ?thesis by (simp add: readyLoop_other emit_def)
    qed
  qed
qed

lemma uploadLoop_ok:
  "UploadFiles w name ups now = (d, None) \<Longrightarrow>
   uploadLoop w name ups deadline now = (None, now + d, [EvUploadFiles name ups None])"
  by (simp add: uploadLoop.simps)

lemma uploadLoop_retry:
  "UploadFiles w name ups now = (d, Some e) \<Longrightarrow> now + d \<le> deadline \<Longrightarrow> uploadNotReady w e \<Longrightarrow>
   uploadLoop w name ups deadline now =
     emit (EvUploadFiles name ups (Some e)) (uploadLoop w name ups deadline (now + d + 5))"
  by (simp add: uploadLoop.simps)

lemma uploadLoop_fatal:
  "UploadFiles w name ups now = (d, Some e) \<Longrightarrow> \<not> uploadNotReady w e \<Longrightarrow>
   uploadLoop w name ups deadline now =
     (Some (UploadFilesFailed e), now + d, [EvUploadFiles name ups (Some e)])"
  by (simp add: uploadLoop.simps)

lemma uploadLoop_late:
  "UploadFiles w name ups now = (d, Some e) \<Longrightarrow> deadline < now + d \<Longrightarrow>
   uploadLoop w name ups deadline now =
     (Some (UploadFilesFailed e), now + d, [EvUploadFiles name ups (Some e)])"
  by (simp add: uploadLoop.simps)

lemma uploadLoop_sequence:
  "(\<forall>k<n. \<exists>d e. UploadFiles w name ups (T k) = (d, Some e) \<and> uploadNotReady w e
        \<and> T k + d \<le> deadline \<and> T (Suc k) = T k + d + 5) \<Longrightarrow>
   UploadFiles w name ups (T n) = (d', None) \<Longrightarrow>
   fst (uploadLoop w name ups deadline (T 0)) = None
   \<and> length (snd (snd (uploadLoop w name ups deadline (T 0)))) = Suc n"
proof (induction n arbitrary: T)
  case 0
  then show ?case by (simp add: uploadLoop_ok)
next
  case (Suc n)
  from Suc.prems(1) obtain d e where
    first: "UploadFiles w name ups (T 0) = (d, Some e)" "uploadNotReady w e"
      "T 0 + d \<le> deadline" "T (Suc 0) = T 0 + d + 5"
    by auto
  have "fst (uploadLoop w name ups deadline ((T \<circ> Suc) 0)) = None
        \<and> length (snd (snd (uploadLoop w name ups deadline ((T \<circ> Suc) 0)))) = Suc n"
    using Suc.prems by (intro Suc.IH) auto
  with first show ?case
    by (simp add: uploadLoop_retry emit_def)
qed

lemma uploadLoop_events:
  "uploadLoop w name ups deadline now = (r, t, evs) \<Longrightarrow>
   \<forall>e \<in> set evs. \<exists>res. e = EvUploadFiles name ups res"
proof (induction w name ups deadline now arbitrary: r t evs rule: uploadLoop.induct)
  case (1 w name ups deadline now)
  obtain d res where u: "UploadFiles w name ups now = (d, res)" by (cases "UploadFiles w name ups now")
  show ?case
  proof (cases "\<exists>e. res = Some e \<and> now + d \<le> deadline \<and> uploadNotReady w e")
    case True
    then obtain e where e: "res = Some e" "now + d \<le> deadline" "uploadNotReady w e" by auto
    obtain r' t' evs' where rec: "uploadLoop w name ups deadline (now + d + 5) = (r', t', evs')"
      by (cases "uploadLoop w name ups deadline (now + d + 5)")
    from e have nl: "\<not> deadline < now + d" by simp
    from "1.IH" [OF u [symmetric] e(1) nl e(3) rec]
    have ih: "\<forall>e \<in> set evs'. \<exists>res. e = EvUploadFiles name ups res" by simp
    from "1.prems" u e rec have "evs = EvUploadFiles name ups (Some e) # evs'"
      by (simp add: uploadLoop_retry emit_def)
    with ih show ?thesis by auto
  next
    case False
    with "1.prems" u show ?thesis
      by (cases res) (auto simp: uploadLoop.simps split: if_splits)
  qed
qed

subsection \<open>The download loop\<close>

lemma downloadLoop_timeout:
  "ctxDone now \<or> deadline < now \<Longrightarrow>
   downloadLoop w cfg ctxDone name outDir deadline now fs = (Some ArtifactTimeout, now, [], fs)"
  by (simp add: downloadLoop.simps)

lemma downloadLoop_noresp:
  "\<not> ctxDone now \<Longrightarrow> now \<le> deadline \<Longrightarrow> GetArtifact w name now = (d, None) \<Longrightarrow>
   downloadLoop w cfg ctxDone name outDir deadline now fs =
     emit4 (EvGetArtifact name None)
       (downloadLoop w cfg ctxDone name outDir deadline (now + d + 3) fs)"
  by (simp add: downloadLoop.simps)

lemma downloadLoop_notReady:
  "\<not> ctxDone now \<Longrightarrow> now \<le> deadline \<Longrightarrow> GetArtifact w name now = (d, Some resp) \<Longrightarrow>
   StatusCode resp \<noteq> 200 \<Longrightarrow> artifactNotReady w resp \<Longrightarrow>
   downloadLoop w cfg ctxDone name outDir deadline now fs =
     emit4 (EvGetArtifact name (Some resp))
       (downloadLoop w cfg ctxDone name outDir deadline (now + d + 3) fs)"
  by (simp add: downloadLoop.simps)

lemma downloadLoop_fatal:
  "\<not> ctxDone now \<Longrightarrow> now \<le> deadline \<Longrightarrow> GetArtifact w name now = (d, Some resp) \<Longrightarrow>
   StatusCode resp \<noteq> 200 \<Longrightarrow> \<not> artifactNotReady w resp \<Longrightarrow>
   downloadLoop w cfg ctxDone name outDir deadline now fs =
     (Some (HTTPError (StatusCode resp) (TrimSpace (unicode w) (Body resp))), now + d,
      [EvGetArtifact name (Some resp)], fs)"
  by (simp add: downloadLoop.simps)

lemma downloadLoop_ok:
  "\<not> ctxDone now \<Longrightarrow> now \<le> deadline \<Longrightarrow> GetArtifact w name now = (d, Some resp) \<Longrightarrow>
   StatusCode resp = 200 \<Longrightarrow>
   downloadLoop w cfg ctxDone name outDir deadline now fs =
     (fst (saveArtifact w cfg name outDir resp fs), now + d,
      [EvGetArtifact name (Some resp)], snd (saveArtifact w cfg name outDir resp fs))"
  by (simp add: downloadLoop.simps split: prod.splits)

lemma downloadLoop_never:
  "(\<forall>t\<le>deadline. case GetArtifact w name t of
        (d, None) \<Rightarrow> True
      | (d, Some resp) \<Rightarrow> StatusCode resp \<noteq> 200 \<and> artifactNotReady w resp) \<Longrightarrow>
   fst (downloadLoop w cfg ctxDone name outDir deadline now fs) = Some ArtifactTimeout"
proof (induction w cfg ctxDone name outDir deadline now fs rule: downloadLoop.induct)
  case (1 w cfg ctxDone name outDir deadline now fs)
  show ?case
  proof (cases "ctxDone now \<or> deadline < now")
    case True
    then show ?thesis by (simp add: downloadLoop_timeout)
  next
    case False
    then have c: "\<not> ctxDone now" and le: "now \<le> deadline" by auto
    obtain d res where g: "GetArtifact w name now = (d, res)"
      by (cases "GetArtifact w name now")
    show ?thesis
    proof (cases res)
      case None
      from "1.IH"(1) [OF False g [symmetric] None "1.prems"] c le g None
      show ?thesis by (simp add: downloadLoop_noresp emit4_def)
    next
      case (Some resp)
      from "1.prems" le g Some have t: "StatusCode resp \<noteq> 200" "artifactNotReady w resp"
        by (auto dest!: spec [of _ now])
      from "1.IH"(2) [OF False g [symmetric] Some t "1.prems"] c le g Some t
      show ?thesis by (simp add: downloadLoop_notReady emit4_def)
    qed
  qed
qed

lemma downloadLoop_events:
  "\<forall>e \<in> set (fst (snd (snd (downloadLoop w cfg ctxDone name outDir deadline now fs)))). 
     \<not> isUploadFiles e"
proof (induction w cfg ctxDone name outDir deadline now fs rule: downloadLoop.induct)
  case (1 w cfg ctxDone name outDir deadline now fs)
  show ?case
  proof (cases "ctxDone now \<or> deadline < now")
    case True
    then show ?thesis by (simp add: downloadLoop_timeout)
  next
    case False
    then have c: "\<not> ctxDone now" and le: "now \<le> deadline" by auto
    obtain d res where g: "GetArtifact w name now = (d, res)"
      by (cases "GetArtifact w name now")
    show ?thesis
    proof (cases res)
      case None
      from "1.IH"(1) [OF False g [symmetric] None] c le g None
      show ?thesis by (simp add: downloadLoop_noresp emit4_def)
    next
      case (Some resp)
      show ?thesis
      proof (cases "StatusCode resp = 200")
        case True
        with c le g Some show ?thesis by (simp add: downloadLoop_ok)
      next
        case ne: False
        show ?thesis
        proof (cases "artifactNotReady w resp")
          case True
          from "1.IH"(2) [OF False g [symmetric] Some ne True] c le g Some ne True
          show ?thesis by (simp add: downloadLoop_notReady emit4_def)
        next
          case False
          with c le g Some ne show ?thesis by (simp add: downloadLoop_fatal)
        qed
      qed
    qed
  qed
qed

lemma downloadArtifactViaAPI_events:
  "\<forall>e \<in> set (fst (snd (snd (downloadArtifactViaAPI w cfg ctxDone name outDir now fs)))). 
     \<not> isUploadFiles e"
  using downloadLoop_events
  by (auto simp: downloadArtifactViaAPI_def Let_def split: prod.splits option.splits)

subsection \<open>The wait loop and the events of an invocation\<close>

lemma followStep_events:
  "followStep w name u follow now = (f, t1, evs1) \<Longrightarrow> \<forall>e \<in> set evs1. \<not> isUploadFiles e"
  by (auto simp: followStep_def split: if_splits prod.splits log_reply.splits)

lemma waitLoop_blocked:
  "now < deadline \<Longrightarrow> now < nextTick \<Longrightarrow>
   waitLoop w cfg name u deadline picks nextTick follow now fs =
     waitLoop w cfg name u deadline picks nextTick follow (min deadline nextTick) fs"
  by (subst waitLoop.simps) simp

lemma waitLoop_timeout:
  "deadline \<le> now \<Longrightarrow> now < nextTick \<or> picks = [] \<or> hd picks \<Longrightarrow>
   waitLoop w cfg name u deadline picks nextTick follow now fs = (Exit1 BuildTimeout, [], fs)"
  by (subst waitLoop.simps) auto

lemma waitLoop_tick:
  assumes nb: "\<not> (now < deadline \<and> now < nextTick)"
    and nt: "\<not> (deadline \<le> now \<and> (now < nextTick \<or> picks = [] \<or> hd picks))"
    and fs: "followStep w name u follow now = (follow', t1, evs1)"
    and g: "GetBuild w name t1 = (d, res)"
  shows "waitLoop w cfg name u deadline picks nextTick follow now fs =
     (case res of
        Inl e \<Rightarrow>
          pre (evs1 @ [EvGetBuild name (Inl e)])
            (waitLoop w cfg name u deadline (usePick deadline now picks)
               (nextFire nextTick now) follow' (t1 + d) fs)
      | Inr st \<Rightarrow>
          if Phase st = ''Completed'' then
            (if download cfg then
               (Exit0,
                evs1 @ EvGetBuild name (Inr st)
                  # fst (snd (snd (downloadArtifactViaAPI w cfg background name (outputDir cfg)
                                     (t1 + d) fs))),
                snd (snd (snd (downloadArtifactViaAPI w cfg background name (outputDir cfg)
                                 (t1 + d) fs))))
             else (Exit0, evs1 @ [EvGetBuild name (Inr st)], fs))
          else if Phase st = ''Failed'' then
            (Exit1 (BuildFailed (Message st)), evs1 @ [EvGetBuild name (Inr st)], fs)
          else
            pre (evs1 @ [EvGetBuild name (Inr st)])
              (waitLoop w cfg name u deadline (usePick deadline now picks)
                 (nextFire nextTick now) follow' (t1 + d) fs))"
proof -
  have a: "(now < deadline \<and> now < nextTick) = False" using nb by simp
  have b: "(deadline \<le> now \<and> (now < nextTick \<or> picks = [] \<or> hd picks)) = False"
    using nt by simp
  show ?thesis
    by (subst waitLoop.simps, simp only: a b if_False fs g prod.case)
      (simp split: sum.splits prod.splits)
qed

lemma waitLoop_events:
  "\<forall>e \<in> set (events (waitLoop w cfg name u deadline picks nextTick follow now fs)).
     \<not> isUploadFiles e"
proof (induction w cfg name u deadline picks nextTick follow now fs rule: waitLoop.induct)
  case (1 w cfg name u deadline picks nextTick follow now fs)
  show ?case
  proof (cases "now < deadline \<and> now < nextTick")
    case True
    with "1.IH"(1) [OF True] show ?thesis by (simp add: waitLoop_blocked)
  next
    case nb: False
    show ?thesis
    proof (cases "deadline \<le> now \<and> (now < nextTick \<or> picks = [] \<or> hd picks)")
      case True
      then show ?thesis by (simp add: waitLoop_timeout events_def)
    next
      case nt: False
      obtain f t1 evs1 where fs: "followStep w name u follow now = (f, t1, evs1)"
        by (cases "followStep w name u follow now")
      note e1 = followStep_events [OF fs]
      obtain d res where g: "GetBuild w name t1 = (d, res)" by (cases "GetBuild w name t1")
      note step = waitLoop_tick [OF nb nt fs g]
      show ?thesis
      proof (cases res)
        case (Inl a)
        from "1.IH"(2) [OF nb nt fs [symmetric] refl g [symmetric] Inl] e1
        show ?thesis by (auto simp: step Inl pre_def events_def)
      next
        case (Inr st)
        show ?thesis
        proof (cases "Phase st = ''Completed'' \<or> Phase st = ''Failed''")
          case True
          with e1 downloadArtifactViaAPI_events [of w cfg background name "outputDir cfg" "t1 + d" fs]
          show ?thesis by (auto simp: step Inr events_def)
        next
          case False
          then have o: "Phase st \<noteq> ''Completed''" "Phase st \<noteq> ''Failed''" by auto
          from "1.IH"(3) [OF nb nt fs [symmetric] refl g [symmetric] Inr o] e1 o
          show ?thesis by (auto simp: step Inr pre_def events_def)
        qed
      qed
    qed
  qed
qed

lemma waitForCompletion_events:
  "\<forall>e \<in> set (events (waitForCompletion w cfg name now fs)). \<not> isUploadFiles e"
  using waitLoop_events by (simp add: waitForCompletion_def events_def)

lemma uploadLocalFiles_events:
  assumes u: "uploadLocalFiles w name mb now fs = (r, t, evs)"
  shows "\<exists>evsR evsU. evs = evsR @ evsU \<and> (\<forall>e \<in> set evsR. \<not> isUploadFiles e)
      \<and> (evsU \<noteq> [] \<longrightarrow> (\<exists>e \<in> set evsR. sawUploading e))
      \<and> (\<forall>e \<in> set evsU. \<exists>refs res. findLocalFileReferences (yamlUnmarshal w) mb = Inr refs
             \<and> e = EvUploadFiles name (makeUploads refs) res)"
proof -
  have trivial: ?thesis if "evs = []"
    using that by (intro exI [of _ "[]"]) simp
  show ?thesis
  proof (cases "findLocalFileReferences (yamlUnmarshal w) mb")
    case (Inl e)
    with u have "evs = []" by (simp add: uploadLocalFiles_def)
    then show ?thesis by (rule trivial)
  next
    case (Inr refs)
    show ?thesis
    proof (cases "refs = []")
      case True
      with u Inr have "evs = []" by (simp add: uploadLocalFiles_def)
      then show ?thesis by (rule trivial)
    next
      case ne: False
      show ?thesis
      proof (cases "find (\<lambda>r. Stat fs (ref r ''source_path'') \<noteq> None) refs")
        case (Some x)
        with u Inr ne have "evs = []" by (simp add: uploadLocalFiles_def)
        then show ?thesis by (rule trivial)
      next
        case None
        obtain rr tr evsR where rl: "readyLoop w name (now + 600) now = (rr, tr, evsR)"
          by (cases "readyLoop w name (now + 600) now")
        note re = readyLoop_events [OF rl]
        show ?thesis
        proof (cases rr)
          case (Some e)
          with u Inr ne None rl have "evs = evsR @ []" by (simp add: uploadLocalFiles_def)
          with re show ?thesis by (intro exI [of _ evsR] exI [of _ "[]"]) simp
        next
          case rn: None
          obtain ru tu evsU where
            ul: "uploadLoop w name (makeUploads refs) (tr + 600) tr = (ru, tu, evsU)"
            by (cases "uploadLoop w name (makeUploads refs) (tr + 600) tr")
          note ue = uploadLoop_events [OF ul]
          from u Inr ne None rl rn ul have "evs = evsR @ evsU"
            by (simp add: uploadLocalFiles_def)
          with re ue rn Inr show ?thesis
            by (intro exI [of _ evsR] exI [of _ evsU]) simp
        qed
      qed
    qed
  qed
qed

lemma runBuild_cases:
  obtains (early) e where "runBuild w cfg now fs = (Exit1 e, [], fs)"
  | (rejected) mb req d e where "ReadFile fs (manifest cfg) = Inr mb" "Manifest req = mb"
      "CreateBuild w req now = (d, Inl e)"
      "runBuild w cfg now fs = (Exit1 (CreateBuildError e), [EvCreateBuild req], fs)"
  | (accepted) mb req d resp where "ReadFile fs (manifest cfg) = Inr mb" "Manifest req = mb"
      "CreateBuild w req now = (d, Inr resp)"
      "runBuild w cfg now fs =
         pre [EvCreateBuild req] (afterCreate w cfg (RespName resp) mb (now + d) fs)"
proof (cases "\<exists>e. runBuild w cfg now fs = (Exit1 e, [], fs)")
  case True
  then show ?thesis using early by blast
next
  case False
  then obtain mb pd pt pa pe pm where
    p: "ReadFile fs (manifest cfg) = Inr mb" "validateBuildRequirements w cfg = None"
       "serverURL cfg \<noteq> ''''" "newClient w (serverURL cfg) = None"
       "ParseDistro w (distro cfg) = Inr pd" "ParseTarget w (target cfg) = Inr pt"
       "ParseArchitecture w (architecture cfg) = Inr pa"
       "ParseExportFormat w (exportFormat cfg) = Inr pe" "ParseMode w (mode cfg) = Inr pm"
    by (auto simp: runBuild_def split: option.splits sum.splits if_splits)
  define req where "req = makeRequest w cfg mb pd pt pa pe pm"
  have m: "Manifest req = mb" by (simp add: req_def makeRequest_def)
  obtain d res where c: "CreateBuild w req now = (d, res)" by (cases "CreateBuild w req now")
  show ?thesis
  proof (cases res)
    case (Inl e)
    with p c have "runBuild w cfg now fs = (Exit1 (CreateBuildError e), [EvCreateBuild req], fs)"
      by (simp add: runBuild_def req_def)
    with p(1) m c Inl show ?thesis using rejected by blast
  next
    case (Inr resp)
    with p c have "runBuild w cfg now fs =
         pre [EvCreateBuild req] (afterCreate w cfg (RespName resp) mb (now + d) fs)"
      by (simp add: runBuild_def req_def)
    with p(1) m c Inr show ?thesis using accepted by blast
  qed
qed

lemma append_eq_later:
  "P @ Q = xs @ e # ys \<Longrightarrow> e \<notin> set P \<Longrightarrow> \<exists>zs. xs = P @ zs \<and> Q = zs @ e # ys"
proof (induction P arbitrary: xs)
  case Nil
  then show ?case by simp
next
  case (Cons p P)
  then show ?case by (cases xs) auto
qed

lemma afterCreate_trace:
  "\<exists>R U W. events (afterCreate w cfg name mb now fs) = R @ U @ W
     \<and> (\<forall>e \<in> set R. \<not> isUploadFiles e) \<and> (\<forall>e \<in> set W. \<not> isUploadFiles e)
     \<and> (U \<noteq> [] \<longrightarrow> (\<exists>g \<in> set R. sawUploading g))
     \<and> (\<forall>e \<in> set U. \<exists>refs res. findLocalFileReferences (yamlUnmarshal w) mb = Inr refs
            \<and> e = EvUploadFiles name (makeUploads refs) res)"
proof -
  obtain r t evs where u: "uploadLocalFiles w name mb now fs = (r, t, evs)"
    by (cases "uploadLocalFiles w name mb now fs")
  from uploadLocalFiles_events [OF u] obtain R U where
    ru: "evs = R @ U" "\<forall>e \<in> set R. \<not> isUploadFiles e"
      "U \<noteq> [] \<longrightarrow> (\<exists>g \<in> set R. sawUploading g)"
      "\<forall>e \<in> set U. \<exists>refs res. findLocalFileReferences (yamlUnmarshal w) mb = Inr refs
            \<and> e = EvUploadFiles name (makeUploads refs) res"
    by blast
  show ?thesis
  proof (cases r)
    case (Some e)
    with u ru(1) have "events (afterCreate w cfg name mb now fs) = R @ U @ []"
      by (simp add: afterCreate_def events_def)
    with ru show ?thesis by (intro exI [of _ R] exI [of _ U] exI [of _ "[]"]) simp
  next
    case None
    with u ru(1) have "events (afterCreate w cfg name mb now fs)
        = R @ U @ events (waitForCompletion w cfg name t fs)"
      by (simp add: afterCreate_def events_def pre_def)
    with ru waitForCompletion_events [of w cfg name t fs] show ?thesis
      by (intro exI [of _ R] exI [of _ U] exI [of _ "events (waitForCompletion w cfg name t fs)"])
        simp
  qed
qed

lemma runBuild_trace:
  "\<exists>R U W. events (runBuild w cfg now fs) = R @ U @ W
     \<and> (\<forall>e \<in> set R. \<not> isUploadFiles e) \<and> (\<forall>e \<in> set W. \<not> isUploadFiles e)
     \<and> (U \<noteq> [] \<longrightarrow> (\<exists>g \<in> set R. sawUploading g))
     \<and> (\<forall>e \<in> set U. \<exists>mb refs name res. ReadFile fs (manifest cfg) = Inr mb
            \<and> findLocalFileReferences (yamlUnmarshal w) mb = Inr refs
            \<and> e = EvUploadFiles name (makeUploads refs) res)"
proof (cases w cfg now fs rule: runBuild_cases)
  case (early e)
  then show ?thesis by (intro exI [of _ "[]"]) (simp add: events_def)
next
  case (rejected mb req d e)
  then show ?thesis
    by (intro exI [of _ "[EvCreateBuild req]"] exI [of _ "[]"]) (simp add: events_def)
next
  case (accepted mb req d resp)
  from afterCreate_trace [of w cfg "RespName resp" mb "now + d" fs] obtain R U W where
    t: "events (afterCreate w cfg (RespName resp) mb (now + d) fs) = R @ U @ W"
      "\<forall>e \<in> set R. \<not> isUploadFiles e" "\<forall>e \<in> set W. \<not> isUploadFiles e"
      "U \<noteq> [] \<longrightarrow> (\<exists>g \<in> set R. sawUploading g)"
      "\<forall>e \<in> set U. \<exists>refs res. findLocalFileReferences (yamlUnmarshal w) mb = Inr refs
            \<and> e = EvUploadFiles (RespName resp) (makeUploads refs) res"
    by blast
  from accepted(4) t(1) have "events (runBuild w cfg now fs) = (EvCreateBuild req # R) @ U @ W"
    by (simp add: events_def pre_def)
  with t(2-5) accepted(1) show ?thesis
    by (intro exI [of _ "EvCreateBuild req # R"] exI [of _ U] exI [of _ W]) auto
qed

lemma uploads_after_ready:
  assumes "tr = R @ U @ W" "\<forall>e \<in> set R. \<not> isUploadFiles e" "\<forall>e \<in> set W. \<not> isUploadFiles e"
    "U \<noteq> [] \<longrightarrow> (\<exists>g \<in> set R. sawUploading g)" "tr = xs @ e # ys" "isUploadFiles e"
  shows "\<exists>g \<in> set xs. sawUploading g"
proof -
  from assms(2,6) have "e \<notin> set R" by auto
  with assms(1,5) append_eq_later [of R "U @ W" xs e ys] obtain zs where
    z: "xs = R @ zs" "U @ W = zs @ e # ys" by auto
  have "U \<noteq> []"
  proof
    assume "U = []"
    with z(2) have "e \<in> set W" by simp
    with assms(3,6) show False by auto
  qed
  with assms(4) z(1) show ?thesis by auto
qed

subsection \<open>The example runs, step by step\<close>

lemma Clean_examples:
  "Clean ''./output'' = ''output''"
  "Clean ''output'' = ''output''"
  "Clean ''out'' = ''out''"
  "Clean ''out/disk.tar'' = ''out/disk.tar''"
  "Clean ''out/disk.tar.partial'' = ''out/disk.tar.partial''"
  "Clean ''simple.aib.yml'' = ''simple.aib.yml''"
  "Clean ''radio.container'' = ''radio.container''"
  by (simp_all add: Clean_def HasPrefix_def cleanStep_def)

lemma filepathDir_examples:
  "filepathDir ''out/disk.tar.partial'' = ''out''"
  "filepathDir ''out/disk.tar'' = ''out''"
  by (simp_all add: filepathDir_def Clean_def HasPrefix_def cleanStep_def)

lemma ancestors_examples:
  "ancestors ''./output'' = [''output'']"
  "ancestors ''out'' = [''out'']"
  by (simp_all add: ancestors_def Clean_examples)

lemma nodeAt_examples:
  "nodeAt fs ''./output'' = fs ''output''"
  "nodeAt fs ''output'' = fs ''output''"
  "nodeAt fs ''out'' = fs ''out''"
  "nodeAt fs ''out/disk.tar'' = fs ''out/disk.tar''"
  "nodeAt fs ''out/disk.tar.partial'' = fs ''out/disk.tar.partial''"
  "nodeAt fs ''simple.aib.yml'' = fs ''simple.aib.yml''"
  "nodeAt fs ''radio.container'' = fs ''radio.container''"
  by (simp_all add: nodeAt_def Clean_examples)

lemma MkdirAll_output:
  "\<not> isFile (fs ''output'') \<Longrightarrow> MkdirAll ''./output'' fs = (None, fs(''output'' \<mapsto> Dir))"
  by (simp add: MkdirAll_def ancestors_examples nodeAt_examples)

lemma TrimSpace_examples:
  "TrimSpace u ''boom'' = ''boom''"
  "TrimSpace u ''./output'' = ''./output''"
  "TrimSpace u ''out'' = ''out''"
  "TrimSpace u ''arm64'' = ''arm64''"
  "TrimSpace u '''' = ''''"
  "TrimSpace u ''https://api.example'' = ''https://api.example''"
  "TrimSpace u ''artifact not ready'' = ''artifact not ready''"
  by (simp_all add: TrimSpace_def isSpace_def nonASCII_def)

lemma ToLower_examples:
  "ToLower u ''503 Service Unavailable'' = ''503 service unavailable''"
  "ToLower u ''403 Forbidden'' = ''403 forbidden''"
  "ToLower u ''boom'' = ''boom''"
  "ToLower u ''artifact not ready'' = ''artifact not ready''"
  by (simp_all add: ToLower_def nonASCII_def lowerChar_def)

lemma timeoutSeconds_60: "timeoutSeconds 60 = 3600"
  by (simp add: timeoutSeconds_def wrap64_def)

lemma exampleWorld_fields:
  "yamlUnmarshal exampleWorld = exampleUnmarshal"
  "newClient exampleWorld url = None"
  "ParseDistro exampleWorld s = Inr s"
  "ParseTarget exampleWorld s = Inr s"
  "ParseArchitecture exampleWorld s = Inr s"
  "ParseExportFormat exampleWorld s = Inr s"
  "ParseMode exampleWorld s = Inr s"
  "CreateBuild exampleWorld req t = (0, Inr \<lparr>RespName = Name req, Phase = ''Accepted'', Message = ''''\<rparr>)"
  "selectPicks exampleWorld = []"
  by (simp_all add: exampleWorld_def)

lemma exampleWorld_GetBuild:
  "GetBuild exampleWorld name t =
     (0, Inr \<lparr>RespName = name, Phase = examplePhase t, Message = ''''\<rparr>)"
  by (simp add: exampleWorld_def)

lemma exampleWorld_UploadFiles_busy:
  "t < 20 \<Longrightarrow> UploadFiles exampleWorld name ups t = (0, Some ''503 Service Unavailable'')"
  by (simp add: exampleWorld_def)

lemma exampleWorld_UploadFiles_ok:
  "20 \<le> t \<Longrightarrow> UploadFiles exampleWorld name ups t = (0, None)"
  by (simp add: exampleWorld_def)

lemma exampleWorld_GetArtifact:
  "GetArtifact exampleWorld name t =
     (0, Some \<lparr>StatusCode = 500, Header = [], Body = ''boom'', BodyError = None\<rparr>)"
  by (simp add: exampleWorld_def)

lemma uploadNotReady_503: "uploadNotReady w ''503 Service Unavailable''"
  by (simp add: uploadNotReady_def ToLower_examples Contains_code)

lemma example_refs:
  "findLocalFileReferences exampleUnmarshal radioManifest =
     Inr [[(''path'', ''/etc/containers/systemd/radio.container''),
           (''source_path'', ''radio.container'')]]"
  by (simp add: findLocalFileReferences_def exampleUnmarshal_def radioTree_def
      contentAddFiles_def qmAddFiles_def idx_def isPathSafe_def Contains_code IsAbs_def
      HasPrefix_def)

lemma example_ready:
  "readyLoop exampleWorld ''my-build'' 600 0 =
     (None, 6, [examplePoll 0, examplePoll 3, examplePoll 6])"
  by (simp add: readyLoop_uploading [OF _ exampleWorld_GetBuild]
      readyLoop_other [OF _ exampleWorld_GetBuild] examplePhase_def examplePoll_def emit_def)

lemma example_upload:
  "uploadLoop exampleWorld ''my-build'' exampleUploads 606 6 =
     (None, 21,
      [EvUploadFiles ''my-build'' exampleUploads (Some ''503 Service Unavailable''),
       EvUploadFiles ''my-build'' exampleUploads (Some ''503 Service Unavailable''),
       EvUploadFiles ''my-build'' exampleUploads (Some ''503 Service Unavailable''),
       EvUploadFiles ''my-build'' exampleUploads None])"
  by (simp add: uploadLoop_retry [OF exampleWorld_UploadFiles_busy]
      uploadLoop_ok [OF exampleWorld_UploadFiles_ok] uploadNotReady_503 emit_def)

lemma boom_not_ready:
  "\<not> artifactNotReady w \<lparr>StatusCode = 500, Header = [], Body = ''boom'', BodyError = None\<rparr>"
  by (simp add: artifactNotReady_def TrimSpace_examples ToLower_examples Contains_code)

lemma example_download:
  "fs ''output'' = None \<Longrightarrow>
   downloadArtifactViaAPI exampleWorld cfg background ''my-build'' ''./output'' 41 fs =
     (Some (HTTPError 500 ''boom''), 41,
      [EvGetArtifact ''my-build''
         (Some \<lparr>StatusCode = 500, Header = [], Body = ''boom'', BodyError = None\<rparr>)],
      fs(''output'' \<mapsto> Dir))"
  by (simp add: downloadArtifactViaAPI_def TrimSpace_examples MkdirAll_output isFile_def
      downloadLoop_fatal [OF _ _ exampleWorld_GetArtifact] boom_not_ready background_def)

lemma example_followStep: "followStep w name u False now = (False, now, [])"
  by (simp add: followStep_def)

lemma example_wait:
  "fs ''output'' = None \<Longrightarrow>
   waitLoop exampleWorld exampleConfig ''my-build'' False 3621 [] 26 False 21 fs =
     (Exit0,
      [examplePoll 26, examplePoll 31, examplePoll 36, examplePoll 41,
       EvGetArtifact ''my-build''
         (Some \<lparr>StatusCode = 500, Header = [], Body = ''boom'', BodyError = None\<rparr>)],
      fs(''output'' \<mapsto> Dir))"
  apply (simp add: waitLoop_blocked)
  apply (simp add: waitLoop_tick [OF _ _ example_followStep exampleWorld_GetBuild]
      examplePhase_def nextFire_def usePick_def pre_def waitLoop_blocked examplePoll_def)
  apply (simp add: exampleConfig_def example_download)
  done


lemma example_request:
  "makeRequest w exampleConfig text ''autosd'' ''qemu'' ''arm64'' ''image'' ''image'' =
     exampleRequest text"
  by (simp add: makeRequest_def exampleConfig_def exampleRequest_def Base_def
      TrimSpace_examples)

lemma example_uploads:
  "makeUploads [[(''path'', ''/etc/containers/systemd/radio.container''),
                 (''source_path'', ''radio.container'')]] = exampleUploads"
  by (simp add: makeUploads_def exampleUploads_def ref_def)

lemma example_after:
  "afterCreate exampleWorld exampleConfig ''my-build'' radioManifest 0 exampleStore =
     (Exit0,
      [examplePoll 0, examplePoll 3, examplePoll 6,
       EvUploadFiles ''my-build'' exampleUploads (Some ''503 Service Unavailable''),
       EvUploadFiles ''my-build'' exampleUploads (Some ''503 Service Unavailable''),
       EvUploadFiles ''my-build'' exampleUploads (Some ''503 Service Unavailable''),
       EvUploadFiles ''my-build'' exampleUploads None,
       examplePoll 26, examplePoll 31, examplePoll 36, examplePoll 41,
       EvGetArtifact ''my-build''
         (Some \<lparr>StatusCode = 500, Header = [], Body = ''boom'', BodyError = None\<rparr>)],
      exampleStore(''output'' \<mapsto> Dir))"
proof -
  have st: "Stat exampleStore ''radio.container'' = None"
    by (simp add: Stat_def nodeAt_examples exampleStore_def)
  have out: "exampleStore ''output'' = None"
    by (simp add: exampleStore_def)
  have up: "uploadLocalFiles exampleWorld ''my-build'' radioManifest 0 exampleStore =
     (None, 21,
      [examplePoll 0, examplePoll 3, examplePoll 6,
       EvUploadFiles ''my-build'' exampleUploads (Some ''503 Service Unavailable''),
       EvUploadFiles ''my-build'' exampleUploads (Some ''503 Service Unavailable''),
       EvUploadFiles ''my-build'' exampleUploads (Some ''503 Service Unavailable''),
       EvUploadFiles ''my-build'' exampleUploads None])"
    by (simp add: uploadLocalFiles_def exampleWorld_fields example_refs ref_def st
        example_ready example_uploads example_upload)
  have cfg: "download exampleConfig" "followLogs exampleConfig = False"
    "timeout exampleConfig = 60"
    by (simp_all add: exampleConfig_def)
  have wait: "waitForCompletion exampleWorld exampleConfig ''my-build'' 21 exampleStore =
     (Exit0,
      [examplePoll 26, examplePoll 31, examplePoll 36, examplePoll 41,
       EvGetArtifact ''my-build''
         (Some \<lparr>StatusCode = 500, Header = [], Body = ''boom'', BodyError = None\<rparr>)],
      exampleStore(''output'' \<mapsto> Dir))"
    by (simp add: waitForCompletion_def cfg exampleWorld_fields timeoutSeconds_60
        example_wait [where fs = exampleStore, OF out])
  show ?thesis
    by (simp add: afterCreate_def up wait pre_def)
qed

lemma example_validate: "validateBuildRequirements w exampleConfig = None"
  by (simp add: validateBuildRequirements_def exampleConfig_def TrimSpace_examples)

lemma exampleConfig_fields:
  "serverURL exampleConfig = ''https://api.example''"
  "manifest exampleConfig = ''simple.aib.yml''"
  "buildName exampleConfig = ''my-build''"
  "distro exampleConfig = ''autosd''"
  "target exampleConfig = ''qemu''"
  "architecture exampleConfig = ''arm64''"
  "exportFormat exampleConfig = ''image''"
  "mode exampleConfig = ''image''"
  "outputDir exampleConfig = ''./output''"
  by (simp_all add: exampleConfig_def)

lemma example_run:
  "runBuild exampleWorld exampleConfig 0 exampleStore =
     (Exit0,
      [EvCreateBuild (exampleRequest radioManifest),
       examplePoll 0, examplePoll 3, examplePoll 6,
       EvUploadFiles ''my-build'' exampleUploads (Some ''503 Service Unavailable''),
       EvUploadFiles ''my-build'' exampleUploads (Some ''503 Service Unavailable''),
       EvUploadFiles ''my-build'' exampleUploads (Some ''503 Service Unavailable''),
       EvUploadFiles ''my-build'' exampleUploads None,
       examplePoll 26, examplePoll 31, examplePoll 36, examplePoll 41,
       EvGetArtifact ''my-build''
         (Some \<lparr>StatusCode = 500, Header = [], Body = ''boom'', BodyError = None\<rparr>)],
      exampleStore(''output'' \<mapsto> Dir))"
proof -
  have rd: "ReadFile exampleStore ''simple.aib.yml'' = Inr radioManifest"
    by (simp add: ReadFile_def nodeAt_examples exampleStore_def)
  have nm: "Name (exampleRequest radioManifest) = ''my-build''"
    by (simp add: exampleRequest_def)
  show ?thesis
    by (simp add: runBuild_def example_validate exampleConfig_fields exampleWorld_fields rd
        example_request nm example_after pre_def)
qed

lemma escape_refs:
  "findLocalFileReferences exampleUnmarshal escapeManifest =
     Inl (DirectoryTraversal ''../../etc/shadow'')"
  by (simp add: findLocalFileReferences_def exampleUnmarshal_def escapeTree_def
      escapeManifest_def radioManifest_def
      contentAddFiles_def qmAddFiles_def idx_def isPathSafe_def Contains_code)

lemma escape_run:
  "runBuild exampleWorld exampleConfig 0 escapeStore =
     (Exit1 (ManifestFileReferenceError (DirectoryTraversal ''../../etc/shadow'')),
      [EvCreateBuild (exampleRequest escapeManifest)], escapeStore)"
proof -
  have rd: "ReadFile escapeStore ''simple.aib.yml'' = Inr escapeManifest"
    by (simp add: ReadFile_def nodeAt_examples escapeStore_def)
  have nm: "Name (exampleRequest escapeManifest) = ''my-build''"
    by (simp add: exampleRequest_def)
  show ?thesis
    by (simp add: runBuild_def example_validate exampleConfig_fields exampleWorld_fields rd
        example_request nm afterCreate_def uploadLocalFiles_def escape_refs pre_def)
qed

lemma example_runDownload:
  "runDownload exampleWorld exampleConfig 41 exampleStore =
     (Exit1 (DownloadFailed (HTTPError 500 ''boom'')),
      [examplePoll 41,
       EvGetArtifact ''my-build''
         (Some \<lparr>StatusCode = 500, Header = [], Body = ''boom'', BodyError = None\<rparr>)],
      exampleStore(''output'' \<mapsto> Dir))"
proof -
  have out: "exampleStore ''output'' = None"
    by (simp add: exampleStore_def)
  have ts: "TrimSpace u ''https://api.example'' \<noteq> []" for u
    by (simp add: TrimSpace_examples)
  show ?thesis
    by (simp add: runDownload_def exampleConfig_fields ts exampleWorld_fields
        exampleWorld_GetBuild examplePhase_def examplePoll_def
        example_download [where fs = exampleStore, OF out])
qed

lemma tarWorld_GetArtifact: "GetArtifact tarWorld name t = (2, Some tarResponse)"
  by (simp add: tarWorld_def)

lemma tar_filename: "artifactFileName ''my-build'' tarResponse = ''disk.tar''"
  by (simp add: artifactFileName_def tarResponse_def Get_def Trim_def)

lemma tar_join: "Join ''out'' ''disk.tar'' = ''out/disk.tar''"
  by (simp add: Join_def Clean_def HasPrefix_def cleanStep_def)

lemma tar_save:
  "saveArtifact tarWorld exampleConfig ''my-build'' ''out'' tarResponse
      (tarStore(''out'' \<mapsto> Dir)) =
     (Some (OSError ''file exists''),
      tarStore(''out'' \<mapsto> Dir, ''out/disk.tar.partial'' \<mapsto> File ''TARDATA''))"
proof -
  have b: "Body tarResponse = ''TARDATA''" "BodyError tarResponse = None"
    by (simp_all add: tarResponse_def)
  show ?thesis
    by (simp add: saveArtifact_def tar_filename tar_join Create_def Rename_def copyTo_def
        nodeAt_examples Clean_examples filepathDir_examples tarStore_def b)
qed

lemma tar_download:
  "downloadArtifactViaAPI tarWorld exampleConfig background ''my-build'' ''out'' 0 tarStore =
     (Some (OSError ''file exists''), 2, [EvGetArtifact ''my-build'' (Some tarResponse)],
      tarStore(''out'' \<mapsto> Dir, ''out/disk.tar.partial'' \<mapsto> File ''TARDATA''))"
proof -
  have ts: "TrimSpace u ''out'' = ''out''" for u by (simp add: TrimSpace_examples)
  have mk: "MkdirAll ''out'' tarStore = (None, tarStore(''out'' \<mapsto> Dir))"
    by (simp add: MkdirAll_def ancestors_examples nodeAt_examples isFile_def tarStore_def)
  have sc: "StatusCode tarResponse = 200" by (simp add: tarResponse_def)
  show ?thesis
    by (simp add: downloadArtifactViaAPI_def ts mk
        downloadLoop_ok [OF _ _ tarWorld_GetArtifact sc] background_def tar_save)
qed

subsection \<open>What preprocessing accepts, rejects and skips\<close>

lemma addFileEntries_cases:
  "f \<in> set (addFileEntries md) \<Longrightarrow>
   (\<exists>fs. contentAddFiles md = Some fs \<and> f \<in> set fs)
   \<or> (\<exists>fs. qmAddFiles md = Some fs \<and> f \<in> set fs)"
  by (auto simp: addFileEntries_def split: option.splits)

lemma findLocalFileReferences_Inl:
  "unm doc = Inr md \<Longrightarrow> findLocalFileReferences unm doc = Inl e \<Longrightarrow>
   \<exists>m p sp. YMap m \<in> set (addFileEntries md) \<and> asString (idx m ''path'') = Some p
       \<and> asString (idx m ''source_path'') = Some sp \<and> isPathSafe sp = Some e"
  by (fastforce simp: findLocalFileReferences_def addFileEntries_def
      split: option.splits sum.splits dest!: processAddFiles_Inl)

lemma findLocalFileReferences_unsafe:
  assumes md: "unm doc = Inr md"
    and f: "YMap m \<in> set (addFileEntries md)"
    and p: "asString (idx m ''path'') = Some p"
    and sp: "asString (idx m ''source_path'') = Some sp"
    and unsafe: "isPathSafe sp \<noteq> None"
  shows "\<exists>e. findLocalFileReferences unm doc = Inl e"
proof -
  from addFileEntries_cases [OF f] show ?thesis
  proof
    assume "\<exists>fs. contentAddFiles md = Some fs \<and> YMap m \<in> set fs"
    then obtain fs where c: "contentAddFiles md = Some fs" "YMap m \<in> set fs" by blast
    from processAddFiles_unsafe [OF c(2) p sp unsafe, of "[]"] md c(1) show ?thesis
      by (auto simp: findLocalFileReferences_def)
  next
    assume "\<exists>fs. qmAddFiles md = Some fs \<and> YMap m \<in> set fs"
    then obtain fs where q: "qmAddFiles md = Some fs" "YMap m \<in> set fs" by blast
    show ?thesis
    proof (cases "case contentAddFiles md of None \<Rightarrow> Inr [] | Some l \<Rightarrow> processAddFiles [] l")
      case (Inl e)
      with md show ?thesis by (simp add: findLocalFileReferences_def)
    next
      case (Inr localFiles)
      with processAddFiles_unsafe [OF q(2) p sp unsafe, of localFiles] md q(1) show ?thesis
        by (auto simp: findLocalFileReferences_def)
    qed
  qed
qed

lemma processAddFiles_skip:
  assumes "\<forall>fileMap. asMap entry = Some fileMap \<longrightarrow>
      asString (idx fileMap ''source_path'') = None \<or> asString (idx fileMap ''path'') = None"
  shows "processAddFiles localFiles (front @ entry # rest) =
         processAddFiles localFiles (front @ rest)"
proof (induction front arbitrary: localFiles)
  case Nil
  from assms show ?case by (auto split: option.splits)
next
  case (Cons f front)
  then show ?case by (simp split: option.splits)
qed

lemma processAddFiles_all_skipped:
  "\<forall>entry \<in> set addFiles. \<forall>fileMap. asMap entry = Some fileMap \<longrightarrow>
      asString (idx fileMap ''source_path'') = None \<or> asString (idx fileMap ''path'') = None \<Longrightarrow>
   processAddFiles localFiles addFiles = Inr localFiles"
  by (induction addFiles) (auto split: option.splits)

lemma findLocalFileReferences_all_skipped:
  assumes md: "unm doc = Inr md"
    and skip: "\<forall>entry \<in> set (addFileEntries md). \<forall>fileMap. asMap entry = Some fileMap \<longrightarrow>
      asString (idx fileMap ''source_path'') = None \<or> asString (idx fileMap ''path'') = None"
  shows "findLocalFileReferences unm doc = Inr []"
proof -
  have c: "processAddFiles [] l = Inr []" if h: "contentAddFiles md = Some l" for l
  proof (rule processAddFiles_all_skipped)
    from h have "set l \<subseteq> set (addFileEntries md)" by (simp add: addFileEntries_def)
    with skip show "\<forall>entry \<in> set l. \<forall>fileMap. asMap entry = Some fileMap \<longrightarrow>
        asString (idx fileMap ''source_path'') = None \<or> asString (idx fileMap ''path'') = None"
      by (meson subsetD)
  qed
  have q: "processAddFiles [] l = Inr []" if h: "qmAddFiles md = Some l" for l
  proof (rule processAddFiles_all_skipped)
    from h have "set l \<subseteq> set (addFileEntries md)" by (simp add: addFileEntries_def)
    with skip show "\<forall>entry \<in> set l. \<forall>fileMap. asMap entry = Some fileMap \<longrightarrow>
        asString (idx fileMap ''source_path'') = None \<or> asString (idx fileMap ''path'') = None"
      by (meson subsetD)
  qed
  from md c q show ?thesis
    by (auto simp: findLocalFileReferences_def split: option.splits)
qed

lemma afterCreate_rejected:
  "findLocalFileReferences (yamlUnmarshal w) mb = Inl e \<Longrightarrow>
   afterCreate w cfg name mb now fs = (Exit1 (ManifestFileReferenceError e), [], fs)"
  by (simp add: afterCreate_def uploadLocalFiles_def)

lemma home_refs:
  "findLocalFileReferences exampleUnmarshal homeManifest =
     Inl (AbsoluteOutsideSafeDirs ''/home/user/motd'')"
  by (simp add: findLocalFileReferences_def exampleUnmarshal_def homeTree_def
      homeManifest_def escapeManifest_def radioManifest_def safeDirectories_def
      contentAddFiles_def qmAddFiles_def idx_def isPathSafe_def Contains_code IsAbs_def
      HasPrefix_def)

lemma exampleUnmarshal_simps:
  "exampleUnmarshal radioManifest = Inr radioTree"
  "exampleUnmarshal escapeManifest = Inr escapeTree"
  "exampleUnmarshal homeManifest = Inr homeTree"
  "exampleUnmarshal sourceKeyManifest = Inr sourceKeyTree"
  "exampleUnmarshal skippedManifest = Inr skippedTree"
  by (simp_all add: exampleUnmarshal_def radioManifest_def escapeManifest_def homeManifest_def
      sourceKeyManifest_def skippedManifest_def)

lemma skipped_entries:
  "addFileEntries skippedTree =
     [YMap [(''path'', YStr ''/etc/shadow.copy''), (''source'', YStr ''/srv/../etc/shadow'')],
      YMap [(''source_path'', YStr ''/srv/../etc/shadow'')],
      YOther]"
  by (simp add: addFileEntries_def contentAddFiles_def qmAddFiles_def idx_def skippedTree_def)

lemma skipped_refs: "findLocalFileReferences exampleUnmarshal skippedManifest = Inr []"
  by (simp add: findLocalFileReferences_def exampleUnmarshal_simps skippedTree_def
      contentAddFiles_def qmAddFiles_def idx_def)

lemma example_entries:
  "addFileEntries escapeTree =
     [YMap [(''path'', YStr ''/etc/shadow.copy''), (''source_path'', YStr ''../../etc/shadow'')]]"
  "addFileEntries homeTree =
     [YMap [(''path'', YStr ''/etc/motd''), (''source_path'', YStr ''/home/user/motd'')]]"
  "addFileEntries sourceKeyTree = [sourceKeyEntry]"
  "addFileEntries radioTree =
     [YMap [(''path'', YStr ''/etc/containers/systemd/radio.container''),
            (''source_path'', YStr ''radio.container'')]]"
  by (simp_all add: addFileEntries_def contentAddFiles_def qmAddFiles_def idx_def escapeTree_def
      homeTree_def sourceKeyTree_def radioTree_def)

text \<open>
  C4, as the client has it. Preprocessing checks the source path of an add-file entry
  only when the entry decodes to a map with string keys that has a string \<open>path\<close> and a
  string \<open>source_path\<close>. For such an entry, at either place of the manifest, an absolute
  \<open>source_path\<close> makes preprocessing fail with a path error: the allow-list is empty, so
  \<open>isPathSafe\<close> rejects every absolute path, and with the error for absolute paths unless
  the path is the root or contains two dots.
\<close>

theorem C4_absolute_source_path_rejected:
  assumes "unm manifestContent = Inr manifestData"
    and "YMap fileMap \<in> set (addFileEntries manifestData)"
    and "asString (idx fileMap ''path'') = Some path"
    and "asString (idx fileMap ''source_path'') = Some sourcePath"
    and "IsAbs sourcePath"
  shows "safeDirectories = [] \<and> isPathSafe sourcePath \<noteq> None
    \<and> (sourcePath \<noteq> ''/'' \<and> \<not> Contains sourcePath ''..''
         \<longrightarrow> isPathSafe sourcePath = Some (AbsoluteOutsideSafeDirs sourcePath))
    \<and> (\<exists>e q. findLocalFileReferences unm manifestContent = Inl e \<and> isPathSafe q = Some e)"
proof -
  from assms(5) have unsafe: "isPathSafe sourcePath \<noteq> None" by (rule isPathSafe_abs)
  from findLocalFileReferences_unsafe [where unm = unm and doc = manifestContent,
      OF assms(1-4) unsafe] obtain e where
    e: "findLocalFileReferences unm manifestContent = Inl e" by blast
  from findLocalFileReferences_Inl [where unm = unm, OF assms(1) e]
  have "\<exists>q. isPathSafe q = Some e" by blast
  with e unsafe assms(5) show ?thesis
    by (auto simp: safeDirectories_def isPathSafe_abs_plain)
qed

theorem C4_absolute_source_path_rejected_witness:
  "exampleUnmarshal homeManifest = Inr homeTree
   \<and> YMap [(''path'', YStr ''/etc/motd''), (''source_path'', YStr ''/home/user/motd'')]
       \<in> set (addFileEntries homeTree)
   \<and> IsAbs ''/home/user/motd''
   \<and> isPathSafe ''/home/user/motd'' = Some (AbsoluteOutsideSafeDirs ''/home/user/motd'')
   \<and> (\<exists>e q. findLocalFileReferences exampleUnmarshal homeManifest = Inl e
          \<and> isPathSafe q = Some e)"
  using C4_absolute_source_path_rejected [of exampleUnmarshal homeManifest homeTree
      "[(''path'', YStr ''/etc/motd''), (''source_path'', YStr ''/home/user/motd'')]"
      "''/etc/motd''" "''/home/user/motd''"]
  by (simp add: exampleUnmarshal_simps example_entries idx_def IsAbs_def HasPrefix_def
      Contains_code)

text \<open>
  C4 as stated fails at the fifth manifest: an absolute source path under the key
  \<open>source\<close>, in an entry without \<open>path\<close>, or in an entry with a key that is not a string
  is not rejected; preprocessing returns no reference and no error.
\<close>

theorem C4_absolute_source_not_checked_counterexample:
  "IsAbs ''/srv/../etc/shadow''
   \<and> safeDirectories = []
   \<and> exampleUnmarshal skippedManifest = Inr skippedTree
   \<and> addFileEntries skippedTree =
       [YMap [(''path'', YStr ''/etc/shadow.copy''), (''source'', YStr ''/srv/../etc/shadow'')],
        YMap [(''source_path'', YStr ''/srv/../etc/shadow'')],
        YOther]
   \<and> findLocalFileReferences exampleUnmarshal skippedManifest = Inr []"
  by (simp add: IsAbs_def HasPrefix_def safeDirectories_def exampleUnmarshal_simps
      skipped_entries skipped_refs)

text \<open>
  C10. An add-file entry without a string \<open>source_path\<close> (the key is missing, as when
  \<open>source\<close> is used instead, or its value is not a string), without a string \<open>path\<close>,
  or that is no mapping at all, is skipped: processing a list with the entry gives what
  processing the list without it gives, whatever was collected so far, so the entry is
  neither checked nor recorded nor reported. A manifest with such entries only yields no
  reference and no error.
\<close>

theorem C10_entry_without_source_path_skipped:
  assumes "\<forall>fileMap. asMap entry = Some fileMap \<longrightarrow>
      asString (idx fileMap ''source_path'') = None \<or> asString (idx fileMap ''path'') = None"
  shows "processAddFiles localFiles (front @ entry # rest) =
           processAddFiles localFiles (front @ rest)
    \<and> (unm manifestContent = Inr manifestData \<and> addFileEntries manifestData = [entry]
         \<longrightarrow> findLocalFileReferences unm manifestContent = Inr [])"
proof -
  have "findLocalFileReferences unm manifestContent = Inr []"
    if "unm manifestContent = Inr manifestData" "addFileEntries manifestData = [entry]"
    using that assms
    by (intro findLocalFileReferences_all_skipped [where unm = unm and md = manifestData]) auto
  with processAddFiles_skip [OF assms] show ?thesis by blast
qed

theorem C10_entry_without_source_path_skipped_witness:
  "asMap sourceKeyEntry =
     Some [(''path'', YStr ''/etc/passwd.copy''), (''source'', YStr ''../../etc/passwd'')]
   \<and> asString (idx [(''path'', YStr ''/etc/passwd.copy''), (''source'', YStr ''../../etc/passwd'')]
        ''source_path'') = None
   \<and> isPathSafe ''../../etc/passwd'' = Some (DirectoryTraversal ''../../etc/passwd'')
   \<and> processAddFiles [] ([] @ sourceKeyEntry # []) = processAddFiles [] ([] @ [])
   \<and> exampleUnmarshal sourceKeyManifest = Inr sourceKeyTree
   \<and> addFileEntries sourceKeyTree = [sourceKeyEntry]
   \<and> findLocalFileReferences exampleUnmarshal sourceKeyManifest = Inr []"
  using C10_entry_without_source_path_skipped [where entry = sourceKeyEntry
      and localFiles = "[]" and front = "[]" and rest = "[]" and unm = exampleUnmarshal
      and manifestContent = sourceKeyManifest and manifestData = sourceKeyTree]
  by (simp add: exampleUnmarshal_simps example_entries sourceKeyEntry_def idx_def
      isPathSafe_def Contains_code)

text \<open>
  When the flags, the server address, the manifest file and the five enumeration values
  pass, \<open>runBuild\<close> submits the build and only then looks at the manifest.
\<close>

lemma runBuild_submits:
  assumes "validateBuildRequirements w cfg = None" and "serverURL cfg \<noteq> ''''"
    and "newClient w (serverURL cfg) = None" and "ReadFile fs (manifest cfg) = Inr mb"
    and "ParseDistro w (distro cfg) = Inr pd" and "ParseTarget w (target cfg) = Inr pt"
    and "ParseArchitecture w (architecture cfg) = Inr pa"
    and "ParseExportFormat w (exportFormat cfg) = Inr pe" and "ParseMode w (mode cfg) = Inr pm"
  shows "runBuild w cfg now fs =
     (case CreateBuild w (makeRequest w cfg mb pd pt pa pe pm) now of
        (d, Inl e) \<Rightarrow>
          (Exit1 (CreateBuildError e), [EvCreateBuild (makeRequest w cfg mb pd pt pa pe pm)], fs)
      | (d, Inr resp) \<Rightarrow>
          pre [EvCreateBuild (makeRequest w cfg mb pd pt pa pe pm)]
            (afterCreate w cfg (RespName resp) mb (now + d) fs))"
  using assms by (simp add: runBuild_def Let_def)

text \<open>
  C2, as the client has it. Take a manifest with an add-file entry that preprocessing
  reads, that is an entry decoded to a map with string keys that has a string \<open>path\<close> and
  a string \<open>source_path\<close>, and let that \<open>source_path\<close> contain two dots. Then
  preprocessing fails with a path error. It runs after the build has been submitted: an
  invocation whose flags, server address, manifest file and enumeration values pass the
  checks made before the submission makes exactly one call, the \<open>CreateBuild\<close> call that
  carries the manifest as read, and then ends with status 1, with the path error when the
  build was accepted and with the error of the submission when it was refused. No poll, no
  upload and no download follows.
\<close>

theorem C2_traversal_fails_after_submission:
  assumes "validateBuildRequirements w cfg = None"
    and "serverURL cfg \<noteq> ''''"
    and "newClient w (serverURL cfg) = None"
    and "ReadFile fs (manifest cfg) = Inr manifestBytes"
    and "ParseDistro w (distro cfg) = Inr parsedDistro"
    and "ParseTarget w (target cfg) = Inr parsedTarget"
    and "ParseArchitecture w (architecture cfg) = Inr parsedArch"
    and "ParseExportFormat w (exportFormat cfg) = Inr parsedExportFormat"
    and "ParseMode w (mode cfg) = Inr parsedMode"
    and "yamlUnmarshal w manifestBytes = Inr manifestData"
    and "YMap fileMap \<in> set (addFileEntries manifestData)"
    and "asString (idx fileMap ''path'') = Some path"
    and "asString (idx fileMap ''source_path'') = Some (a @ ''..'' @ b)"
    and "req = makeRequest w cfg manifestBytes parsedDistro parsedTarget parsedArch
                 parsedExportFormat parsedMode"
  shows "\<exists>e q. findLocalFileReferences (yamlUnmarshal w) manifestBytes = Inl e
      \<and> isPathSafe q = Some e
      \<and> events (runBuild w cfg now fs) = [EvCreateBuild req]
      \<and> Manifest req = manifestBytes
      \<and> (\<exists>x. exitStatus (runBuild w cfg now fs) = Exit1 x)
      \<and> (\<forall>d resp. CreateBuild w req now = (d, Inr resp)
            \<longrightarrow> exitStatus (runBuild w cfg now fs) = Exit1 (ManifestFileReferenceError e))
      \<and> (\<forall>d x. CreateBuild w req now = (d, Inl x)
            \<longrightarrow> exitStatus (runBuild w cfg now fs) = Exit1 (CreateBuildError x))"
proof -
  from findLocalFileReferences_unsafe [where unm = "yamlUnmarshal w" and doc = manifestBytes,
      OF assms(10-13) isPathSafe_traversal] obtain e where
    e: "findLocalFileReferences (yamlUnmarshal w) manifestBytes = Inl e" by blast
  from findLocalFileReferences_Inl [where unm = "yamlUnmarshal w", OF assms(10) e] obtain q where
    q: "isPathSafe q = Some e" by blast
  have m: "Manifest req = manifestBytes" by (simp add: assms(14) makeRequest_def)
  note run = runBuild_submits [OF assms(1-9), of now, folded assms(14)]
  obtain d res where c: "CreateBuild w req now = (d, res)" by (cases "CreateBuild w req now")
  have "events (runBuild w cfg now fs) = [EvCreateBuild req]
      \<and> (\<exists>x. exitStatus (runBuild w cfg now fs) = Exit1 x)
      \<and> (\<forall>d resp. CreateBuild w req now = (d, Inr resp)
            \<longrightarrow> exitStatus (runBuild w cfg now fs) = Exit1 (ManifestFileReferenceError e))
      \<and> (\<forall>d x. CreateBuild w req now = (d, Inl x)
            \<longrightarrow> exitStatus (runBuild w cfg now fs) = Exit1 (CreateBuildError x))"
  proof (cases res)
    case (Inl x)
    with c run show ?thesis by (simp add: events_def exitStatus_def)
  next
    case (Inr resp)
    with c run afterCreate_rejected [OF e] show ?thesis
      by (simp add: events_def exitStatus_def pre_def)
  qed
  with e q m show ?thesis by blast
qed

theorem C2_traversal_fails_after_submission_witness:
  "validateBuildRequirements exampleWorld exampleConfig = None
   \<and> serverURL exampleConfig \<noteq> ''''
   \<and> ReadFile escapeStore (manifest exampleConfig) = Inr escapeManifest
   \<and> yamlUnmarshal exampleWorld escapeManifest = Inr escapeTree
   \<and> YMap [(''path'', YStr ''/etc/shadow.copy''), (''source_path'', YStr ''../../etc/shadow'')]
       \<in> set (addFileEntries escapeTree)
   \<and> ''../../etc/shadow'' = [] @ ''..'' @ ''/../etc/shadow''
   \<and> (\<exists>e q. findLocalFileReferences (yamlUnmarshal exampleWorld) escapeManifest = Inl e
        \<and> isPathSafe q = Some e
        \<and> events (runBuild exampleWorld exampleConfig 0 escapeStore)
            = [EvCreateBuild (exampleRequest escapeManifest)]
        \<and> Manifest (exampleRequest escapeManifest) = escapeManifest
        \<and> exitStatus (runBuild exampleWorld exampleConfig 0 escapeStore)
            = Exit1 (ManifestFileReferenceError e))"
proof -
  have rd: "ReadFile escapeStore (manifest exampleConfig) = Inr escapeManifest"
    by (simp add: exampleConfig_fields ReadFile_def nodeAt_examples escapeStore_def)
  have url: "serverURL exampleConfig \<noteq> ''''" by (simp add: exampleConfig_fields)
  have en: "YMap [(''path'', YStr ''/etc/shadow.copy''), (''source_path'', YStr ''../../etc/shadow'')]
       \<in> set (addFileEntries escapeTree)"
    by (simp add: example_entries)
  have um: "yamlUnmarshal exampleWorld escapeManifest = Inr escapeTree"
    by (simp add: exampleWorld_fields exampleUnmarshal_simps)
  have p: "asString (idx [(''path'', YStr ''/etc/shadow.copy''),
        (''source_path'', YStr ''../../etc/shadow'')] ''path'') = Some ''/etc/shadow.copy''"
    by (simp add: idx_def)
  have sp: "asString (idx [(''path'', YStr ''/etc/shadow.copy''),
        (''source_path'', YStr ''../../etc/shadow'')] ''source_path'')
      = Some ([] @ ''..'' @ ''/../etc/shadow'')"
    by (simp add: idx_def)
  have rq: "exampleRequest escapeManifest
      = makeRequest exampleWorld exampleConfig escapeManifest (distro exampleConfig)
          (target exampleConfig) (architecture exampleConfig) (exportFormat exampleConfig)
          (mode exampleConfig)"
    by (simp add: exampleConfig_fields example_request)
  have cb: "CreateBuild exampleWorld (exampleRequest escapeManifest) 0
      = (0, Inr \<lparr>RespName = Name (exampleRequest escapeManifest), Phase = ''Accepted'',
                 Message = ''''\<rparr>)"
    by (simp add: exampleWorld_fields)
  from C2_traversal_fails_after_submission [where w = exampleWorld and cfg = exampleConfig
      and fs = escapeStore and now = 0 and req = "exampleRequest escapeManifest",
      OF example_validate url exampleWorld_fields(2) rd exampleWorld_fields(3)
        exampleWorld_fields(4) exampleWorld_fields(5) exampleWorld_fields(6)
        exampleWorld_fields(7) um en p sp rq]
  obtain e q where
    r: "findLocalFileReferences (yamlUnmarshal exampleWorld) escapeManifest = Inl e"
      "isPathSafe q = Some e"
      "events (runBuild exampleWorld exampleConfig 0 escapeStore)
         = [EvCreateBuild (exampleRequest escapeManifest)]"
      "Manifest (exampleRequest escapeManifest) = escapeManifest"
      "\<forall>d resp. CreateBuild exampleWorld (exampleRequest escapeManifest) 0 = (d, Inr resp)
          \<longrightarrow> exitStatus (runBuild exampleWorld exampleConfig 0 escapeStore)
                = Exit1 (ManifestFileReferenceError e)"
    by meson
  from r(5) cb have ex: "exitStatus (runBuild exampleWorld exampleConfig 0 escapeStore)
      = Exit1 (ManifestFileReferenceError e)"
    by meson
  have "\<exists>e q. findLocalFileReferences (yamlUnmarshal exampleWorld) escapeManifest = Inl e
        \<and> isPathSafe q = Some e
        \<and> events (runBuild exampleWorld exampleConfig 0 escapeStore)
            = [EvCreateBuild (exampleRequest escapeManifest)]
        \<and> Manifest (exampleRequest escapeManifest) = escapeManifest
        \<and> exitStatus (runBuild exampleWorld exampleConfig 0 escapeStore)
            = Exit1 (ManifestFileReferenceError e)"
    using r(1-4) ex by (intro exI [of _ e] exI [of _ q] conjI)
  with example_validate [of exampleWorld] url rd um en show ?thesis by simp
qed

text \<open>
  C2 as stated fails twice. At the second manifest the invocation has made a call, the
  submission, when the path error is found. At the fifth manifest a source path with two
  dots under the key \<open>source\<close>, in an entry without \<open>path\<close>, or in an entry with a key
  that is not a string makes nothing fail.
\<close>

theorem C2_network_call_before_validation_counterexample:
  "Contains ''../../etc/shadow'' ''..''
   \<and> findLocalFileReferences (yamlUnmarshal exampleWorld) escapeManifest
       = Inl (DirectoryTraversal ''../../etc/shadow'')
   \<and> events (runBuild exampleWorld exampleConfig 0 escapeStore)
       = [EvCreateBuild (exampleRequest escapeManifest)]
   \<and> Contains ''/srv/../etc/shadow'' ''..''
   \<and> yamlUnmarshal exampleWorld skippedManifest = Inr skippedTree
   \<and> addFileEntries skippedTree =
       [YMap [(''path'', YStr ''/etc/shadow.copy''), (''source'', YStr ''/srv/../etc/shadow'')],
        YMap [(''source_path'', YStr ''/srv/../etc/shadow'')],
        YOther]
   \<and> findLocalFileReferences (yamlUnmarshal exampleWorld) skippedManifest = Inr []"
  by (simp add: exampleWorld_fields escape_refs escape_run events_def Contains_code
      exampleUnmarshal_simps skipped_entries skipped_refs)

subsection \<open>References and uploads\<close>

lemma processAddFiles_refs:
  "processAddFiles acc addFiles = Inr refs \<Longrightarrow>
   \<exists>new. refs = acc @ new \<and>
     (\<forall>r \<in> set new. \<exists>m p sp. YMap m \<in> set addFiles \<and> asString (idx m ''path'') = Some p
        \<and> asString (idx m ''source_path'') = Some sp \<and> isPathSafe sp = None
        \<and> r = [(''path'', p), (''source_path'', sp)])"
proof (induction addFiles arbitrary: acc)
  case Nil
  then show ?case by simp
next
  case (Cons f addFiles)
  show ?case
  proof (cases "\<exists>m p sp. f = YMap m \<and> asString (idx m ''path'') = Some p
      \<and> asString (idx m ''source_path'') = Some sp")
    case True
    then obtain m p sp where f: "f = YMap m" "asString (idx m ''path'') = Some p"
      "asString (idx m ''source_path'') = Some sp" by auto
    with Cons.prems have safe: "isPathSafe sp = None"
      and rest: "processAddFiles (acc @ [[(''path'', p), (''source_path'', sp)]]) addFiles = Inr refs"
      by (auto split: option.splits)
    from Cons.IH [OF rest] obtain new where
      new: "refs = (acc @ [[(''path'', p), (''source_path'', sp)]]) @ new"
        "\<forall>r \<in> set new. \<exists>m p sp. YMap m \<in> set addFiles \<and> asString (idx m ''path'') = Some p
          \<and> asString (idx m ''source_path'') = Some sp \<and> isPathSafe sp = None
          \<and> r = [(''path'', p), (''source_path'', sp)]"
      by auto
    have "\<forall>r \<in> set ([(''path'', p), (''source_path'', sp)] # new).
        \<exists>m p sp. YMap m \<in> set (f # addFiles) \<and> asString (idx m ''path'') = Some p
          \<and> asString (idx m ''source_path'') = Some sp \<and> isPathSafe sp = None
          \<and> r = [(''path'', p), (''source_path'', sp)]"
    proof
      fix r
      assume r: "r \<in> set ([(''path'', p), (''source_path'', sp)] # new)"
      show "\<exists>m p sp. YMap m \<in> set (f # addFiles) \<and> asString (idx m ''path'') = Some p
          \<and> asString (idx m ''source_path'') = Some sp \<and> isPathSafe sp = None
          \<and> r = [(''path'', p), (''source_path'', sp)]"
      proof (cases "r \<in> set new")
        case True
        with new(2) obtain m' p' sp' where "YMap m' \<in> set addFiles"
          "asString (idx m' ''path'') = Some p'" "asString (idx m' ''source_path'') = Some sp'"
          "isPathSafe sp' = None" "r = [(''path'', p'), (''source_path'', sp')]"
          by meson
        then show ?thesis by (intro exI [of _ m'] exI [of _ p'] exI [of _ sp']) simp
      next
        case False
        with r have "r = [(''path'', p), (''source_path'', sp)]" by simp
        with f safe show ?thesis by (intro exI [of _ m] exI [of _ p] exI [of _ sp]) simp
      qed
    qed
    with new(1) show ?thesis
      by (intro exI [of _ "[(''path'', p), (''source_path'', sp)] # new"]) simp
  next
    case False
    with Cons.prems have rest: "processAddFiles acc addFiles = Inr refs"
      by (cases f) (auto split: option.splits)
    from Cons.IH [OF rest] obtain new where
      new: "refs = acc @ new"
        "\<forall>r \<in> set new. \<exists>m p sp. YMap m \<in> set addFiles \<and> asString (idx m ''path'') = Some p
          \<and> asString (idx m ''source_path'') = Some sp \<and> isPathSafe sp = None
          \<and> r = [(''path'', p), (''source_path'', sp)]"
      by auto
    have "\<forall>r \<in> set new. \<exists>m p sp. YMap m \<in> set (f # addFiles)
          \<and> asString (idx m ''path'') = Some p
          \<and> asString (idx m ''source_path'') = Some sp \<and> isPathSafe sp = None
          \<and> r = [(''path'', p), (''source_path'', sp)]"
    proof
      fix r
      assume "r \<in> set new"
      with new(2) obtain m' p' sp' where "YMap m' \<in> set addFiles"
        "asString (idx m' ''path'') = Some p'" "asString (idx m' ''source_path'') = Some sp'"
        "isPathSafe sp' = None" "r = [(''path'', p'), (''source_path'', sp')]"
        by meson
      then show "\<exists>m p sp. YMap m \<in> set (f # addFiles) \<and> asString (idx m ''path'') = Some p
          \<and> asString (idx m ''source_path'') = Some sp \<and> isPathSafe sp = None
          \<and> r = [(''path'', p), (''source_path'', sp)]"
        by (intro exI [of _ m'] exI [of _ p'] exI [of _ sp']) simp
    qed
    with new(1) show ?thesis by (intro exI [of _ new]) simp
  qed
qed

text \<open>Every reference comes from an add-file entry and carries its two strings as written.\<close>

lemma findLocalFileReferences_refs:
  assumes ok: "findLocalFileReferences unm doc = Inr refs" and r: "r \<in> set refs"
  shows "\<exists>md m p sp. unm doc = Inr md \<and> YMap m \<in> set (addFileEntries md)
      \<and> asString (idx m ''path'') = Some p \<and> asString (idx m ''source_path'') = Some sp
      \<and> isPathSafe sp = None \<and> r = [(''path'', p), (''source_path'', sp)]"
proof -
  from ok obtain md where md: "unm doc = Inr md"
    by (cases "unm doc") (simp_all add: findLocalFileReferences_def)
  define c where "c = (case contentAddFiles md of None \<Rightarrow> [] | Some l \<Rightarrow> l)"
  define q where "q = (case qmAddFiles md of None \<Rightarrow> [] | Some l \<Rightarrow> l)"
  have entries: "addFileEntries md = c @ q" by (simp add: addFileEntries_def c_def q_def)
  from ok md obtain lf where
    lf: "processAddFiles [] c = Inr lf" "processAddFiles lf q = Inr refs"
    by (auto simp: findLocalFileReferences_def c_def q_def split: option.splits sum.splits)
  from processAddFiles_refs [OF lf(1)] have
    first: "\<forall>r \<in> set lf. \<exists>m p sp. YMap m \<in> set c \<and> asString (idx m ''path'') = Some p
        \<and> asString (idx m ''source_path'') = Some sp \<and> isPathSafe sp = None
        \<and> r = [(''path'', p), (''source_path'', sp)]"
    by simp
  from processAddFiles_refs [OF lf(2)] obtain new where
    new: "refs = lf @ new"
      "\<forall>r \<in> set new. \<exists>m p sp. YMap m \<in> set q \<and> asString (idx m ''path'') = Some p
        \<and> asString (idx m ''source_path'') = Some sp \<and> isPathSafe sp = None
        \<and> r = [(''path'', p), (''source_path'', sp)]"
    by auto
  from r new(1) have "r \<in> set lf \<or> r \<in> set new" by simp
  then obtain m p sp where "YMap m \<in> set c \<or> YMap m \<in> set q"
    "asString (idx m ''path'') = Some p" "asString (idx m ''source_path'') = Some sp"
    "isPathSafe sp = None" "r = [(''path'', p), (''source_path'', sp)]"
    using first new(2) by meson
  with md entries show ?thesis
    by (intro exI [of _ md] exI [of _ m] exI [of _ p] exI [of _ sp]) auto
qed

lemma makeUploads_nth:
  "length (makeUploads refs) = length refs \<and>
   (\<forall>i<length refs. SourcePath (makeUploads refs ! i) = ref (refs ! i) ''source_path''
       \<and> DestPath (makeUploads refs ! i) = ref (refs ! i) ''source_path'')"
  by (simp add: makeUploads_def)

lemma runBuild_uploads:
  assumes "EvUploadFiles name uploads res \<in> set (events (runBuild w cfg now fs))"
  shows "\<exists>mb refs. ReadFile fs (manifest cfg) = Inr mb
      \<and> findLocalFileReferences (yamlUnmarshal w) mb = Inr refs \<and> uploads = makeUploads refs"
proof -
  from runBuild_trace [of w cfg now fs] obtain R U W where
    t: "events (runBuild w cfg now fs) = R @ U @ W"
      "\<forall>e \<in> set R. \<not> isUploadFiles e" "\<forall>e \<in> set W. \<not> isUploadFiles e"
      "\<forall>e \<in> set U. \<exists>mb refs name res. ReadFile fs (manifest cfg) = Inr mb
            \<and> findLocalFileReferences (yamlUnmarshal w) mb = Inr refs
            \<and> e = EvUploadFiles name (makeUploads refs) res"
    by blast
  have up: "isUploadFiles (EvUploadFiles name uploads res)" by simp
  from assms t(1) have "EvUploadFiles name uploads res \<in> set R \<union> set U \<union> set W" by simp
  with t(2,3) up have "EvUploadFiles name uploads res \<in> set U" by blast
  with t(4) obtain mb refs name' res' where "ReadFile fs (manifest cfg) = Inr mb"
    "findLocalFileReferences (yamlUnmarshal w) mb = Inr refs"
    "EvUploadFiles name uploads res = EvUploadFiles name' (makeUploads refs) res'"
    by meson
  then show ?thesis by (intro exI [of _ mb] exI [of _ refs]) simp
qed

text \<open>
  C9. Every upload call of an invocation carries one pair for each reference that
  preprocessing produced from the manifest as read, in the same order, and both the source
  and the destination of the pair are the \<open>source_path\<close> of the reference, which is the
  string of the \<open>source_path\<close> field of an add-file entry of the manifest, unchanged.
\<close>

theorem C9_upload_destination_is_source_path:
  assumes "EvUploadFiles name uploads res \<in> set (events (runBuild w cfg now fs))"
  shows "\<exists>manifestBytes manifestData refs.
      ReadFile fs (manifest cfg) = Inr manifestBytes
      \<and> yamlUnmarshal w manifestBytes = Inr manifestData
      \<and> findLocalFileReferences (yamlUnmarshal w) manifestBytes = Inr refs
      \<and> length uploads = length refs
      \<and> (\<forall>i<length refs.
            SourcePath (uploads ! i) = ref (refs ! i) ''source_path''
            \<and> DestPath (uploads ! i) = ref (refs ! i) ''source_path''
            \<and> (\<exists>fileMap. YMap fileMap \<in> set (addFileEntries manifestData)
                  \<and> asString (idx fileMap ''source_path'')
                      = Some (ref (refs ! i) ''source_path'')))"
proof -
  from runBuild_uploads [OF assms] obtain mb refs where
    u: "ReadFile fs (manifest cfg) = Inr mb"
      "findLocalFileReferences (yamlUnmarshal w) mb = Inr refs" "uploads = makeUploads refs"
    by blast
  from u(2) obtain md where md: "yamlUnmarshal w mb = Inr md"
    by (cases "yamlUnmarshal w mb") (simp_all add: findLocalFileReferences_def)
  have "\<exists>fileMap. YMap fileMap \<in> set (addFileEntries md)
          \<and> asString (idx fileMap ''source_path'') = Some (ref (refs ! i) ''source_path'')"
    if "i < length refs" for i
  proof -
    from that have "refs ! i \<in> set refs" by simp
    from findLocalFileReferences_refs [where unm = "yamlUnmarshal w", OF u(2) this] md
    obtain m p sp where "YMap m \<in> set (addFileEntries md)"
      "asString (idx m ''source_path'') = Some sp"
      "refs ! i = [(''path'', p), (''source_path'', sp)]"
      by auto
    then show ?thesis by (intro exI [of _ m]) (simp add: ref_def)
  qed
  with u md makeUploads_nth [of refs] show ?thesis
    by (intro exI [of _ mb] exI [of _ md] exI [of _ refs]) simp
qed

theorem C9_upload_destination_is_source_path_witness:
  "EvUploadFiles ''my-build'' exampleUploads None
     \<in> set (events (runBuild exampleWorld exampleConfig 0 exampleStore))
   \<and> exampleUploads = [\<lparr>SourcePath = ''radio.container'', DestPath = ''radio.container''\<rparr>]
   \<and> (\<exists>manifestBytes manifestData refs.
        ReadFile exampleStore (manifest exampleConfig) = Inr manifestBytes
        \<and> yamlUnmarshal exampleWorld manifestBytes = Inr manifestData
        \<and> findLocalFileReferences (yamlUnmarshal exampleWorld) manifestBytes = Inr refs
        \<and> length exampleUploads = length refs
        \<and> (\<forall>i<length refs.
              SourcePath (exampleUploads ! i) = ref (refs ! i) ''source_path''
              \<and> DestPath (exampleUploads ! i) = ref (refs ! i) ''source_path''
              \<and> (\<exists>fileMap. YMap fileMap \<in> set (addFileEntries manifestData)
                    \<and> asString (idx fileMap ''source_path'')
                        = Some (ref (refs ! i) ''source_path''))))"
proof -
  have ev: "EvUploadFiles ''my-build'' exampleUploads None
      \<in> set (events (runBuild exampleWorld exampleConfig 0 exampleStore))"
    by (simp add: example_run events_def)
  from C9_upload_destination_is_source_path [OF ev] ev show ?thesis
    by (simp add: exampleUploads_def)
qed

subsection \<open>The manifest as submitted\<close>

text \<open>The build is submitted once: nothing that follows the submission submits again.\<close>

lemma readyLoop_no_create:
  "\<forall>e \<in> set (snd (snd (readyLoop w name deadline now))). \<not> isCreateBuild e"
proof (induction w name deadline now rule: readyLoop.induct)
  case (1 w name deadline now)
  show ?case
  proof (cases "deadline \<le> now")
    case True
    then show ?thesis by (simp add: readyLoop_timeout)
  next
    case False
    then have lt: "now < deadline" by simp
    obtain d res where g: "GetBuild w name now = (d, res)" by (cases "GetBuild w name now")
    show ?thesis
    proof (cases res)
      case (Inl e)
      from "1.IH"(1) [OF False g [symmetric] Inl] lt g Inl
      show ?thesis by (simp add: readyLoop_error emit_def)
    next
      case (Inr st)
      show ?thesis
      proof (cases "Phase st = ''Uploading'' \<or> Phase st = ''Failed''")
        case True
        with lt g Inr show ?thesis by (auto simp: readyLoop_uploading readyLoop_failed)
      next
        case other: False
        then have o: "Phase st \<noteq> ''Uploading''" "Phase st \<noteq> ''Failed''" by auto
        from "1.IH"(2) [OF False g [symmetric] Inr o] lt g Inr o
        show ?thesis by (simp add: readyLoop_other emit_def)
      qed
    qed
  qed
qed

lemma downloadLoop_no_create:
  "\<forall>e \<in> set (fst (snd (snd (downloadLoop w cfg ctxDone name outDir deadline now fs)))).
     \<not> isCreateBuild e"
proof (induction w cfg ctxDone name outDir deadline now fs rule: downloadLoop.induct)
  case (1 w cfg ctxDone name outDir deadline now fs)
  show ?case
  proof (cases "ctxDone now \<or> deadline < now")
    case True
    then show ?thesis by (simp add: downloadLoop_timeout)
  next
    case False
    then have c: "\<not> ctxDone now" and le: "now \<le> deadline" by auto
    obtain d res where g: "GetArtifact w name now = (d, res)"
      by (cases "GetArtifact w name now")
    show ?thesis
    proof (cases res)
      case None
      from "1.IH"(1) [OF False g [symmetric] None] c le g None
      show ?thesis by (simp add: downloadLoop_noresp emit4_def)
    next
      case (Some resp)
      show ?thesis
      proof (cases "StatusCode resp = 200")
        case True
        with c le g Some show ?thesis by (simp add: downloadLoop_ok)
      next
        case ne: False
        show ?thesis
        proof (cases "artifactNotReady w resp")
          case True
          from "1.IH"(2) [OF False g [symmetric] Some ne True] c le g Some ne True
          show ?thesis by (simp add: downloadLoop_notReady emit4_def)
        next
          case False
          with c le g Some ne show ?thesis by (simp add: downloadLoop_fatal)
        qed
      qed
    qed
  qed
qed

lemma downloadArtifactViaAPI_no_create:
  "\<forall>e \<in> set (fst (snd (snd (downloadArtifactViaAPI w cfg ctxDone name outDir now fs)))).
     \<not> isCreateBuild e"
  using downloadLoop_no_create
  by (auto simp: downloadArtifactViaAPI_def Let_def split: prod.splits option.splits)

lemma followStep_no_create:
  "followStep w name u follow now = (f, t1, evs1) \<Longrightarrow> \<forall>e \<in> set evs1. \<not> isCreateBuild e"
  by (auto simp: followStep_def split: if_splits prod.splits log_reply.splits)

lemma waitLoop_no_create:
  "\<forall>e \<in> set (events (waitLoop w cfg name u deadline picks nextTick follow now fs)).
     \<not> isCreateBuild e"
proof (induction w cfg name u deadline picks nextTick follow now fs rule: waitLoop.induct)
  case (1 w cfg name u deadline picks nextTick follow now fs)
  show ?case
  proof (cases "now < deadline \<and> now < nextTick")
    case True
    with "1.IH"(1) [OF True] show ?thesis by (simp add: waitLoop_blocked)
  next
    case nb: False
    show ?thesis
    proof (cases "deadline \<le> now \<and> (now < nextTick \<or> picks = [] \<or> hd picks)")
      case True
      then show ?thesis by (simp add: waitLoop_timeout events_def)
    next
      case nt: False
      obtain f t1 evs1 where fs: "followStep w name u follow now = (f, t1, evs1)"
        by (cases "followStep w name u follow now")
      note e1 = followStep_no_create [OF fs]
      obtain d res where g: "GetBuild w name t1 = (d, res)" by (cases "GetBuild w name t1")
      note step = waitLoop_tick [OF nb nt fs g]
      show ?thesis
      proof (cases res)
        case (Inl a)
        from "1.IH"(2) [OF nb nt fs [symmetric] refl g [symmetric] Inl] e1
        show ?thesis by (auto simp: step Inl pre_def events_def)
      next
        case (Inr st)
        show ?thesis
        proof (cases "Phase st = ''Completed'' \<or> Phase st = ''Failed''")
          case True
          with e1 downloadArtifactViaAPI_no_create [of w cfg background name "outputDir cfg"
              "t1 + d" fs]
          show ?thesis by (auto simp: step Inr events_def)
        next
          case False
          then have o: "Phase st \<noteq> ''Completed''" "Phase st \<noteq> ''Failed''" by auto
          from "1.IH"(3) [OF nb nt fs [symmetric] refl g [symmetric] Inr o] e1 o
          show ?thesis by (auto simp: step Inr pre_def events_def)
        qed
      qed
    qed
  qed
qed

lemma uploadLocalFiles_no_create:
  "\<forall>e \<in> set (snd (snd (uploadLocalFiles w name mb now fs))). \<not> isCreateBuild e"
proof -
  have u: "\<not> isCreateBuild e"
    if "uploadLoop w name ups deadline t = (r, t', evs)" "e \<in> set evs"
    for ups deadline t r t' evs e
    using uploadLoop_events [OF that(1)] that(2) by auto
  show ?thesis
    using readyLoop_no_create [of w name "now + 600" now]
    by (auto simp: uploadLocalFiles_def split: sum.splits option.splits prod.splits dest: u)
qed

lemma afterCreate_no_create:
  "\<forall>e \<in> set (events (afterCreate w cfg name mb now fs)). \<not> isCreateBuild e"
proof -
  obtain r t evs where u: "uploadLocalFiles w name mb now fs = (r, t, evs)"
    by (cases "uploadLocalFiles w name mb now fs")
  from uploadLocalFiles_no_create [of w name mb now fs] u
  have a: "\<forall>e \<in> set evs. \<not> isCreateBuild e" by simp
  have b: "\<forall>e \<in> set (events (waitForCompletion w cfg name t fs)). \<not> isCreateBuild e"
    using waitLoop_no_create by (simp add: waitForCompletion_def events_def)
  from u a b show ?thesis
    by (cases r) (auto simp: afterCreate_def events_def pre_def)
qed

lemma runBuild_creates:
  assumes "EvCreateBuild req \<in> set (events (runBuild w cfg now fs))"
  shows "ReadFile fs (manifest cfg) = Inr (Manifest req)
    \<and> (\<exists>rest. events (runBuild w cfg now fs) = EvCreateBuild req # rest
          \<and> (\<forall>e \<in> set rest. \<not> isCreateBuild e))"
proof (cases w cfg now fs rule: runBuild_cases)
  case (early e)
  with assms show ?thesis by (simp add: events_def)
next
  case (rejected mb req' d e)
  with assms show ?thesis by (simp add: events_def)
next
  case (accepted mb req' d resp)
  have ev: "events (runBuild w cfg now fs)
      = EvCreateBuild req' # events (afterCreate w cfg (RespName resp) mb (now + d) fs)"
    by (simp add: accepted(4) events_def pre_def)
  note nc = afterCreate_no_create [of w cfg "RespName resp" mb "now + d" fs]
  have "req = req'"
  proof (rule ccontr)
    assume "req \<noteq> req'"
    with assms ev have
      "EvCreateBuild req \<in> set (events (afterCreate w cfg (RespName resp) mb (now + d) fs))"
      by simp
    with nc have "\<not> isCreateBuild (EvCreateBuild req)" by (rule bspec)
    then show False by simp
  qed
  with accepted(1,2) ev nc show ?thesis by simp
qed

text \<open>A path that \<open>isPathSafe\<close> accepts is relative and has no two dots in it.\<close>

lemma isPathSafe_None:
  "isPathSafe p = None \<Longrightarrow> \<not> IsAbs p \<and> \<not> Contains p ''..'' \<and> p \<noteq> ''''"
  by (auto simp: isPathSafe_def safeDirectories_def split: if_splits)

text \<open>When preprocessing succeeds, every entry it reads has its reference.\<close>

lemma processAddFiles_keeps:
  "processAddFiles acc addFiles = Inr refs \<Longrightarrow> YMap m \<in> set addFiles \<Longrightarrow>
   asString (idx m ''path'') = Some p \<Longrightarrow> asString (idx m ''source_path'') = Some sp \<Longrightarrow>
   [(''path'', p), (''source_path'', sp)] \<in> set refs"
proof (induction addFiles arbitrary: acc)
  case Nil
  then show ?case by simp
next
  case (Cons f addFiles)
  show ?case
  proof (cases "f = YMap m")
    case True
    with Cons.prems have
      rest: "processAddFiles (acc @ [[(''path'', p), (''source_path'', sp)]]) addFiles = Inr refs"
      by (auto split: option.splits)
    from processAddFiles_refs [OF rest] obtain new where
      "refs = (acc @ [[(''path'', p), (''source_path'', sp)]]) @ new
       \<and> (\<forall>r \<in> set new. \<exists>m p sp. YMap m \<in> set addFiles \<and> asString (idx m ''path'') = Some p
            \<and> asString (idx m ''source_path'') = Some sp \<and> isPathSafe sp = None
            \<and> r = [(''path'', p), (''source_path'', sp)])" ..
    then show ?thesis by simp
  next
    case False
    with Cons.prems(2) have inr: "YMap m \<in> set addFiles" by simp
    from Cons.prems(1) obtain acc' where "processAddFiles acc' addFiles = Inr refs"
      by (cases f) (auto split: option.splits)
    from Cons.IH [OF this inr Cons.prems(3,4)] show ?thesis .
  qed
qed

lemma findLocalFileReferences_keeps:
  assumes ok: "findLocalFileReferences unm doc = Inr refs" and md: "unm doc = Inr md"
    and f: "YMap m \<in> set (addFileEntries md)"
    and p: "asString (idx m ''path'') = Some p"
    and sp: "asString (idx m ''source_path'') = Some sp"
  shows "[(''path'', p), (''source_path'', sp)] \<in> set refs"
proof -
  define c where "c = (case contentAddFiles md of None \<Rightarrow> [] | Some l \<Rightarrow> l)"
  define q where "q = (case qmAddFiles md of None \<Rightarrow> [] | Some l \<Rightarrow> l)"
  have entries: "addFileEntries md = c @ q" by (simp add: addFileEntries_def c_def q_def)
  from ok md obtain lf where
    lf: "processAddFiles [] c = Inr lf" "processAddFiles lf q = Inr refs"
    by (auto simp: findLocalFileReferences_def c_def q_def split: option.splits sum.splits)
  from processAddFiles_refs [OF lf(2)] obtain new where
    "refs = lf @ new
     \<and> (\<forall>r \<in> set new. \<exists>m p sp. YMap m \<in> set q \<and> asString (idx m ''path'') = Some p
          \<and> asString (idx m ''source_path'') = Some sp \<and> isPathSafe sp = None
          \<and> r = [(''path'', p), (''source_path'', sp)])" ..
  then have new: "refs = lf @ new" by (rule conjunct1)
  from f entries have "YMap m \<in> set c \<or> YMap m \<in> set q" by simp
  then show ?thesis
  proof
    assume "YMap m \<in> set c"
    from processAddFiles_keeps [OF lf(1) this p sp] new show ?thesis by simp
  next
    assume "YMap m \<in> set q"
    from processAddFiles_keeps [OF lf(2) this p sp] show ?thesis .
  qed
qed

text \<open>
  C1, as the client has it. For every add-file entry whose relative source path
  preprocessing accepts, the value is kept as written: every reference carries the
  \<open>path\<close> and the \<open>source_path\<close> strings of an entry of the manifest unchanged, that
  \<open>source_path\<close> is a relative path, and every entry that preprocessing reads has such a
  reference. The client rewrites nothing: the manifest in the \<open>CreateBuild\<close> request,
  which is the first call of the invocation and the only submission, is the text of the
  manifest file as read; and an invocation whose flags, server address, manifest file and
  enumeration values pass the checks made before the submission does submit it.
\<close>

theorem C1_source_path_kept_as_written:
  "(\<forall>refs r. findLocalFileReferences (yamlUnmarshal w) manifestBytes = Inr refs \<and> r \<in> set refs
        \<longrightarrow> (\<exists>manifestData fileMap path sourcePath.
               yamlUnmarshal w manifestBytes = Inr manifestData
               \<and> YMap fileMap \<in> set (addFileEntries manifestData)
               \<and> asString (idx fileMap ''path'') = Some path
               \<and> asString (idx fileMap ''source_path'') = Some sourcePath
               \<and> r = [(''path'', path), (''source_path'', sourcePath)]
               \<and> ref r ''source_path'' = sourcePath
               \<and> \<not> IsAbs sourcePath))
   \<and> (\<forall>refs manifestData fileMap path sourcePath.
          findLocalFileReferences (yamlUnmarshal w) manifestBytes = Inr refs
          \<and> yamlUnmarshal w manifestBytes = Inr manifestData
          \<and> YMap fileMap \<in> set (addFileEntries manifestData)
          \<and> asString (idx fileMap ''path'') = Some path
          \<and> asString (idx fileMap ''source_path'') = Some sourcePath
        \<longrightarrow> [(''path'', path), (''source_path'', sourcePath)] \<in> set refs
            \<and> \<not> IsAbs sourcePath)
   \<and> (\<forall>req. EvCreateBuild req \<in> set (events (runBuild w cfg now fs))
        \<longrightarrow> ReadFile fs (manifest cfg) = Inr (Manifest req)
            \<and> (\<exists>rest. events (runBuild w cfg now fs) = EvCreateBuild req # rest
                  \<and> (\<forall>e \<in> set rest. \<not> isCreateBuild e)))
   \<and> (validateBuildRequirements w cfg = None \<and> serverURL cfg \<noteq> ''''
        \<and> newClient w (serverURL cfg) = None
        \<and> ReadFile fs (manifest cfg) = Inr manifestBytes
        \<and> ParseDistro w (distro cfg) = Inr parsedDistro
        \<and> ParseTarget w (target cfg) = Inr parsedTarget
        \<and> ParseArchitecture w (architecture cfg) = Inr parsedArch
        \<and> ParseExportFormat w (exportFormat cfg) = Inr parsedExportFormat
        \<and> ParseMode w (mode cfg) = Inr parsedMode
        \<longrightarrow> (\<exists>req rest. events (runBuild w cfg now fs) = EvCreateBuild req # rest
               \<and> Manifest req = manifestBytes))"
proof -
  have d: "\<exists>req rest. events (runBuild w cfg now fs) = EvCreateBuild req # rest
               \<and> Manifest req = manifestBytes"
    if h: "validateBuildRequirements w cfg = None \<and> serverURL cfg \<noteq> ''''
        \<and> newClient w (serverURL cfg) = None
        \<and> ReadFile fs (manifest cfg) = Inr manifestBytes
        \<and> ParseDistro w (distro cfg) = Inr parsedDistro
        \<and> ParseTarget w (target cfg) = Inr parsedTarget
        \<and> ParseArchitecture w (architecture cfg) = Inr parsedArch
        \<and> ParseExportFormat w (exportFormat cfg) = Inr parsedExportFormat
        \<and> ParseMode w (mode cfg) = Inr parsedMode"
  proof -
    define req where "req = makeRequest w cfg manifestBytes parsedDistro parsedTarget parsedArch
        parsedExportFormat parsedMode"
    have m: "Manifest req = manifestBytes" by (simp add: req_def makeRequest_def)
    from h have run: "runBuild w cfg now fs =
       (case CreateBuild w req now of
          (d, Inl e) \<Rightarrow> (Exit1 (CreateBuildError e), [EvCreateBuild req], fs)
        | (d, Inr resp) \<Rightarrow>
            pre [EvCreateBuild req] (afterCreate w cfg (RespName resp) manifestBytes (now + d) fs))"
      unfolding req_def by (intro runBuild_submits) simp_all
    obtain t res where c: "CreateBuild w req now = (t, res)" by (cases "CreateBuild w req now")
    have "\<exists>rest. events (runBuild w cfg now fs) = EvCreateBuild req # rest"
      by (cases res) (simp_all add: run c events_def pre_def)
    with m show ?thesis by (intro exI [of _ req]) simp
  qed
  have a: "\<exists>manifestData fileMap path sourcePath.
               yamlUnmarshal w manifestBytes = Inr manifestData
               \<and> YMap fileMap \<in> set (addFileEntries manifestData)
               \<and> asString (idx fileMap ''path'') = Some path
               \<and> asString (idx fileMap ''source_path'') = Some sourcePath
               \<and> r = [(''path'', path), (''source_path'', sourcePath)]
               \<and> ref r ''source_path'' = sourcePath
               \<and> \<not> IsAbs sourcePath"
    if h: "findLocalFileReferences (yamlUnmarshal w) manifestBytes = Inr refs \<and> r \<in> set refs"
    for refs r
  proof -
    from h have h1: "findLocalFileReferences (yamlUnmarshal w) manifestBytes = Inr refs"
      and h2: "r \<in> set refs" by simp_all
    from findLocalFileReferences_refs [where unm = "yamlUnmarshal w", OF h1 h2]
    obtain md where "\<exists>m p sp. yamlUnmarshal w manifestBytes = Inr md
        \<and> YMap m \<in> set (addFileEntries md) \<and> asString (idx m ''path'') = Some p
        \<and> asString (idx m ''source_path'') = Some sp \<and> isPathSafe sp = None
        \<and> r = [(''path'', p), (''source_path'', sp)]" ..
    then obtain m where "\<exists>p sp. yamlUnmarshal w manifestBytes = Inr md
        \<and> YMap m \<in> set (addFileEntries md) \<and> asString (idx m ''path'') = Some p
        \<and> asString (idx m ''source_path'') = Some sp \<and> isPathSafe sp = None
        \<and> r = [(''path'', p), (''source_path'', sp)]" ..
    then obtain p where "\<exists>sp. yamlUnmarshal w manifestBytes = Inr md
        \<and> YMap m \<in> set (addFileEntries md) \<and> asString (idx m ''path'') = Some p
        \<and> asString (idx m ''source_path'') = Some sp \<and> isPathSafe sp = None
        \<and> r = [(''path'', p), (''source_path'', sp)]" ..
    then obtain sp where kk: "yamlUnmarshal w manifestBytes = Inr md
        \<and> YMap m \<in> set (addFileEntries md) \<and> asString (idx m ''path'') = Some p
        \<and> asString (idx m ''source_path'') = Some sp \<and> isPathSafe sp = None
        \<and> r = [(''path'', p), (''source_path'', sp)]" ..
    then have k: "yamlUnmarshal w manifestBytes = Inr md" "YMap m \<in> set (addFileEntries md)"
        "asString (idx m ''path'') = Some p" "asString (idx m ''source_path'') = Some sp"
        "isPathSafe sp = None" "r = [(''path'', p), (''source_path'', sp)]"
      by simp_all
    from k(5) have "\<not> IsAbs sp" by (simp add: isPathSafe_None)
    moreover from k(6) have "ref r ''source_path'' = sp" by (simp add: ref_def)
    ultimately show ?thesis using k(1-4,6)
      by (intro exI [of _ md] exI [of _ m] exI [of _ p] exI [of _ sp]) simp
  qed
  have b: "[(''path'', path), (''source_path'', sourcePath)] \<in> set refs \<and> \<not> IsAbs sourcePath"
    if h: "findLocalFileReferences (yamlUnmarshal w) manifestBytes = Inr refs
          \<and> yamlUnmarshal w manifestBytes = Inr manifestData
          \<and> YMap fileMap \<in> set (addFileEntries manifestData)
          \<and> asString (idx fileMap ''path'') = Some path
          \<and> asString (idx fileMap ''source_path'') = Some sourcePath"
    for refs manifestData fileMap path sourcePath
  proof -
    from h have h1: "findLocalFileReferences (yamlUnmarshal w) manifestBytes = Inr refs"
      and h2: "yamlUnmarshal w manifestBytes = Inr manifestData"
      and h3: "YMap fileMap \<in> set (addFileEntries manifestData)"
      and h4: "asString (idx fileMap ''path'') = Some path"
      and h5: "asString (idx fileMap ''source_path'') = Some sourcePath"
      by simp_all
    have safe: "isPathSafe sourcePath = None"
    proof (rule ccontr)
      assume "isPathSafe sourcePath \<noteq> None"
      from findLocalFileReferences_unsafe [where unm = "yamlUnmarshal w"
          and doc = manifestBytes, OF h2 h3 h4 h5 this] h1
      show False by simp
    qed
    from findLocalFileReferences_keeps [where unm = "yamlUnmarshal w", OF h1 h2 h3 h4 h5] safe
    show ?thesis by (simp add: isPathSafe_None)
  qed
  have c: "ReadFile fs (manifest cfg) = Inr (Manifest req)
            \<and> (\<exists>rest. events (runBuild w cfg now fs) = EvCreateBuild req # rest
                  \<and> (\<forall>e \<in> set rest. \<not> isCreateBuild e))"
    if "EvCreateBuild req \<in> set (events (runBuild w cfg now fs))" for req
    using that by (rule runBuild_creates)
  show ?thesis
  proof (intro conjI allI impI)
    fix refs r
    assume "findLocalFileReferences (yamlUnmarshal w) manifestBytes = Inr refs \<and> r \<in> set refs"
    then show "\<exists>manifestData fileMap path sourcePath.
               yamlUnmarshal w manifestBytes = Inr manifestData
               \<and> YMap fileMap \<in> set (addFileEntries manifestData)
               \<and> asString (idx fileMap ''path'') = Some path
               \<and> asString (idx fileMap ''source_path'') = Some sourcePath
               \<and> r = [(''path'', path), (''source_path'', sourcePath)]
               \<and> ref r ''source_path'' = sourcePath
               \<and> \<not> IsAbs sourcePath"
      by (rule a)
  next
    fix refs manifestData fileMap path sourcePath
    assume h: "findLocalFileReferences (yamlUnmarshal w) manifestBytes = Inr refs
          \<and> yamlUnmarshal w manifestBytes = Inr manifestData
          \<and> YMap fileMap \<in> set (addFileEntries manifestData)
          \<and> asString (idx fileMap ''path'') = Some path
          \<and> asString (idx fileMap ''source_path'') = Some sourcePath"
    from b [OF h] show "[(''path'', path), (''source_path'', sourcePath)] \<in> set refs"
      by (rule conjunct1)
    from b [OF h] show "\<not> IsAbs sourcePath" by (rule conjunct2)
  next
    fix req
    assume h: "EvCreateBuild req \<in> set (events (runBuild w cfg now fs))"
    from c [OF h] show "ReadFile fs (manifest cfg) = Inr (Manifest req)" by (rule conjunct1)
    from c [OF h] show "\<exists>rest. events (runBuild w cfg now fs) = EvCreateBuild req # rest
        \<and> (\<forall>e \<in> set rest. \<not> isCreateBuild e)"
      by (rule conjunct2)
  next
    assume "validateBuildRequirements w cfg = None \<and> serverURL cfg \<noteq> ''''
        \<and> newClient w (serverURL cfg) = None
        \<and> ReadFile fs (manifest cfg) = Inr manifestBytes
        \<and> ParseDistro w (distro cfg) = Inr parsedDistro
        \<and> ParseTarget w (target cfg) = Inr parsedTarget
        \<and> ParseArchitecture w (architecture cfg) = Inr parsedArch
        \<and> ParseExportFormat w (exportFormat cfg) = Inr parsedExportFormat
        \<and> ParseMode w (mode cfg) = Inr parsedMode"
    then show "\<exists>req rest. events (runBuild w cfg now fs) = EvCreateBuild req # rest
        \<and> Manifest req = manifestBytes"
      by (rule d)
  qed
qed

theorem C1_source_path_kept_as_written_witness:
  "findLocalFileReferences (yamlUnmarshal exampleWorld) radioManifest
     = Inr [[(''path'', ''/etc/containers/systemd/radio.container''),
             (''source_path'', ''radio.container'')]]
   \<and> (\<exists>manifestData fileMap path sourcePath.
         yamlUnmarshal exampleWorld radioManifest = Inr manifestData
         \<and> YMap fileMap \<in> set (addFileEntries manifestData)
         \<and> asString (idx fileMap ''path'') = Some path
         \<and> asString (idx fileMap ''source_path'') = Some sourcePath
         \<and> [(''path'', ''/etc/containers/systemd/radio.container''),
             (''source_path'', ''radio.container'')]
            = [(''path'', path), (''source_path'', sourcePath)]
         \<and> \<not> IsAbs sourcePath)
   \<and> EvCreateBuild (exampleRequest radioManifest)
       \<in> set (events (runBuild exampleWorld exampleConfig 0 exampleStore))
   \<and> ReadFile exampleStore (manifest exampleConfig)
       = Inr (Manifest (exampleRequest radioManifest))"
proof -
  let ?r = "[(''path'', ''/etc/containers/systemd/radio.container''),
             (''source_path'', ''radio.container'')]"
  note E = C1_source_path_kept_as_written [where w = exampleWorld
      and manifestBytes = radioManifest and cfg = exampleConfig and now = 0
      and fs = exampleStore]
  have refs: "findLocalFileReferences (yamlUnmarshal exampleWorld) radioManifest = Inr [?r]"
    by (simp add: exampleWorld_fields example_refs)
  have ev: "EvCreateBuild (exampleRequest radioManifest)
      \<in> set (events (runBuild exampleWorld exampleConfig 0 exampleStore))"
    by (simp add: example_run events_def)
  from E [THEN conjunct1, THEN spec, THEN spec, THEN mp, of "[?r]" ?r] refs
  have a: "\<exists>manifestData fileMap path sourcePath.
         yamlUnmarshal exampleWorld radioManifest = Inr manifestData
         \<and> YMap fileMap \<in> set (addFileEntries manifestData)
         \<and> asString (idx fileMap ''path'') = Some path
         \<and> asString (idx fileMap ''source_path'') = Some sourcePath
         \<and> ?r = [(''path'', path), (''source_path'', sourcePath)]
         \<and> \<not> IsAbs sourcePath"
    by simp meson
  from E [THEN conjunct2, THEN conjunct2, THEN conjunct1, THEN spec, THEN mp, OF ev]
  have b: "ReadFile exampleStore (manifest exampleConfig)
       = Inr (Manifest (exampleRequest radioManifest))"
    by (rule conjunct1)
  from refs a ev b show ?thesis by (intro conjI)
qed

text \<open>
  C1 as stated fails at the example of the operator guide. The relative \<open>source_path\<close>
  of the entry is accepted and stays as written, a path that is not absolute, and the
  manifest in the \<open>CreateBuild\<close> request, the first call of the invocation, is the text of
  the file.
\<close>

theorem C1_source_path_not_rewritten_counterexample:
  "findLocalFileReferences (yamlUnmarshal exampleWorld) radioManifest
     = Inr [[(''path'', ''/etc/containers/systemd/radio.container''),
             (''source_path'', ''radio.container'')]]
   \<and> \<not> IsAbs ''radio.container''
   \<and> hd (events (runBuild exampleWorld exampleConfig 0 exampleStore))
       = EvCreateBuild (exampleRequest radioManifest)
   \<and> Manifest (exampleRequest radioManifest) = radioManifest
   \<and> ReadFile exampleStore (manifest exampleConfig) = Inr radioManifest"
proof -
  have rd: "ReadFile exampleStore ''simple.aib.yml'' = Inr radioManifest"
    by (simp add: ReadFile_def nodeAt_examples exampleStore_def)
  show ?thesis
    by (simp add: exampleWorld_fields example_refs example_run events_def IsAbs_def
        HasPrefix_def exampleRequest_def exampleConfig_fields rd)
qed

subsection \<open>Exit status and temporary files\<close>

text \<open>
  Whenever a tick of the wait loop sees the Completed phase and a download was asked for,
  the loop ends with status 0, whatever the download returns.
\<close>

lemma completed_download_exits_zero:
  assumes "\<not> (now < deadline \<and> now < nextTick)"
    and "\<not> (deadline \<le> now \<and> (now < nextTick \<or> picks = [] \<or> hd picks))"
    and "followStep w name u follow now = (follow', t1, evs1)"
    and "GetBuild w name t1 = (d, Inr st)"
    and "Phase st = ''Completed''" and "download cfg"
  shows "exitStatus (waitLoop w cfg name u deadline picks nextTick follow now fs) = Exit0"
  using assms(5,6) by (simp add: waitLoop_tick [OF assms(1-4)] exitStatus_def)

text \<open>A copy that breaks off removes the temporary file and leaves the final path alone.\<close>

lemma saveArtifact_copy_failure:
  assumes "BodyError resp = Some e"
    and "fst (Create (Join outDir (artifactFileName name resp) @ ''.partial'') fs) = None"
  shows "fst (saveArtifact w cfg name outDir resp fs) = Some (CopyError e)
    \<and> snd (saveArtifact w cfg name outDir resp fs)
         (Clean (Join outDir (artifactFileName name resp) @ ''.partial'')) = None
    \<and> (\<forall>p. p \<noteq> Clean (Join outDir (artifactFileName name resp) @ ''.partial'')
          \<longrightarrow> snd (saveArtifact w cfg name outDir resp fs) p = fs p)"
proof -
  define tmp where "tmp = Join outDir (artifactFileName name resp) @ ''.partial''"
  have c: "Create tmp fs = (None, fs(Clean tmp \<mapsto> File ''''))"
    using assms(2) by (auto simp: Create_def tmp_def split: option.splits node.splits)
  have nd: "nodeAt fs tmp \<noteq> Some Dir"
    using assms(2) by (auto simp: Create_def tmp_def split: option.splits node.splits)
  then have "Clean tmp \<noteq> ''.'' \<and> Clean tmp \<noteq> ''/''"
    by (auto simp: nodeAt_def Let_def)
  then have at: "nodeAt (fs(Clean tmp \<mapsto> File b)) tmp = Some (File b)" for b
    by (simp add: nodeAt_def Let_def)
  from c assms(1) at show ?thesis
    by (simp add: saveArtifact_def Let_def tmp_def [symmetric] Remove_def copyTo_def)
qed

text \<open>
  C3, at the example run. The build reaches Completed at second 41, the download was asked
  for and fails with HTTP 500, and \<open>runBuild\<close> ends with status 0. The download command
  ends with status 1 on the same failure.
\<close>

theorem C3_failed_download_exits_zero:
  "download exampleConfig
   \<and> examplePoll 41 \<in> set (events (runBuild exampleWorld exampleConfig 0 exampleStore))
   \<and> examplePhase 41 = ''Completed''
   \<and> failure (downloadArtifactViaAPI exampleWorld exampleConfig background ''my-build''
        (outputDir exampleConfig) 41 exampleStore) = Some (HTTPError 500 ''boom'')
   \<and> exitStatus (runBuild exampleWorld exampleConfig 0 exampleStore) = Exit0
   \<and> exitStatus (runDownload exampleWorld exampleConfig 41 exampleStore)
       = Exit1 (DownloadFailed (HTTPError 500 ''boom''))"
proof -
  have out: "exampleStore ''output'' = None"
    by (simp add: exampleStore_def)
  have d: "download exampleConfig" by (simp add: exampleConfig_def)
  show ?thesis
    by (simp add: d example_run example_runDownload events_def exitStatus_def failure_def
        exampleConfig_fields example_download [where fs = exampleStore, OF out]
        examplePhase_def)
qed

text \<open>
  C8, at a download whose final path is taken by a directory. The body is read to its end
  and written to the temporary file, the rename fails, and the function returns the error
  with the temporary file still in the store.
\<close>

theorem C8_temporary_file_left_when_rename_fails:
  "tarStore ''out/disk.tar.partial'' = None
   \<and> BodyError tarResponse = None
   \<and> failure (downloadArtifactViaAPI tarWorld exampleConfig background ''my-build'' ''out'' 0
        tarStore) = Some (OSError ''file exists'')
   \<and> storeAfter (downloadArtifactViaAPI tarWorld exampleConfig background ''my-build'' ''out'' 0
        tarStore) ''out/disk.tar.partial'' = Some (File ''TARDATA'')
   \<and> storeAfter (downloadArtifactViaAPI tarWorld exampleConfig background ''my-build'' ''out'' 0
        tarStore) ''out/disk.tar'' = Some Dir"
proof -
  have a: "tarStore ''out/disk.tar.partial'' = None" "tarStore ''out/disk.tar'' = Some Dir"
    by (simp_all add: tarStore_def)
  have b: "BodyError tarResponse = None" by (simp add: tarResponse_def)
  from a b show ?thesis
    by (simp add: tar_download failure_def storeAfter_def)
qed

subsection \<open>The readiness wait\<close>

lemma uploadLocalFiles_unfold:
  assumes "findLocalFileReferences (yamlUnmarshal w) mb = Inr refs" and "refs \<noteq> []"
    and "\<forall>r \<in> set refs. Stat fs (ref r ''source_path'') = None"
  shows "uploadLocalFiles w name mb now fs =
     (case readyLoop w name (now + 600) now of
        (Some e, t, evs) \<Rightarrow> (Some e, t, evs)
      | (None, t, evs) \<Rightarrow>
          (case uploadLoop w name (makeUploads refs) (t + 600) t of
             (r, t', evs') \<Rightarrow> (r, t', evs @ evs')))"
proof -
  from assms(3) have "find (\<lambda>r. Stat fs (ref r ''source_path'') \<noteq> None) refs = None"
    by (simp add: find_None_iff)
  with assms(1,2) show ?thesis by (simp add: uploadLocalFiles_def)
qed

lemma failedWorld_GetBuild:
  "GetBuild failedWorld name t =
     (0, Inr \<lparr>RespName = name, Phase = ''Failed'', Message = ''no capacity''\<rparr>)"
  by (simp add: failedWorld_def)

text \<open>
  C5. In every invocation an upload call comes only after a poll that saw the Uploading
  phase. In the readiness wait, whose deadline is 600 seconds after its start: a poll that
  sees Failed ends the wait at once with a fatal error and no further poll; a poll that
  sees any other phase but Uploading is followed by a sleep of three seconds and the next
  round; at or after the deadline the wait ends with the fatal timeout error, and it does
  so whenever neither Uploading nor Failed is ever seen; and an error of the wait ends the
  invocation with status 1 after the polls made so far.
\<close>

theorem C5_upload_only_after_uploading_phase:
  "(\<forall>xs e ys. events (runBuild w cfg now fs) = xs @ e # ys \<and> isUploadFiles e
        \<longrightarrow> (\<exists>g \<in> set xs. sawUploading g))
   \<and> (\<forall>t d st. t < start + 600 \<and> GetBuild w name t = (d, Inr st) \<and> Phase st = ''Failed''
        \<longrightarrow> readyLoop w name (start + 600) t
              = (Some (FailedWaitingForUpload (Message st)), t + d, [EvGetBuild name (Inr st)]))
   \<and> (\<forall>t d st. t < start + 600 \<and> GetBuild w name t = (d, Inr st)
          \<and> Phase st \<noteq> ''Uploading'' \<and> Phase st \<noteq> ''Failed''
        \<longrightarrow> readyLoop w name (start + 600) t
              = emit (EvGetBuild name (Inr st)) (readyLoop w name (start + 600) (t + d + 3)))
   \<and> (\<forall>t. start + 600 \<le> t
        \<longrightarrow> readyLoop w name (start + 600) t = (Some UploadServerTimeout, t, []))
   \<and> ((\<forall>t d st. GetBuild w name t = (d, Inr st)
           \<longrightarrow> Phase st \<noteq> ''Uploading'' \<and> Phase st \<noteq> ''Failed'')
        \<longrightarrow> fst (readyLoop w name (start + 600) start) = Some UploadServerTimeout)
   \<and> (\<forall>refs e t evs. findLocalFileReferences (yamlUnmarshal w) mb = Inr refs \<and> refs \<noteq> []
          \<and> (\<forall>r \<in> set refs. Stat fs (ref r ''source_path'') = None)
          \<and> readyLoop w name (start + 600) start = (Some e, t, evs)
        \<longrightarrow> afterCreate w cfg name mb start fs = (Exit1 e, evs, fs))"
proof -
  have p1: "\<forall>xs e ys. events (runBuild w cfg now fs) = xs @ e # ys \<and> isUploadFiles e
        \<longrightarrow> (\<exists>g \<in> set xs. sawUploading g)"
  proof (intro allI impI)
    fix xs e ys
    assume h: "events (runBuild w cfg now fs) = xs @ e # ys \<and> isUploadFiles e"
    from runBuild_trace [of w cfg now fs] obtain R U W where
      t: "events (runBuild w cfg now fs) = R @ U @ W"
        "\<forall>e \<in> set R. \<not> isUploadFiles e" "\<forall>e \<in> set W. \<not> isUploadFiles e"
        "U \<noteq> [] \<longrightarrow> (\<exists>g \<in> set R. sawUploading g)"
      by blast
    from h have h1: "events (runBuild w cfg now fs) = xs @ e # ys" by (rule conjunct1)
    from h have h2: "isUploadFiles e" by (rule conjunct2)
    show "\<exists>g \<in> set xs. sawUploading g"
      by (rule uploads_after_ready [OF t h1 h2])
  qed
  have p2: "\<forall>t d st. t < start + 600 \<and> GetBuild w name t = (d, Inr st) \<and> Phase st = ''Failed''
        \<longrightarrow> readyLoop w name (start + 600) t
              = (Some (FailedWaitingForUpload (Message st)), t + d, [EvGetBuild name (Inr st)])"
  proof (intro allI impI)
    fix t d st
    assume "t < start + 600 \<and> GetBuild w name t = (d, Inr st) \<and> Phase st = ''Failed''"
    then show "readyLoop w name (start + 600) t
        = (Some (FailedWaitingForUpload (Message st)), t + d, [EvGetBuild name (Inr st)])"
      by (intro readyLoop_failed) simp_all
  qed
  have p3: "\<forall>t d st. t < start + 600 \<and> GetBuild w name t = (d, Inr st)
          \<and> Phase st \<noteq> ''Uploading'' \<and> Phase st \<noteq> ''Failed''
        \<longrightarrow> readyLoop w name (start + 600) t
              = emit (EvGetBuild name (Inr st)) (readyLoop w name (start + 600) (t + d + 3))"
  proof (intro allI impI)
    fix t d st
    assume "t < start + 600 \<and> GetBuild w name t = (d, Inr st)
          \<and> Phase st \<noteq> ''Uploading'' \<and> Phase st \<noteq> ''Failed''"
    then show "readyLoop w name (start + 600) t
        = emit (EvGetBuild name (Inr st)) (readyLoop w name (start + 600) (t + d + 3))"
      by (intro readyLoop_other) simp_all
  qed
  have p4: "\<forall>t. start + 600 \<le> t
        \<longrightarrow> readyLoop w name (start + 600) t = (Some UploadServerTimeout, t, [])"
    by (simp add: readyLoop_timeout)
  have p5: "(\<forall>t d st. GetBuild w name t = (d, Inr st)
           \<longrightarrow> Phase st \<noteq> ''Uploading'' \<and> Phase st \<noteq> ''Failed'')
        \<longrightarrow> fst (readyLoop w name (start + 600) start) = Some UploadServerTimeout"
    by (intro impI readyLoop_never)
  have p6: "\<forall>refs e t evs. findLocalFileReferences (yamlUnmarshal w) mb = Inr refs \<and> refs \<noteq> []
          \<and> (\<forall>r \<in> set refs. Stat fs (ref r ''source_path'') = None)
          \<and> readyLoop w name (start + 600) start = (Some e, t, evs)
        \<longrightarrow> afterCreate w cfg name mb start fs = (Exit1 e, evs, fs)"
  proof (intro allI impI)
    fix refs e t evs
    assume h: "findLocalFileReferences (yamlUnmarshal w) mb = Inr refs \<and> refs \<noteq> []
          \<and> (\<forall>r \<in> set refs. Stat fs (ref r ''source_path'') = None)
          \<and> readyLoop w name (start + 600) start = (Some e, t, evs)"
    then have "uploadLocalFiles w name mb start fs = (Some e, t, evs)"
      by (simp add: uploadLocalFiles_unfold [of w mb refs fs name start])
    then show "afterCreate w cfg name mb start fs = (Exit1 e, evs, fs)"
      by (simp add: afterCreate_def)
  qed
  show ?thesis by (intro conjI p1 p2 p3 p4 p5 p6)
qed

theorem C5_upload_only_after_uploading_phase_witness:
  "events (runBuild exampleWorld exampleConfig 0 exampleStore)
     = [EvCreateBuild (exampleRequest radioManifest), examplePoll 0, examplePoll 3, examplePoll 6]
       @ EvUploadFiles ''my-build'' exampleUploads (Some ''503 Service Unavailable'')
       # [EvUploadFiles ''my-build'' exampleUploads (Some ''503 Service Unavailable''),
          EvUploadFiles ''my-build'' exampleUploads (Some ''503 Service Unavailable''),
          EvUploadFiles ''my-build'' exampleUploads None,
          examplePoll 26, examplePoll 31, examplePoll 36, examplePoll 41,
          EvGetArtifact ''my-build''
            (Some \<lparr>StatusCode = 500, Header = [], Body = ''boom'', BodyError = None\<rparr>)]
   \<and> isUploadFiles (EvUploadFiles ''my-build'' exampleUploads (Some ''503 Service Unavailable''))
   \<and> (\<exists>g \<in> set [EvCreateBuild (exampleRequest radioManifest), examplePoll 0, examplePoll 3,
                  examplePoll 6]. sawUploading g)
   \<and> readyLoop failedWorld ''my-build'' 600 0
       = (Some (FailedWaitingForUpload ''no capacity''), 0,
          [EvGetBuild ''my-build''
             (Inr \<lparr>RespName = ''my-build'', Phase = ''Failed'', Message = ''no capacity''\<rparr>)])
   \<and> examplePhase 0 = ''Accepted''
   \<and> readyLoop exampleWorld ''my-build'' 600 0
       = emit (examplePoll 0) (readyLoop exampleWorld ''my-build'' 600 3)
   \<and> readyLoop exampleWorld ''my-build'' 600 600 = (Some UploadServerTimeout, 600, [])"
proof -
  let ?xs = "[EvCreateBuild (exampleRequest radioManifest), examplePoll 0, examplePoll 3,
              examplePoll 6]"
  let ?e = "EvUploadFiles ''my-build'' exampleUploads (Some ''503 Service Unavailable'')"
  let ?ys = "[EvUploadFiles ''my-build'' exampleUploads (Some ''503 Service Unavailable''),
          EvUploadFiles ''my-build'' exampleUploads (Some ''503 Service Unavailable''),
          EvUploadFiles ''my-build'' exampleUploads None,
          examplePoll 26, examplePoll 31, examplePoll 36, examplePoll 41,
          EvGetArtifact ''my-build''
            (Some \<lparr>StatusCode = 500, Header = [], Body = ''boom'', BodyError = None\<rparr>)]"
  note E = C5_upload_only_after_uploading_phase [where w = exampleWorld and cfg = exampleConfig
      and now = 0 and fs = exampleStore and start = 0 and name = "''my-build''"
      and mb = radioManifest]
  note F = C5_upload_only_after_uploading_phase [where w = failedWorld and cfg = exampleConfig
      and now = 0 and fs = exampleStore and start = 0 and name = "''my-build''"
      and mb = radioManifest]
  have ev: "events (runBuild exampleWorld exampleConfig 0 exampleStore) = ?xs @ ?e # ?ys"
    by (simp add: example_run events_def)
  have up: "isUploadFiles ?e" by simp
  from E [THEN conjunct1, rule_format, of ?xs ?e ?ys] ev up
  have a: "\<exists>g \<in> set ?xs. sawUploading g" by blast
  have b: "readyLoop failedWorld ''my-build'' 600 0
       = (Some (FailedWaitingForUpload ''no capacity''), 0,
          [EvGetBuild ''my-build''
             (Inr \<lparr>RespName = ''my-build'', Phase = ''Failed'', Message = ''no capacity''\<rparr>)])"
    using F [THEN conjunct2, THEN conjunct1, rule_format, of 0 0
        "\<lparr>RespName = ''my-build'', Phase = ''Failed'', Message = ''no capacity''\<rparr>"]
    by (simp add: failedWorld_GetBuild)
  have ph: "examplePhase 0 = ''Accepted''" by (simp add: examplePhase_def)
  have c: "readyLoop exampleWorld ''my-build'' 600 0
       = emit (examplePoll 0) (readyLoop exampleWorld ''my-build'' 600 3)"
    using E [THEN conjunct2, THEN conjunct2, THEN conjunct1, rule_format, of 0 0
        "\<lparr>RespName = ''my-build'', Phase = examplePhase 0, Message = ''''\<rparr>"]
    by (simp add: exampleWorld_GetBuild ph examplePoll_def)
  have d: "readyLoop exampleWorld ''my-build'' 600 600 = (Some UploadServerTimeout, 600, [])"
    using E [THEN conjunct2, THEN conjunct2, THEN conjunct2, THEN conjunct1, rule_format, of 600]
    by simp
  from ev up a b ph c d show ?thesis by (intro conjI)
qed

subsection \<open>The upload with retries\<close>

lemma busyWorld_UploadFiles:
  "UploadFiles busyWorld name ups t = (0, Some ''503 Service Unavailable'')"
  by (simp add: busyWorld_def)

lemma deniedWorld_UploadFiles:
  "UploadFiles deniedWorld name ups t = (0, Some ''403 Forbidden'')"
  by (simp add: deniedWorld_def)

lemma uploadNotReady_403: "\<not> uploadNotReady w ''403 Forbidden''"
  by (simp add: uploadNotReady_def ToLower_examples Contains_code)

text \<open>
  C6. In the upload loop, whose deadline is 600 seconds after its start: a failed call
  whose error text holds 503, service unavailable or upload pod not ready, and that
  returns by the deadline, is followed by a sleep of five seconds and the next call; the
  same failure returning after the deadline is fatal; any other failure is fatal at once,
  with no further call, before or after the deadline. Hence \<open>n\<close> such transient failures,
  each returning by the deadline, followed by a call that succeeds make the step succeed
  after \<open>n + 1\<close> calls. In \<open>runBuild\<close> the loop starts when the readiness wait has seen
  Uploading, with the pairs of all references in one batch; when the loop fails the
  invocation ends with status 1 after the calls made so far, and when it succeeds the
  invocation goes on to wait for the build.
\<close>

theorem C6_upload_retries_until_deadline:
  "(\<forall>e. uploadNotReady w e
        = (Contains (ToLower (unicode w) e) ''503'' \<or> Contains (ToLower (unicode w) e) ''service unavailable''
           \<or> Contains (ToLower (unicode w) e) ''upload pod not ready''))
   \<and> (\<forall>t d e. UploadFiles w name ups t = (d, Some e) \<and> uploadNotReady w e \<and> t + d \<le> start + 600
        \<longrightarrow> uploadLoop w name ups (start + 600) t
              = emit (EvUploadFiles name ups (Some e))
                  (uploadLoop w name ups (start + 600) (t + d + 5)))
   \<and> (\<forall>t d e. UploadFiles w name ups t = (d, Some e) \<and> start + 600 < t + d
        \<longrightarrow> uploadLoop w name ups (start + 600) t
              = (Some (UploadFilesFailed e), t + d, [EvUploadFiles name ups (Some e)]))
   \<and> (\<forall>t d e. UploadFiles w name ups t = (d, Some e) \<and> \<not> uploadNotReady w e
        \<longrightarrow> uploadLoop w name ups (start + 600) t
              = (Some (UploadFilesFailed e), t + d, [EvUploadFiles name ups (Some e)]))
   \<and> (\<forall>n T d'. T 0 = start
          \<and> (\<forall>k<n. \<exists>d e. UploadFiles w name ups (T k) = (d, Some e) \<and> uploadNotReady w e
                 \<and> T k + d \<le> start + 600 \<and> T (Suc k) = T k + d + 5)
          \<and> UploadFiles w name ups (T n) = (d', None)
        \<longrightarrow> fst (uploadLoop w name ups (start + 600) start) = None
            \<and> length (snd (snd (uploadLoop w name ups (start + 600) start))) = Suc n)
   \<and> (\<forall>refs evs. findLocalFileReferences (yamlUnmarshal w) mb = Inr refs \<and> refs \<noteq> []
          \<and> (\<forall>r \<in> set refs. Stat fs (ref r ''source_path'') = None)
          \<and> readyLoop w name (now + 600) now = (None, start, evs)
        \<longrightarrow> uploadLocalFiles w name mb now fs
              = (case uploadLoop w name (makeUploads refs) (start + 600) start of
                   (r, t', evs') \<Rightarrow> (r, t', evs @ evs')))
   \<and> (\<forall>refs evs. findLocalFileReferences (yamlUnmarshal w) mb = Inr refs \<and> refs \<noteq> []
          \<and> (\<forall>r \<in> set refs. Stat fs (ref r ''source_path'') = None)
          \<and> readyLoop w name (now + 600) now = (None, start, evs)
        \<longrightarrow> afterCreate w cfg name mb now fs
              = (case uploadLoop w name (makeUploads refs) (start + 600) start of
                   (Some e, t', evs') \<Rightarrow> (Exit1 e, evs @ evs', fs)
                 | (None, t', evs') \<Rightarrow>
                     pre (evs @ evs') (waitForCompletion w cfg name t' fs)))"
proof -
  have p1: "\<forall>e. uploadNotReady w e
        = (Contains (ToLower (unicode w) e) ''503'' \<or> Contains (ToLower (unicode w) e) ''service unavailable''
           \<or> Contains (ToLower (unicode w) e) ''upload pod not ready'')"
    by (simp add: uploadNotReady_def Let_def)
  have p2: "\<forall>t d e. UploadFiles w name ups t = (d, Some e) \<and> uploadNotReady w e
          \<and> t + d \<le> start + 600
        \<longrightarrow> uploadLoop w name ups (start + 600) t
              = emit (EvUploadFiles name ups (Some e))
                  (uploadLoop w name ups (start + 600) (t + d + 5))"
  proof (intro allI impI)
    fix t d e
    assume "UploadFiles w name ups t = (d, Some e) \<and> uploadNotReady w e \<and> t + d \<le> start + 600"
    then show "uploadLoop w name ups (start + 600) t
        = emit (EvUploadFiles name ups (Some e)) (uploadLoop w name ups (start + 600) (t + d + 5))"
      by (intro uploadLoop_retry) simp_all
  qed
  have p3: "\<forall>t d e. UploadFiles w name ups t = (d, Some e) \<and> start + 600 < t + d
        \<longrightarrow> uploadLoop w name ups (start + 600) t
              = (Some (UploadFilesFailed e), t + d, [EvUploadFiles name ups (Some e)])"
  proof (intro allI impI)
    fix t d e
    assume "UploadFiles w name ups t = (d, Some e) \<and> start + 600 < t + d"
    then show "uploadLoop w name ups (start + 600) t
        = (Some (UploadFilesFailed e), t + d, [EvUploadFiles name ups (Some e)])"
      by (intro uploadLoop_late) simp_all
  qed
  have p4: "\<forall>t d e. UploadFiles w name ups t = (d, Some e) \<and> \<not> uploadNotReady w e
        \<longrightarrow> uploadLoop w name ups (start + 600) t
              = (Some (UploadFilesFailed e), t + d, [EvUploadFiles name ups (Some e)])"
  proof (intro allI impI)
    fix t d e
    assume "UploadFiles w name ups t = (d, Some e) \<and> \<not> uploadNotReady w e"
    then show "uploadLoop w name ups (start + 600) t
        = (Some (UploadFilesFailed e), t + d, [EvUploadFiles name ups (Some e)])"
      by (intro uploadLoop_fatal) simp_all
  qed
  have p5: "\<forall>n T d'. T 0 = start
          \<and> (\<forall>k<n. \<exists>d e. UploadFiles w name ups (T k) = (d, Some e) \<and> uploadNotReady w e
                 \<and> T k + d \<le> start + 600 \<and> T (Suc k) = T k + d + 5)
          \<and> UploadFiles w name ups (T n) = (d', None)
        \<longrightarrow> fst (uploadLoop w name ups (start + 600) start) = None
            \<and> length (snd (snd (uploadLoop w name ups (start + 600) start))) = Suc n"
  proof (intro allI impI)
    fix n T d'
    assume h: "T 0 = start
          \<and> (\<forall>k<n. \<exists>d e. UploadFiles w name ups (T k) = (d, Some e) \<and> uploadNotReady w e
                 \<and> T k + d \<le> start + 600 \<and> T (Suc k) = T k + d + 5)
          \<and> UploadFiles w name ups (T n) = (d', None)"
    then have "fst (uploadLoop w name ups (start + 600) (T 0)) = None
        \<and> length (snd (snd (uploadLoop w name ups (start + 600) (T 0)))) = Suc n"
      by (intro uploadLoop_sequence [where d' = d']) simp_all
    with h show "fst (uploadLoop w name ups (start + 600) start) = None
        \<and> length (snd (snd (uploadLoop w name ups (start + 600) start))) = Suc n"
      by simp
  qed
  have p6: "\<forall>refs evs. findLocalFileReferences (yamlUnmarshal w) mb = Inr refs \<and> refs \<noteq> []
          \<and> (\<forall>r \<in> set refs. Stat fs (ref r ''source_path'') = None)
          \<and> readyLoop w name (now + 600) now = (None, start, evs)
        \<longrightarrow> uploadLocalFiles w name mb now fs
              = (case uploadLoop w name (makeUploads refs) (start + 600) start of
                   (r, t', evs') \<Rightarrow> (r, t', evs @ evs'))"
  proof (intro allI impI)
    fix refs evs
    assume "findLocalFileReferences (yamlUnmarshal w) mb = Inr refs \<and> refs \<noteq> []
          \<and> (\<forall>r \<in> set refs. Stat fs (ref r ''source_path'') = None)
          \<and> readyLoop w name (now + 600) now = (None, start, evs)"
    then show "uploadLocalFiles w name mb now fs
        = (case uploadLoop w name (makeUploads refs) (start + 600) start of
             (r, t', evs') \<Rightarrow> (r, t', evs @ evs'))"
      by (simp add: uploadLocalFiles_unfold [of w mb refs fs name now])
  qed
  have p7: "\<forall>refs evs. findLocalFileReferences (yamlUnmarshal w) mb = Inr refs \<and> refs \<noteq> []
          \<and> (\<forall>r \<in> set refs. Stat fs (ref r ''source_path'') = None)
          \<and> readyLoop w name (now + 600) now = (None, start, evs)
        \<longrightarrow> afterCreate w cfg name mb now fs
              = (case uploadLoop w name (makeUploads refs) (start + 600) start of
                   (Some e, t', evs') \<Rightarrow> (Exit1 e, evs @ evs', fs)
                 | (None, t', evs') \<Rightarrow>
                     pre (evs @ evs') (waitForCompletion w cfg name t' fs))"
  proof (intro allI impI)
    fix refs evs
    assume "findLocalFileReferences (yamlUnmarshal w) mb = Inr refs \<and> refs \<noteq> []
          \<and> (\<forall>r \<in> set refs. Stat fs (ref r ''source_path'') = None)
          \<and> readyLoop w name (now + 600) now = (None, start, evs)"
    then show "afterCreate w cfg name mb now fs
        = (case uploadLoop w name (makeUploads refs) (start + 600) start of
             (Some e, t', evs') \<Rightarrow> (Exit1 e, evs @ evs', fs)
           | (None, t', evs') \<Rightarrow> pre (evs @ evs') (waitForCompletion w cfg name t' fs))"
      by (simp add: afterCreate_def uploadLocalFiles_unfold [of w mb refs fs name now]
          split: prod.splits option.splits)
  qed
  show ?thesis by (intro conjI p1 p2 p3 p4 p5 p6 p7)
qed

theorem C6_upload_retries_until_deadline_witness:
  "UploadFiles exampleWorld ''my-build'' exampleUploads 6 = (0, Some ''503 Service Unavailable'')
   \<and> uploadNotReady exampleWorld ''503 Service Unavailable''
   \<and> uploadLoop exampleWorld ''my-build'' exampleUploads 606 6
       = emit (EvUploadFiles ''my-build'' exampleUploads (Some ''503 Service Unavailable''))
           (uploadLoop exampleWorld ''my-build'' exampleUploads 606 11)
   \<and> UploadFiles exampleWorld ''my-build'' exampleUploads 21 = (0, None)
   \<and> fst (uploadLoop exampleWorld ''my-build'' exampleUploads 606 6) = None
   \<and> length (snd (snd (uploadLoop exampleWorld ''my-build'' exampleUploads 606 6))) = 4
   \<and> uploadLoop busyWorld ''my-build'' exampleUploads 606 607
       = (Some (UploadFilesFailed ''503 Service Unavailable''), 607,
          [EvUploadFiles ''my-build'' exampleUploads (Some ''503 Service Unavailable'')])
   \<and> \<not> uploadNotReady deniedWorld ''403 Forbidden''
   \<and> uploadLoop deniedWorld ''my-build'' exampleUploads 606 6
       = (Some (UploadFilesFailed ''403 Forbidden''), 6,
          [EvUploadFiles ''my-build'' exampleUploads (Some ''403 Forbidden'')])"
proof -
  note E = C6_upload_retries_until_deadline [where w = exampleWorld and name = "''my-build''"
      and ups = exampleUploads and start = 6 and now = 0 and fs = exampleStore
      and mb = radioManifest]
  note B = C6_upload_retries_until_deadline [where w = busyWorld and name = "''my-build''"
      and ups = exampleUploads and start = 6 and now = 0 and fs = exampleStore
      and mb = radioManifest]
  note D = C6_upload_retries_until_deadline [where w = deniedWorld and name = "''my-build''"
      and ups = exampleUploads and start = 6 and now = 0 and fs = exampleStore
      and mb = radioManifest]
  have u6: "UploadFiles exampleWorld ''my-build'' exampleUploads 6
      = (0, Some ''503 Service Unavailable'')"
    by (simp add: exampleWorld_UploadFiles_busy)
  have u21: "UploadFiles exampleWorld ''my-build'' exampleUploads 21 = (0, None)"
    by (simp add: exampleWorld_UploadFiles_ok)
  have a: "uploadLoop exampleWorld ''my-build'' exampleUploads 606 6
       = emit (EvUploadFiles ''my-build'' exampleUploads (Some ''503 Service Unavailable''))
           (uploadLoop exampleWorld ''my-build'' exampleUploads 606 11)"
    using E [THEN conjunct2, THEN conjunct1, rule_format, of 6 0 "''503 Service Unavailable''"]
    by (simp add: u6 uploadNotReady_503)
  have steps: "\<forall>k<3. \<exists>d e. UploadFiles exampleWorld ''my-build'' exampleUploads (6 + 5 * k)
        = (d, Some e) \<and> uploadNotReady exampleWorld e \<and> 6 + 5 * k + d \<le> 6 + 600
        \<and> 6 + 5 * Suc k = 6 + 5 * k + d + 5"
  proof (intro allI impI)
    fix k :: nat
    assume "k < 3"
    then have "6 + 5 * k < 20" by simp
    then have "UploadFiles exampleWorld ''my-build'' exampleUploads (6 + 5 * k)
        = (0, Some ''503 Service Unavailable'')"
      by (rule exampleWorld_UploadFiles_busy)
    with \<open>k < 3\<close> show "\<exists>d e. UploadFiles exampleWorld ''my-build'' exampleUploads (6 + 5 * k)
        = (d, Some e) \<and> uploadNotReady exampleWorld e \<and> 6 + 5 * k + d \<le> 6 + 600
        \<and> 6 + 5 * Suc k = 6 + 5 * k + d + 5"
      by (intro exI [of _ 0] exI [of _ "''503 Service Unavailable''"])
        (simp add: uploadNotReady_503)
  qed
  have b: "fst (uploadLoop exampleWorld ''my-build'' exampleUploads 606 6) = None
      \<and> length (snd (snd (uploadLoop exampleWorld ''my-build'' exampleUploads 606 6))) = 4"
    using E [THEN conjunct2, THEN conjunct2, THEN conjunct2, THEN conjunct2, THEN conjunct1,
        rule_format, of "\<lambda>k. 6 + 5 * k" 3 0] steps u21
    by simp
  have c: "uploadLoop busyWorld ''my-build'' exampleUploads 606 607
       = (Some (UploadFilesFailed ''503 Service Unavailable''), 607,
          [EvUploadFiles ''my-build'' exampleUploads (Some ''503 Service Unavailable'')])"
    using B [THEN conjunct2, THEN conjunct2, THEN conjunct1, rule_format, of 607 0
        "''503 Service Unavailable''"]
    by (simp add: busyWorld_UploadFiles)
  have d: "uploadLoop deniedWorld ''my-build'' exampleUploads 606 6
       = (Some (UploadFilesFailed ''403 Forbidden''), 6,
          [EvUploadFiles ''my-build'' exampleUploads (Some ''403 Forbidden'')])"
    using D [THEN conjunct2, THEN conjunct2, THEN conjunct2, THEN conjunct1, rule_format,
        of 6 0 "''403 Forbidden''"]
    by (simp add: deniedWorld_UploadFiles uploadNotReady_403)
  from u6 uploadNotReady_503 [of exampleWorld] a u21 b c uploadNotReady_403 [of deniedWorld] d
  show ?thesis by (intro conjI) simp_all
qed

subsection \<open>The artifact fetch\<close>

text \<open>
  The retrieval makes the output directory and then is the fetch loop, with a deadline
  1800 seconds after its start and the store in which the directory has been made.
\<close>

lemma downloadArtifactViaAPI_unfold:
  assumes "dir = (if TrimSpace (unicode w) outDir = '''' then ''./output'' else outDir)"
    and "MkdirAll dir fs = (None, fs')"
  shows "downloadArtifactViaAPI w cfg ctxDone name outDir now fs =
     downloadLoop w cfg ctxDone name dir (now + 1800) now fs'"
  using assms by (simp add: downloadArtifactViaAPI_def Let_def)

lemma artifactNotReady_iff:
  "artifactNotReady w resp =
     (StatusCode resp = 503 \<or> StatusCode resp = 409
      \<or> Contains (ToLower (unicode w) (TrimSpace (unicode w) (Body resp))) ''not ready'')"
  by (simp add: artifactNotReady_def Let_def)

lemma notReadyWorld_GetArtifact: "GetArtifact notReadyWorld name t = (0, Some notReadyResponse)"
  by (simp add: notReadyWorld_def)

lemma notReadyWorld_unicode: "unicode notReadyWorld = unicode exampleWorld"
  by (simp add: notReadyWorld_def)

lemma notReadyResponse_fields:
  "StatusCode notReadyResponse = 503" "Body notReadyResponse = ''artifact not ready''"
  by (simp_all add: notReadyResponse_def)

text \<open>
  C7. The retrieval makes the output directory and then runs the fetch loop, whose
  deadline is 1800 seconds after the start of the retrieval. In that loop a response other
  than 200 with status 503 or 409, or with not ready in its body, is followed by a sleep
  of three seconds and the next fetch; when every fetch up to the deadline is answered so,
  the loop, and with it the retrieval, ends with the timeout error; and any other response
  that is not 200 ends the loop at once with the error made of the status code and the
  trimmed body. So a retrieval whose first fetch is answered with such a response returns
  that error after this one fetch, and a retrieval whose first fetch is answered with a
  transient response has made that fetch and goes on with the loop three seconds later.
\<close>

theorem C7_artifact_fetch_retry_and_timeout:
  "(dir = (if TrimSpace (unicode w) outDir = '''' then ''./output'' else outDir)
      \<and> MkdirAll dir fs = (None, fs')
        \<longrightarrow> downloadArtifactViaAPI w cfg ctxDone name outDir start fs
              = downloadLoop w cfg ctxDone name dir (start + 1800) start fs')
   \<and> (\<forall>t d resp st. \<not> ctxDone t \<and> t \<le> start + 1800 \<and> GetArtifact w name t = (d, Some resp)
          \<and> StatusCode resp \<noteq> 200
          \<and> (StatusCode resp = 503 \<or> StatusCode resp = 409
               \<or> Contains (ToLower (unicode w) (TrimSpace (unicode w) (Body resp)))
                    ''not ready'')
        \<longrightarrow> downloadLoop w cfg ctxDone name dir (start + 1800) t st
              = emit4 (EvGetArtifact name (Some resp))
                  (downloadLoop w cfg ctxDone name dir (start + 1800) (t + d + 3) st))
   \<and> ((\<forall>t\<le>start + 1800. \<exists>d resp. GetArtifact w name t = (d, Some resp)
            \<and> StatusCode resp \<noteq> 200
            \<and> (StatusCode resp = 503 \<or> StatusCode resp = 409
                 \<or> Contains (ToLower (unicode w) (TrimSpace (unicode w) (Body resp)))
                      ''not ready''))
        \<longrightarrow> (\<forall>st. failure (downloadLoop w cfg ctxDone name dir (start + 1800) start st)
                    = Some ArtifactTimeout)
            \<and> (dir = (if TrimSpace (unicode w) outDir = '''' then ''./output'' else outDir)
                 \<and> MkdirAll dir fs = (None, fs')
                 \<longrightarrow> failure (downloadArtifactViaAPI w cfg ctxDone name outDir start fs)
                       = Some ArtifactTimeout))
   \<and> (\<forall>t d resp st. \<not> ctxDone t \<and> t \<le> start + 1800 \<and> GetArtifact w name t = (d, Some resp)
          \<and> StatusCode resp \<noteq> 200 \<and> StatusCode resp \<noteq> 503 \<and> StatusCode resp \<noteq> 409
          \<and> \<not> Contains (ToLower (unicode w) (TrimSpace (unicode w) (Body resp))) ''not ready''
        \<longrightarrow> downloadLoop w cfg ctxDone name dir (start + 1800) t st
              = (Some (HTTPError (StatusCode resp) (TrimSpace (unicode w) (Body resp))), t + d,
                 [EvGetArtifact name (Some resp)], st))
   \<and> (\<forall>d resp. dir = (if TrimSpace (unicode w) outDir = '''' then ''./output'' else outDir)
          \<and> MkdirAll dir fs = (None, fs')
          \<and> \<not> ctxDone start \<and> GetArtifact w name start = (d, Some resp)
          \<and> StatusCode resp \<noteq> 200 \<and> StatusCode resp \<noteq> 503 \<and> StatusCode resp \<noteq> 409
          \<and> \<not> Contains (ToLower (unicode w) (TrimSpace (unicode w) (Body resp))) ''not ready''
        \<longrightarrow> downloadArtifactViaAPI w cfg ctxDone name outDir start fs
              = (Some (HTTPError (StatusCode resp) (TrimSpace (unicode w) (Body resp))),
                 start + d, [EvGetArtifact name (Some resp)], fs'))
   \<and> (\<forall>d resp. dir = (if TrimSpace (unicode w) outDir = '''' then ''./output'' else outDir)
          \<and> MkdirAll dir fs = (None, fs')
          \<and> \<not> ctxDone start \<and> GetArtifact w name start = (d, Some resp)
          \<and> StatusCode resp \<noteq> 200
          \<and> (StatusCode resp = 503 \<or> StatusCode resp = 409
               \<or> Contains (ToLower (unicode w) (TrimSpace (unicode w) (Body resp)))
                    ''not ready'')
        \<longrightarrow> downloadArtifactViaAPI w cfg ctxDone name outDir start fs
              = emit4 (EvGetArtifact name (Some resp))
                  (downloadLoop w cfg ctxDone name dir (start + 1800) (start + d + 3) fs'))"
proof -
  have retry: "downloadLoop w cfg ctxDone name dir (start + 1800) t st
        = emit4 (EvGetArtifact name (Some resp))
            (downloadLoop w cfg ctxDone name dir (start + 1800) (t + d + 3) st)"
    if "\<not> ctxDone t" "t \<le> start + 1800" "GetArtifact w name t = (d, Some resp)"
      "StatusCode resp \<noteq> 200"
      "StatusCode resp = 503 \<or> StatusCode resp = 409
         \<or> Contains (ToLower (unicode w) (TrimSpace (unicode w) (Body resp))) ''not ready''"
    for t d resp st
    using that by (intro downloadLoop_notReady) (simp_all add: artifactNotReady_iff)
  have fatal: "downloadLoop w cfg ctxDone name dir (start + 1800) t st
        = (Some (HTTPError (StatusCode resp) (TrimSpace (unicode w) (Body resp))), t + d,
           [EvGetArtifact name (Some resp)], st)"
    if "\<not> ctxDone t" "t \<le> start + 1800" "GetArtifact w name t = (d, Some resp)"
      "StatusCode resp \<noteq> 200" "StatusCode resp \<noteq> 503" "StatusCode resp \<noteq> 409"
      "\<not> Contains (ToLower (unicode w) (TrimSpace (unicode w) (Body resp))) ''not ready''"
    for t d resp st
    using that by (intro downloadLoop_fatal) (simp_all add: artifactNotReady_iff)
  have tie: "downloadArtifactViaAPI w cfg ctxDone name outDir start fs
        = downloadLoop w cfg ctxDone name dir (start + 1800) start fs'"
    if h: "dir = (if TrimSpace (unicode w) outDir = '''' then ''./output'' else outDir)
        \<and> MkdirAll dir fs = (None, fs')"
    by (rule downloadArtifactViaAPI_unfold [OF h [THEN conjunct1] h [THEN conjunct2]])
  have p1: "dir = (if TrimSpace (unicode w) outDir = '''' then ''./output'' else outDir)
      \<and> MkdirAll dir fs = (None, fs')
        \<longrightarrow> downloadArtifactViaAPI w cfg ctxDone name outDir start fs
              = downloadLoop w cfg ctxDone name dir (start + 1800) start fs'"
    using tie by (rule impI)
  have p2: "\<forall>t d resp st. \<not> ctxDone t \<and> t \<le> start + 1800
          \<and> GetArtifact w name t = (d, Some resp)
          \<and> StatusCode resp \<noteq> 200
          \<and> (StatusCode resp = 503 \<or> StatusCode resp = 409
               \<or> Contains (ToLower (unicode w) (TrimSpace (unicode w) (Body resp)))
                    ''not ready'')
        \<longrightarrow> downloadLoop w cfg ctxDone name dir (start + 1800) t st
              = emit4 (EvGetArtifact name (Some resp))
                  (downloadLoop w cfg ctxDone name dir (start + 1800) (t + d + 3) st)"
  proof (intro allI impI)
    fix t d resp st
    assume h: "\<not> ctxDone t \<and> t \<le> start + 1800 \<and> GetArtifact w name t = (d, Some resp)
          \<and> StatusCode resp \<noteq> 200
          \<and> (StatusCode resp = 503 \<or> StatusCode resp = 409
               \<or> Contains (ToLower (unicode w) (TrimSpace (unicode w) (Body resp)))
                    ''not ready'')"
    show "downloadLoop w cfg ctxDone name dir (start + 1800) t st
        = emit4 (EvGetArtifact name (Some resp))
            (downloadLoop w cfg ctxDone name dir (start + 1800) (t + d + 3) st)"
      by (rule retry) (use h in simp_all)
  qed
  have p3: "(\<forall>t\<le>start + 1800. \<exists>d resp. GetArtifact w name t = (d, Some resp)
            \<and> StatusCode resp \<noteq> 200
            \<and> (StatusCode resp = 503 \<or> StatusCode resp = 409
                 \<or> Contains (ToLower (unicode w) (TrimSpace (unicode w) (Body resp)))
                      ''not ready''))
        \<longrightarrow> (\<forall>st. failure (downloadLoop w cfg ctxDone name dir (start + 1800) start st)
                    = Some ArtifactTimeout)
            \<and> (dir = (if TrimSpace (unicode w) outDir = '''' then ''./output'' else outDir)
                 \<and> MkdirAll dir fs = (None, fs')
                 \<longrightarrow> failure (downloadArtifactViaAPI w cfg ctxDone name outDir start fs)
                       = Some ArtifactTimeout)"
  proof (intro impI)
    assume h: "\<forall>t\<le>start + 1800. \<exists>d resp. GetArtifact w name t = (d, Some resp)
            \<and> StatusCode resp \<noteq> 200
            \<and> (StatusCode resp = 503 \<or> StatusCode resp = 409
                 \<or> Contains (ToLower (unicode w) (TrimSpace (unicode w) (Body resp)))
                      ''not ready'')"
    have tr: "\<forall>t\<le>start + 1800. case GetArtifact w name t of
          (d, None) \<Rightarrow> True
        | (d, Some resp) \<Rightarrow> StatusCode resp \<noteq> 200 \<and> artifactNotReady w resp"
    proof (intro allI impI)
      fix t
      assume "t \<le> start + 1800"
      with h obtain d resp where "GetArtifact w name t = (d, Some resp)"
        "StatusCode resp \<noteq> 200"
        "StatusCode resp = 503 \<or> StatusCode resp = 409
           \<or> Contains (ToLower (unicode w) (TrimSpace (unicode w) (Body resp))) ''not ready''"
        by meson
      then show "case GetArtifact w name t of
          (d, None) \<Rightarrow> True
        | (d, Some resp) \<Rightarrow> StatusCode resp \<noteq> 200 \<and> artifactNotReady w resp"
        by (simp add: artifactNotReady_iff)
    qed
    have any: "failure (downloadLoop w cfg ctxDone name dir (start + 1800) start st)
        = Some ArtifactTimeout" for st
      using downloadLoop_never [OF tr, of cfg ctxDone dir start st] by (simp add: failure_def)
    show "(\<forall>st. failure (downloadLoop w cfg ctxDone name dir (start + 1800) start st)
                    = Some ArtifactTimeout)
            \<and> (dir = (if TrimSpace (unicode w) outDir = '''' then ''./output'' else outDir)
                 \<and> MkdirAll dir fs = (None, fs')
                 \<longrightarrow> failure (downloadArtifactViaAPI w cfg ctxDone name outDir start fs)
                       = Some ArtifactTimeout)"
    proof (intro conjI allI impI)
      fix st
      show "failure (downloadLoop w cfg ctxDone name dir (start + 1800) start st)
          = Some ArtifactTimeout"
        by (rule any)
    next
      assume h2: "dir = (if TrimSpace (unicode w) outDir = '''' then ''./output'' else outDir)
          \<and> MkdirAll dir fs = (None, fs')"
      show "failure (downloadArtifactViaAPI w cfg ctxDone name outDir start fs)
          = Some ArtifactTimeout"
        by (simp only: tie [OF h2] any)
    qed
  qed
  have p4: "\<forall>t d resp st. \<not> ctxDone t \<and> t \<le> start + 1800
          \<and> GetArtifact w name t = (d, Some resp)
          \<and> StatusCode resp \<noteq> 200 \<and> StatusCode resp \<noteq> 503 \<and> StatusCode resp \<noteq> 409
          \<and> \<not> Contains (ToLower (unicode w) (TrimSpace (unicode w) (Body resp))) ''not ready''
        \<longrightarrow> downloadLoop w cfg ctxDone name dir (start + 1800) t st
              = (Some (HTTPError (StatusCode resp) (TrimSpace (unicode w) (Body resp))), t + d,
                 [EvGetArtifact name (Some resp)], st)"
  proof (intro allI impI)
    fix t d resp st
    assume h: "\<not> ctxDone t \<and> t \<le> start + 1800 \<and> GetArtifact w name t = (d, Some resp)
          \<and> StatusCode resp \<noteq> 200 \<and> StatusCode resp \<noteq> 503 \<and> StatusCode resp \<noteq> 409
          \<and> \<not> Contains (ToLower (unicode w) (TrimSpace (unicode w) (Body resp))) ''not ready''"
    show "downloadLoop w cfg ctxDone name dir (start + 1800) t st
        = (Some (HTTPError (StatusCode resp) (TrimSpace (unicode w) (Body resp))), t + d,
           [EvGetArtifact name (Some resp)], st)"
      by (rule fatal) (use h in simp_all)
  qed
  have p5: "\<forall>d resp. dir = (if TrimSpace (unicode w) outDir = '''' then ''./output'' else outDir)
          \<and> MkdirAll dir fs = (None, fs')
          \<and> \<not> ctxDone start \<and> GetArtifact w name start = (d, Some resp)
          \<and> StatusCode resp \<noteq> 200 \<and> StatusCode resp \<noteq> 503 \<and> StatusCode resp \<noteq> 409
          \<and> \<not> Contains (ToLower (unicode w) (TrimSpace (unicode w) (Body resp))) ''not ready''
        \<longrightarrow> downloadArtifactViaAPI w cfg ctxDone name outDir start fs
              = (Some (HTTPError (StatusCode resp) (TrimSpace (unicode w) (Body resp))),
                 start + d, [EvGetArtifact name (Some resp)], fs')"
  proof (intro allI impI)
    fix d resp
    assume h: "dir = (if TrimSpace (unicode w) outDir = '''' then ''./output'' else outDir)
          \<and> MkdirAll dir fs = (None, fs')
          \<and> \<not> ctxDone start \<and> GetArtifact w name start = (d, Some resp)
          \<and> StatusCode resp \<noteq> 200 \<and> StatusCode resp \<noteq> 503 \<and> StatusCode resp \<noteq> 409
          \<and> \<not> Contains (ToLower (unicode w) (TrimSpace (unicode w) (Body resp))) ''not ready''"
    have h2: "dir = (if TrimSpace (unicode w) outDir = '''' then ''./output'' else outDir)
          \<and> MkdirAll dir fs = (None, fs')"
      by (rule conjI [OF h [THEN conjunct1] h [THEN conjunct2, THEN conjunct1]])
    have "downloadArtifactViaAPI w cfg ctxDone name outDir start fs
        = downloadLoop w cfg ctxDone name dir (start + 1800) start fs'"
      by (rule tie [OF h2])
    also have "\<dots> = (Some (HTTPError (StatusCode resp) (TrimSpace (unicode w) (Body resp))),
        start + d, [EvGetArtifact name (Some resp)], fs')"
      by (rule fatal) (use h in simp_all)
    finally show "downloadArtifactViaAPI w cfg ctxDone name outDir start fs
        = (Some (HTTPError (StatusCode resp) (TrimSpace (unicode w) (Body resp))),
           start + d, [EvGetArtifact name (Some resp)], fs')" .
  qed
  have p6: "\<forall>d resp. dir = (if TrimSpace (unicode w) outDir = '''' then ''./output'' else outDir)
          \<and> MkdirAll dir fs = (None, fs')
          \<and> \<not> ctxDone start \<and> GetArtifact w name start = (d, Some resp)
          \<and> StatusCode resp \<noteq> 200
          \<and> (StatusCode resp = 503 \<or> StatusCode resp = 409
               \<or> Contains (ToLower (unicode w) (TrimSpace (unicode w) (Body resp)))
                    ''not ready'')
        \<longrightarrow> downloadArtifactViaAPI w cfg ctxDone name outDir start fs
              = emit4 (EvGetArtifact name (Some resp))
                  (downloadLoop w cfg ctxDone name dir (start + 1800) (start + d + 3) fs')"
  proof (intro allI impI)
    fix d resp
    assume h: "dir = (if TrimSpace (unicode w) outDir = '''' then ''./output'' else outDir)
          \<and> MkdirAll dir fs = (None, fs')
          \<and> \<not> ctxDone start \<and> GetArtifact w name start = (d, Some resp)
          \<and> StatusCode resp \<noteq> 200
          \<and> (StatusCode resp = 503 \<or> StatusCode resp = 409
               \<or> Contains (ToLower (unicode w) (TrimSpace (unicode w) (Body resp)))
                    ''not ready'')"
    have h2: "dir = (if TrimSpace (unicode w) outDir = '''' then ''./output'' else outDir)
          \<and> MkdirAll dir fs = (None, fs')"
      by (rule conjI [OF h [THEN conjunct1] h [THEN conjunct2, THEN conjunct1]])
    have "downloadArtifactViaAPI w cfg ctxDone name outDir start fs
        = downloadLoop w cfg ctxDone name dir (start + 1800) start fs'"
      by (rule tie [OF h2])
    also have "\<dots> = emit4 (EvGetArtifact name (Some resp))
        (downloadLoop w cfg ctxDone name dir (start + 1800) (start + d + 3) fs')"
      by (rule retry) (use h in simp_all)
    finally show "downloadArtifactViaAPI w cfg ctxDone name outDir start fs
        = emit4 (EvGetArtifact name (Some resp))
            (downloadLoop w cfg ctxDone name dir (start + 1800) (start + d + 3) fs')" .
  qed
  show ?thesis by (intro conjI p1 p2 p3 p4 p5 p6)
qed

theorem C7_artifact_fetch_retry_and_timeout_witness:
  "MkdirAll ''./output'' exampleStore = (None, exampleStore(''output'' \<mapsto> Dir))
   \<and> GetArtifact notReadyWorld ''my-build'' 0 = (0, Some notReadyResponse)
   \<and> StatusCode notReadyResponse = 503
   \<and> downloadArtifactViaAPI notReadyWorld exampleConfig background ''my-build'' ''./output'' 0
        exampleStore
       = emit4 (EvGetArtifact ''my-build'' (Some notReadyResponse))
           (downloadLoop notReadyWorld exampleConfig background ''my-build'' ''./output'' 1800 3
              (exampleStore(''output'' \<mapsto> Dir)))
   \<and> failure (downloadArtifactViaAPI notReadyWorld exampleConfig background ''my-build''
        ''./output'' 0 exampleStore) = Some ArtifactTimeout
   \<and> GetArtifact exampleWorld ''my-build'' 41
       = (0, Some \<lparr>StatusCode = 500, Header = [], Body = ''boom'', BodyError = None\<rparr>)
   \<and> downloadArtifactViaAPI exampleWorld exampleConfig background ''my-build'' ''./output'' 41
        exampleStore
       = (Some (HTTPError 500 ''boom''), 41,
          [EvGetArtifact ''my-build''
             (Some \<lparr>StatusCode = 500, Header = [], Body = ''boom'', BodyError = None\<rparr>)],
          exampleStore(''output'' \<mapsto> Dir))"
proof -
  note N = C7_artifact_fetch_retry_and_timeout [where w = notReadyWorld
      and cfg = exampleConfig and ctxDone = background and name = "''my-build''"
      and outDir = "''./output''" and start = 0 and fs = exampleStore
      and dir = "''./output''" and fs' = "exampleStore(''output'' \<mapsto> Dir)"]
  note E = C7_artifact_fetch_retry_and_timeout [where w = exampleWorld
      and cfg = exampleConfig and ctxDone = background and name = "''my-build''"
      and outDir = "''./output''" and start = 41 and fs = exampleStore
      and dir = "''./output''" and fs' = "exampleStore(''output'' \<mapsto> Dir)"]
  have mk: "MkdirAll ''./output'' exampleStore = (None, exampleStore(''output'' \<mapsto> Dir))"
    by (simp add: MkdirAll_output isFile_def exampleStore_def)
  have dirN: "''./output''
      = (if TrimSpace (unicode notReadyWorld) ''./output'' = '''' then ''./output''
         else ''./output'')"
    by simp
  have dirE: "''./output''
      = (if TrimSpace (unicode exampleWorld) ''./output'' = '''' then ''./output''
         else ''./output'')"
    by simp
  have a: "downloadArtifactViaAPI notReadyWorld exampleConfig background ''my-build'' ''./output''
        0 exampleStore
       = emit4 (EvGetArtifact ''my-build'' (Some notReadyResponse))
           (downloadLoop notReadyWorld exampleConfig background ''my-build'' ''./output'' 1800 3
              (exampleStore(''output'' \<mapsto> Dir)))"
    using N [THEN conjunct2, THEN conjunct2, THEN conjunct2, THEN conjunct2, THEN conjunct2,
        THEN spec, THEN spec, THEN mp, of 0 notReadyResponse] dirN mk
    by (simp add: notReadyWorld_GetArtifact notReadyResponse_fields background_def)
  have all: "\<forall>t\<le>0 + 1800. \<exists>d resp. GetArtifact notReadyWorld ''my-build'' t = (d, Some resp)
            \<and> StatusCode resp \<noteq> 200
            \<and> (StatusCode resp = 503 \<or> StatusCode resp = 409
                 \<or> Contains (ToLower (unicode notReadyWorld)
                      (TrimSpace (unicode notReadyWorld) (Body resp))) ''not ready'')"
    by (intro allI impI exI [of _ 0] exI [of _ notReadyResponse])
      (simp add: notReadyWorld_GetArtifact notReadyResponse_fields)
  have b: "failure (downloadArtifactViaAPI notReadyWorld exampleConfig background ''my-build''
        ''./output'' 0 exampleStore) = Some ArtifactTimeout"
    using N [THEN conjunct2, THEN conjunct2, THEN conjunct1, THEN mp, OF all, THEN conjunct2,
        THEN mp, OF conjI, OF dirN mk] .
  have c: "downloadArtifactViaAPI exampleWorld exampleConfig background ''my-build'' ''./output''
        41 exampleStore
       = (Some (HTTPError 500 ''boom''), 41,
          [EvGetArtifact ''my-build''
             (Some \<lparr>StatusCode = 500, Header = [], Body = ''boom'', BodyError = None\<rparr>)],
          exampleStore(''output'' \<mapsto> Dir))"
    using E [THEN conjunct2, THEN conjunct2, THEN conjunct2, THEN conjunct2, THEN conjunct1,
        THEN spec, THEN spec, THEN mp, of 0
        "\<lparr>StatusCode = 500, Header = [], Body = ''boom'', BodyError = None\<rparr>"] dirE mk
    by (simp add: exampleWorld_GetArtifact background_def TrimSpace_examples ToLower_examples
        Contains_code)
  from mk a b c show ?thesis
    by (simp add: notReadyWorld_GetArtifact notReadyResponse_fields exampleWorld_GetArtifact)
qed

end
